(* ===== verification/Prelude.thy ===== *)
theory Prelude
  imports Main "HOL-Library.Word" "HOL-Library.Sublist"
begin

text \<open>
  Shared vocabulary of the development: the machine integer types, the shape of a Rust
  \<open>Result\<close> and its early return, slices and indexing that may panic, and the generic list
  lemmas the component theories share. A Rust \<open>u8\<close> is HOL's \<^typ>\<open>char\<close>, the type of the
  256 bytes, so that byte strings have literals; wider integers are words of their width.
\<close>

named_theorems result_simps "early returns of fallible calls"
named_theorems text_simps "string operations of the standard library"
named_theorems step_simps "one step of an event loop"

type_synonym byte = char
type_synonym bytes = "char list"
type_synonym u16 = "16 word"
type_synonym u32 = "32 word"
type_synonym i32 = "32 word"
type_synonym usize = nat

abbreviation byte_val :: "byte \<Rightarrow> nat" where
  "byte_val b \<equiv> of_char b"

lemma byte_val_less: "byte_val b < 256"
  by (rule nat_of_char_less_256)

subsection \<open>Fallible calls\<close>

text \<open>
  A Rust \<open>Result<T, E>\<close> is \<open>'e + 'a\<close>: \<open>Inl\<close> for \<open>Err\<close>, \<open>Inr\<close> for \<open>Ok\<close>. A call that also acts
  on the outside world takes and returns the state \<open>'s\<close> of that world; \<open>try_then\<close> is the
  operator \<open>?\<close> on such calls, and \<open>map_err\<close> converts the error.
\<close>

definition try_then ::
  "('s \<Rightarrow> ('e + 'a) \<times> 's) \<Rightarrow> ('a \<Rightarrow> 's \<Rightarrow> ('e + 'b) \<times> 's) \<Rightarrow> 's \<Rightarrow> ('e + 'b) \<times> 's" where
  "try_then m f s = (case m s of (Inl e, s') \<Rightarrow> (Inl e, s') | (Inr a, s') \<Rightarrow> f a s')"

definition map_err ::
  "('e \<Rightarrow> 'f) \<Rightarrow> ('s \<Rightarrow> ('e + 'a) \<times> 's) \<Rightarrow> 's \<Rightarrow> ('f + 'a) \<times> 's" where
  "map_err g m s = (case m s of (Inl e, s') \<Rightarrow> (Inl (g e), s') | (Inr a, s') \<Rightarrow> (Inr a, s'))"

definition return_ok :: "'a \<Rightarrow> 's \<Rightarrow> ('e + 'a) \<times> 's" where
  "return_ok a s = (Inr a, s)"

lemma try_then_Inl [result_simps]: "m s = (Inl e, s') \<Longrightarrow> try_then m f s = (Inl e, s')"
  by (simp add: try_then_def)

lemma try_then_Inr [result_simps]: "m s = (Inr a, s') \<Longrightarrow> try_then m f s = f a s'"
  by (simp add: try_then_def)

lemma map_err_Inl [result_simps]: "m s = (Inl e, s') \<Longrightarrow> map_err g m s = (Inl (g e), s')"
  by (simp add: map_err_def)

lemma map_err_Inr [result_simps]: "m s = (Inr a, s') \<Longrightarrow> map_err g m s = (Inr a, s')"
  by (simp add: map_err_def)

subsection \<open>Indexing and slicing\<close>

text \<open>
  \<open>xs[i]\<close> and \<open>xs[i..j]\<close> panic out of range; \<open>None\<close> is the panic. \<open>xs.get(i)\<close> returns an
  option of its own and has the same model.
\<close>

definition index_at :: "'a list \<Rightarrow> usize \<Rightarrow> 'a option" where
  "index_at xs i = (if i < length xs then Some (xs ! i) else None)"

definition slice :: "'a list \<Rightarrow> usize \<Rightarrow> usize \<Rightarrow> 'a list option" where
  "slice xs i j = (if i \<le> j \<and> j \<le> length xs then Some (take (j - i) (drop i xs)) else None)"

lemma index_at_Some [simp]: "i < length xs \<Longrightarrow> index_at xs i = Some (xs ! i)"
  by (simp add: index_at_def)

lemma slice_Some [simp]:
  "i \<le> j \<Longrightarrow> j \<le> length xs \<Longrightarrow> slice xs i j = Some (take (j - i) (drop i xs))"
  by (simp add: slice_def)

text \<open>\<open>iter().position(p)\<close>: the index of the first element that satisfies \<open>p\<close>.\<close>

fun position :: "('a \<Rightarrow> bool) \<Rightarrow> 'a list \<Rightarrow> usize option" where
  "position p [] = None"
| "position p (x # xs) = (if p x then Some 0 else map_option Suc (position p xs))"

lemma position_None: "position p xs = None \<longleftrightarrow> (\<forall>x \<in> set xs. \<not> p x)"
  by (induction xs) auto

lemma position_Some:
  "position p xs = Some n \<longleftrightarrow> n < length xs \<and> p (xs ! n) \<and> (\<forall>x \<in> set (take n xs). \<not> p x)"
proof (induction xs arbitrary: n)
  case (Cons x xs)
  then show ?case by (cases n) auto
qed simp

lemma position_append_hit:
  "(\<forall>x \<in> set xs. \<not> p x) \<Longrightarrow> p y \<Longrightarrow> position p (xs @ y # ys) = Some (length xs)"
  by (induction xs) auto

lemma set_map_filter: "set (List.map_filter f xs) = {y. \<exists>x \<in> set xs. f x = Some y}"
  by (induction xs) (auto simp: map_filter_simps split: option.splits)

subsection \<open>First occurrences\<close>

text \<open>
  \<open>fresh S ks\<close> are the elements of \<open>ks\<close> that are not in \<open>S\<close>, each at its first occurrence: what
  \<open>HashSet::insert\<close> answers \<open>true\<close> for when it is called on \<open>ks\<close> in order.
\<close>

fun fresh :: "'k set \<Rightarrow> 'k list \<Rightarrow> 'k list" where
  "fresh S [] = []"
| "fresh S (k # ks) = (if k \<in> S then fresh S ks else k # fresh (insert k S) ks)"

lemma set_fresh: "set (fresh S ks) = set ks - S"
  by (induction S ks rule: fresh.induct) auto

lemma distinct_fresh: "distinct (fresh S ks)"
  by (induction S ks rule: fresh.induct) (auto simp: set_fresh)

lemma fresh_append: "fresh S (ks @ ls) = fresh S ks @ fresh (S \<union> set ks) ls"
  by (induction S ks rule: fresh.induct) (auto simp: insert_absorb)

subsection \<open>Options that stand for a non-zero integer\<close>

text \<open>
  \<open>NonZeroU32::new\<close>, and the invariant of the type \<open>Option<NonZeroU32>\<close>, which is modelled by
  \<open>u32 option\<close>.
\<close>

definition NonZeroU32_new :: "u32 \<Rightarrow> u32 option" where
  "NonZeroU32_new n = (if n = 0 then None else Some n)"

definition nonzero_opt :: "u32 option \<Rightarrow> bool" where
  "nonzero_opt x \<longleftrightarrow> x \<noteq> Some 0"

lemma nonzero_opt_simps [simp]: "nonzero_opt None" "nonzero_opt (Some n) \<longleftrightarrow> n \<noteq> 0"
  by (simp_all add: nonzero_opt_def)

lemma NonZeroU32_new_nonzero [simp]: "nonzero_opt (NonZeroU32_new n)"
  by (simp add: NonZeroU32_new_def)

lemma NonZeroU32_new_Some [simp]: "n \<noteq> 0 \<Longrightarrow> NonZeroU32_new n = Some n"
  by (simp add: NonZeroU32_new_def)

lemma NonZeroU32_new_0 [simp]: "NonZeroU32_new 0 = None"
  by (simp add: NonZeroU32_new_def)

text \<open>The two readings of a 32-bit word, without simplifying \<open>int (unat i)\<close>.\<close>

lemma uint_sint_32:
  fixes i :: u32
  shows "int (unat i) = (if 0 \<le> sint i then sint i else sint i + 4294967296)"
proof -
  have b: "sint i < 2147483648" "- 2147483648 \<le> sint i"
    using sint_lt [of i] sint_ge [of i] by simp_all
  have u: "int (unat i) = sint i mod 4294967296"
    by (simp add: uint_sint take_bit_eq_mod)
  show ?thesis
  proof (cases "0 \<le> sint i")
    case False
    have "sint i mod 4294967296 = (sint i + 4294967296) mod 4294967296" by simp
    also have "\<dots> = sint i + 4294967296"
      using b False by (intro mod_pos_pos_trivial) simp_all
    finally show ?thesis using u False by simp
  qed (use u b in simp)
qed

lemma sint_bounds: "sint (i :: u32) < 2147483648" "- 2147483648 \<le> sint (i :: u32)"
  using sint_lt [of i] sint_ge [of i] by simp_all

lemma sint_small: "unat (i :: u32) \<le> 2147483647 \<Longrightarrow> sint i = int (unat i)"
  using uint_sint_32 [of i] sint_bounds [of i] by (cases "0 \<le> sint i"; simp only: if_True if_False; linarith)

lemma sint_positive: "0 < sint (i :: u32) \<Longrightarrow> int (unat i) = sint i \<and> unat i \<le> 2147483647"
  using uint_sint_32 [of i] sint_bounds [of i] by (cases "0 \<le> sint i"; simp only: if_True if_False; linarith)

text \<open>Counting the elements with a property when one of them changes or goes.\<close>

lemma count_update_gain:
  "i < length xs \<Longrightarrow> \<not> P (xs ! i) \<Longrightarrow>
   length (filter P (xs[i := y])) = length (filter P xs) + (if P y then 1 else 0)"
  by (induction xs arbitrary: i) (auto simp: nth_Cons split: nat.splits)

lemma count_update_lose:
  "i < length xs \<Longrightarrow> P (xs ! i) \<Longrightarrow> \<not> P y \<Longrightarrow>
   Suc (length (filter P (xs[i := y]))) = length (filter P xs)"
  by (induction xs arbitrary: i) (auto simp: nth_Cons split: nat.splits)

lemma count_remove:
  "i < length xs \<Longrightarrow> \<not> P (xs ! i) \<Longrightarrow>
   length (filter P (take i xs @ drop (Suc i) xs)) = length (filter P xs)"
  by (induction xs arbitrary: i) (auto simp: nth_Cons split: nat.splits)

end
