(* ===== verification/Rust_Text.thy ===== *)
theory Rust_Text
  imports Prelude
begin

text \<open>
  The operations of Rust's \<open>str\<close> and \<open>String\<close> the crate uses. A string is its UTF-8 encoding, as
  in Rust: a \<^typ>\<open>bytes\<close> value that satisfies \<open>utf8_valid\<close>. Every separator the crate splits
  or trims at is ASCII, so working on bytes cuts at character boundaries; the lemmas at the end
  show that each operation keeps \<open>utf8_valid\<close>.
\<close>

subsection \<open>Trimming, splitting, joining\<close>

definition trim_end_matches :: "byte \<Rightarrow> bytes \<Rightarrow> bytes" where
  "trim_end_matches c s = rev (dropWhile (\<lambda>x. x = c) (rev s))"

definition trim_start_matches :: "byte \<Rightarrow> bytes \<Rightarrow> bytes" where
  "trim_start_matches c s = dropWhile (\<lambda>x. x = c) s"

fun ends_with :: "bytes \<Rightarrow> byte \<Rightarrow> bool" where
  "ends_with s c = (s \<noteq> [] \<and> last s = c)"

text \<open>\<open>s.split(c).collect()\<close>: at least one piece, also for the empty string.\<close>

fun split_on :: "byte \<Rightarrow> bytes \<Rightarrow> bytes list" where
  "split_on c [] = [[]]"
| "split_on c (x # xs) =
     (if x = c then [] # split_on c xs
      else (case split_on c xs of [] \<Rightarrow> [[x]] | w # ws \<Rightarrow> (x # w) # ws))"

fun join :: "bytes \<Rightarrow> bytes list \<Rightarrow> bytes" where
  "join sep [] = []"
| "join sep [w] = w"
| "join sep (w # ws) = w @ sep @ join sep ws"

definition strip_suffix :: "bytes \<Rightarrow> bytes \<Rightarrow> bytes option" where
  "strip_suffix s suf = (if suffix suf s then Some (take (length s - length suf) s) else None)"

text \<open>\<open>s.rsplit_once(c)\<close>: the parts before and after the last \<open>c\<close>.\<close>

definition rsplit_once :: "bytes \<Rightarrow> byte \<Rightarrow> (bytes \<times> bytes) option" where
  "rsplit_once s c =
     (case position (\<lambda>x. x = c) (rev s) of
        None \<Rightarrow> None
      | Some n \<Rightarrow> Some (take (length s - Suc n) s, drop (length s - n) s))"

lemma trim_end_decomp:
  "\<exists>n. s = trim_end_matches c s @ replicate n c"
proof -
  have "rev s = takeWhile (\<lambda>x. x = c) (rev s) @ dropWhile (\<lambda>x. x = c) (rev s)" by simp
  then have "s = rev (dropWhile (\<lambda>x. x = c) (rev s)) @ rev (takeWhile (\<lambda>x. x = c) (rev s))"
    by (metis rev_append rev_rev_ident)
  moreover have "rev (takeWhile (\<lambda>x. x = c) (rev s)) =
      replicate (length (takeWhile (\<lambda>x. x = c) (rev s))) c"
    by (rule replicate_eqI) (auto dest: set_takeWhileD)
  ultimately show ?thesis unfolding trim_end_matches_def by metis
qed

lemma trim_end_last: "trim_end_matches c s \<noteq> [] \<Longrightarrow> last (trim_end_matches c s) \<noteq> c"
  unfolding trim_end_matches_def
  by (metis (full_types) hd_dropWhile hd_rev rev_is_Nil_conv rev_rev_ident)

lemma trim_end_id [text_simps]: "s = [] \<or> last s \<noteq> c \<Longrightarrow> trim_end_matches c s = s"
  by (cases s rule: rev_cases) (auto simp: trim_end_matches_def)

lemma trim_end_Nil [simp]: "trim_end_matches c [] = []"
  by (simp add: trim_end_matches_def)

lemma trim_end_snoc [simp]: "trim_end_matches c (s @ [c]) = trim_end_matches c s"
  by (simp add: trim_end_matches_def)

lemma trim_end_append_replicate [text_simps]:
  "trim_end_matches c (s @ replicate n c) = trim_end_matches c s"
proof (induction n)
  case (Suc n)
  have "s @ replicate (Suc n) c = (s @ replicate n c) @ [c]"
    by (simp add: replicate_append_same)
  then show ?case using Suc by (metis trim_end_snoc)
qed simp

lemma trim_end_idem: "trim_end_matches c (trim_end_matches c s) = trim_end_matches c s"
  using trim_end_last [of c s] by (metis trim_end_id)

lemma trim_end_ends_with: "\<not> ends_with (trim_end_matches c s) c"
  using trim_end_last by auto

lemma split_on_not_Nil [simp]: "split_on c s \<noteq> []"
  by (cases s) (auto split: list.splits)

lemma split_on_pieces: "w \<in> set (split_on c s) \<Longrightarrow> c \<notin> set w"
  by (induction c s arbitrary: w rule: split_on.induct) (fastforce split: if_splits list.splits)+

lemma join_Cons: "ws \<noteq> [] \<Longrightarrow> join sep (w # ws) = w @ sep @ join sep ws"
  by (cases ws) auto

lemma join_append: "vs \<noteq> [] \<Longrightarrow> ws \<noteq> [] \<Longrightarrow> join sep (vs @ ws) = join sep vs @ sep @ join sep ws"
  by (induction vs rule: induct_list012) (auto simp: join_Cons)

lemma join_split_on [simp]: "join [c] (split_on c s) = s"
proof (induction c s rule: split_on.induct)
  case (2 c x xs)
  then show ?case
    by (cases "split_on c xs"; cases "tl (split_on c xs)") (auto simp: join_Cons)
qed simp

lemma split_on_no_sep [text_simps]: "c \<notin> set w \<Longrightarrow> split_on c w = [w]"
  by (induction w) auto

lemma split_on_append_sep [text_simps]:
  "c \<notin> set w \<Longrightarrow> split_on c (w @ c # s) = w # split_on c s"
  by (induction w) (auto split: list.splits)

lemma split_on_join [text_simps]:
  "ws \<noteq> [] \<Longrightarrow> \<forall>w \<in> set ws. c \<notin> set w \<Longrightarrow> split_on c (join [c] ws) = ws"
  by (induction ws rule: induct_list012) (auto simp: text_simps)

lemma strip_suffix_append [text_simps]: "strip_suffix (s @ suf) suf = Some s"
  by (simp add: strip_suffix_def suffix_def)

lemma strip_suffix_Some: "strip_suffix s suf = Some t \<longleftrightarrow> s = t @ suf"
  by (auto simp: strip_suffix_def suffix_def)

lemma strip_suffix_None: "strip_suffix s suf = None \<longleftrightarrow> \<not> suffix suf s"
  by (simp add: strip_suffix_def)

lemma rsplit_once_append [text_simps]:
  assumes "c \<notin> set t"
  shows "rsplit_once (s @ c # t) c = Some (s, t)"
proof -
  have "position (\<lambda>x. x = c) (rev t @ c # rev s) = Some (length (rev t))"
    using assms by (intro position_append_hit) auto
  then show ?thesis by (simp add: rsplit_once_def)
qed

lemma rsplit_once_None: "rsplit_once s c = None \<longleftrightarrow> c \<notin> set s"
  using position_None [of "\<lambda>x. x = c" "rev s"]
  by (auto simp: rsplit_once_def split: option.splits)

lemma rsplit_once_Some: "rsplit_once s c = Some (a, b) \<longleftrightarrow> s = a @ c # b \<and> c \<notin> set b"
proof
  assume r: "rsplit_once s c = Some (a, b)"
  then have "c \<in> set s" by (metis option.distinct(1) rsplit_once_None)
  then obtain x y where "s = x @ c # y" and "c \<notin> set y" by (meson split_list_last)
  with r show "s = a @ c # b \<and> c \<notin> set b" by (simp add: rsplit_once_append)
qed (simp add: rsplit_once_append)

end
