(* ===== verification/Utf8.thy ===== *)
theory Utf8
  imports Rust_Text
begin

text \<open>
  UTF-8 validity and \<open>String::from_utf8_lossy\<close>, after the decoder of Rust's standard library
  (\<open>core::str::lossy\<close>): one call of \<open>utf8_scan\<close> reads one encoded character, or the longest
  prefix of one that the decoder inspects before it meets a byte that cannot continue it.
\<close>

subsection \<open>Reading one character\<close>

text \<open>\<open>safe_get\<close> of the decoder: the byte at an offset, or 0 past the end.\<close>

definition safe_get :: "bytes \<Rightarrow> nat \<Rightarrow> nat" where
  "safe_get bs k = (if k < length bs then byte_val (bs ! k) else 0)"

definition is_cont :: "nat \<Rightarrow> bool" where
  "is_cont b \<longleftrightarrow> 128 \<le> b \<and> b < 192"

definition utf8_char_width :: "nat \<Rightarrow> nat" where
  "utf8_char_width b =
     (if b < 128 then 1 else if b < 194 then 0 else if b < 224 then 2
      else if b < 240 then 3 else if b < 245 then 4 else 0)"

text \<open>Which second bytes a three- or four-byte character may have.\<close>

definition second3_ok :: "nat \<Rightarrow> nat \<Rightarrow> bool" where
  "second3_ok b x \<longleftrightarrow>
     (if b = 224 then 160 \<le> x \<and> x < 192 else if b = 237 then 128 \<le> x \<and> x < 160 else is_cont x)"

definition second4_ok :: "nat \<Rightarrow> nat \<Rightarrow> bool" where
  "second4_ok b x \<longleftrightarrow>
     (if b = 240 then 144 \<le> x \<and> x < 192 else if b = 244 then 128 \<le> x \<and> x < 144 else is_cont x)"

definition utf8_scan :: "bytes \<Rightarrow> bool \<times> nat" where
  "utf8_scan bs =
     (let b = safe_get bs 0; w = utf8_char_width b in
      if w = 1 then (True, 1)
      else if w = 2 then (if is_cont (safe_get bs 1) then (True, 2) else (False, 1))
      else if w = 3 then
        (if second3_ok b (safe_get bs 1)
         then (if is_cont (safe_get bs 2) then (True, 3) else (False, 2))
         else (False, 1))
      else if w = 4 then
        (if second4_ok b (safe_get bs 1)
         then (if is_cont (safe_get bs 2)
               then (if is_cont (safe_get bs 3) then (True, 4) else (False, 3))
               else (False, 2))
         else (False, 1))
      else (False, 1))"

lemma utf8_scan_pos: "0 < snd (utf8_scan bs)"
  by (simp add: utf8_scan_def Let_def)

subsection \<open>Validity and lossy decoding\<close>

function utf8_valid :: "bytes \<Rightarrow> bool" where
  "utf8_valid bs =
     (if bs = [] then True
      else if fst (utf8_scan bs) then utf8_valid (drop (snd (utf8_scan bs)) bs) else False)"
  by pat_completeness auto
termination
  by (relation "measure length") (auto intro: diff_less simp: utf8_scan_pos)

definition replacement_character :: bytes where
  "replacement_character = [CHR 0xEF, CHR 0xBF, CHR 0xBD]"

function from_utf8_lossy :: "bytes \<Rightarrow> bytes" where
  "from_utf8_lossy bs =
     (if bs = [] then []
      else (if fst (utf8_scan bs) then take (snd (utf8_scan bs)) bs else replacement_character)
           @ from_utf8_lossy (drop (snd (utf8_scan bs)) bs))"
  by pat_completeness auto
termination
  by (relation "measure length") (auto intro: diff_less simp: utf8_scan_pos)

declare utf8_valid.simps [simp del] from_utf8_lossy.simps [simp del]

lemma utf8_valid_Nil [simp]: "utf8_valid []"
  by (simp add: utf8_valid.simps)

lemma from_utf8_lossy_Nil [simp]: "from_utf8_lossy [] = []"
  by (simp add: from_utf8_lossy.simps)

subsection \<open>What a scan looks at\<close>

lemma is_cont_0 [simp]: "\<not> is_cont 0" and second3_ok_0 [simp]: "\<not> second3_ok b 0"
  and second4_ok_0 [simp]: "\<not> second4_ok b 0"
  by (simp_all add: is_cont_def second3_ok_def second4_ok_def)

lemma ascii_not_cont:
  assumes "x < 128"
  shows "\<not> is_cont x" and "\<not> second3_ok b x" and "\<not> second4_ok b x"
  using assms by (simp_all add: is_cont_def second3_ok_def second4_ok_def)

lemma safe_get_append [simp]: "k < length a \<Longrightarrow> safe_get (a @ b) k = safe_get a k"
  by (simp add: safe_get_def nth_append)

lemma safe_get_beyond [simp]: "length a \<le> k \<Longrightarrow> safe_get a k = 0"
  by (simp add: safe_get_def)

lemma safe_get_take [simp]: "k < n \<Longrightarrow> safe_get (take n bs) k = safe_get bs k"
  by (simp add: safe_get_def)

lemma utf8_scan_within: "utf8_scan bs = (True, n) \<Longrightarrow> bs \<noteq> [] \<Longrightarrow> n \<le> length bs"
  by (cases bs) (auto simp: utf8_scan_def Let_def safe_get_def Suc_le_eq split: if_splits)

lemma utf8_scan_cong:
  assumes "utf8_scan bs = (True, n)" and eq: "\<And>k. k < n \<Longrightarrow> safe_get cs k = safe_get bs k"
  shows "utf8_scan cs = (True, n)"
proof -
  have "0 < n" using assms(1) utf8_scan_pos [of bs] by simp
  then have b: "safe_get cs 0 = safe_get bs 0" by (rule eq)
  from assms(1) consider "n = 1" "utf8_char_width (safe_get bs 0) = 1"
    | "n = 2" "utf8_char_width (safe_get bs 0) = 2" "is_cont (safe_get bs 1)"
    | "n = 3" "utf8_char_width (safe_get bs 0) = 3" "second3_ok (safe_get bs 0) (safe_get bs 1)"
      "is_cont (safe_get bs 2)"
    | "n = 4" "utf8_char_width (safe_get bs 0) = 4" "second4_ok (safe_get bs 0) (safe_get bs 1)"
      "is_cont (safe_get bs 2)" "is_cont (safe_get bs 3)"
    by (auto simp: utf8_scan_def Let_def split: if_split_asm)
  then show ?thesis
    by cases (simp_all add: utf8_scan_def b eq)
qed

lemma utf8_scan_take:
  assumes "utf8_scan bs = (True, n)" and "bs \<noteq> []"
  shows "utf8_scan (take n bs @ cs) = (True, n)"
  using assms(1)
proof (rule utf8_scan_cong)
  fix k assume "k < n"
  with utf8_scan_within [OF assms] show "safe_get (take n bs @ cs) k = safe_get bs k" by simp
qed

lemma utf8_scan_before_ascii:
  assumes "a \<noteq> []" and c: "byte_val c < 128"
  shows "utf8_scan (a @ c # b) = utf8_scan a"
proof -
  have at_end: "safe_get (a @ c # b) (length a) = byte_val c"
    by (simp add: safe_get_def)
  note not_cont = ascii_not_cont [OF c] is_cont_0 second3_ok_0 second4_ok_0
  have "length a = 1 \<or> length a = 2 \<or> length a = 3 \<or> 4 \<le> length a"
    using length_greater_0_conv [of a] \<open>a \<noteq> []\<close> by linarith
  then show ?thesis
  proof (elim disjE)
    assume l: "length a = 1"
    have "safe_get (a @ c # b) 0 = safe_get a 0" and "safe_get (a @ c # b) 1 = byte_val c"
      and "safe_get a 1 = 0"
      using l at_end by simp_all
    then show ?thesis by (simp only: utf8_scan_def Let_def not_cont if_False)
  next
    assume l: "length a = 2"
    have "safe_get (a @ c # b) 0 = safe_get a 0" and "safe_get (a @ c # b) 1 = safe_get a 1"
      and "safe_get (a @ c # b) 2 = byte_val c" and "safe_get a 2 = 0"
      using l at_end by simp_all
    then show ?thesis by (simp only: utf8_scan_def Let_def not_cont if_False)
  next
    assume l: "length a = 3"
    have "safe_get (a @ c # b) 0 = safe_get a 0" and "safe_get (a @ c # b) 1 = safe_get a 1"
      and "safe_get (a @ c # b) 2 = safe_get a 2" and "safe_get (a @ c # b) 3 = byte_val c"
      and "safe_get a 3 = 0"
      using l at_end by simp_all
    then show ?thesis by (simp only: utf8_scan_def Let_def not_cont if_False)
  next
    assume l: "4 \<le> length a"
    then have "0 < length a" and "1 < length a" and "2 < length a" and "3 < length a" by linarith+
    note safe_get_append [OF this(1)] safe_get_append [OF this(2)]
      safe_get_append [OF this(3)] safe_get_append [OF this(4)]
    then show ?thesis by (simp only: utf8_scan_def)
  qed
qed

lemma utf8_scan_ascii: "byte_val c < 128 \<Longrightarrow> utf8_scan (c # bs) = (True, 1)"
  by (simp add: utf8_scan_def safe_get_def utf8_char_width_def)

lemma utf8_valid_ascii_Cons [simp]: "byte_val c < 128 \<Longrightarrow> utf8_valid (c # bs) \<longleftrightarrow> utf8_valid bs"
  by (subst utf8_valid.simps) (simp add: utf8_scan_ascii)

lemma utf8_valid_ascii: "\<forall>c \<in> set s. byte_val c < 128 \<Longrightarrow> utf8_valid s"
  by (induction s) auto

subsection \<open>Concatenation and cuts at an ASCII byte\<close>

lemma utf8_valid_char_append:
  assumes "utf8_scan bs = (True, n)" and "bs \<noteq> []"
  shows "utf8_valid (take n bs @ cs) \<longleftrightarrow> utf8_valid cs"
proof -
  have "n \<le> length bs" using assms by (rule utf8_scan_within)
  moreover have "utf8_scan (take n bs @ cs) = (True, n)" using assms by (rule utf8_scan_take)
  moreover have "0 < n" using utf8_scan_pos [of bs] assms(1) by simp
  ultimately show ?thesis by (subst utf8_valid.simps) (simp add: assms(2))
qed

lemma utf8_valid_append: "utf8_valid a \<Longrightarrow> utf8_valid b \<Longrightarrow> utf8_valid (a @ b)"
proof (induction a rule: utf8_valid.induct)
  case (1 a)
  show ?case
  proof (cases "a = []")
    case False
    obtain n where n: "utf8_scan a = (True, n)"
      using "1.prems"(1) False by (metis utf8_valid.simps prod.collapse)
    with "1.prems"(1) False have "utf8_valid (drop n a)" by (subst (asm) utf8_valid.simps) simp
    with "1.IH" n False "1.prems"(2) have "utf8_valid (drop n a @ b)" by simp
    with utf8_valid_char_append [OF n False, of "drop n a @ b"]
    show ?thesis by (metis append.assoc append_take_drop_id)
  qed (use "1.prems" in simp)
qed

lemma utf8_valid_cut:
  assumes c: "byte_val c < 128"
  shows "utf8_valid (a @ c # b) \<longleftrightarrow> utf8_valid a \<and> utf8_valid b"
proof (induction a rule: utf8_valid.induct)
  case (1 a)
  show ?case
  proof (cases "a = []")
    case True
    then show ?thesis using c by simp
  next
    case False
    have same: "utf8_scan (a @ c # b) = utf8_scan a"
      using False c by (rule utf8_scan_before_ascii)
    show ?thesis
    proof (cases "utf8_scan a")
      case (Pair ok n)
      have "ok \<Longrightarrow> n \<le> length a" using Pair False by (simp add: utf8_scan_within)
      then show ?thesis
        using "1.IH" False Pair same
        by (subst (1 2) utf8_valid.simps) auto
    qed
  qed
qed

lemma from_utf8_lossy_valid: "utf8_valid (from_utf8_lossy bs)"
proof (induction bs rule: from_utf8_lossy.induct)
  case (1 bs)
  show ?case
  proof (cases "bs = []")
    case False
    have "utf8_valid replacement_character"
      by (simp add: replacement_character_def utf8_valid.simps utf8_scan_def safe_get_def
          utf8_char_width_def second3_ok_def is_cont_def)
    moreover have "utf8_valid (take n bs)" if "utf8_scan bs = (True, n)" for n
      using utf8_valid_char_append [OF that False, of "[]"] by simp
    ultimately show ?thesis
      using "1.IH" [OF False] False
      by (subst from_utf8_lossy.simps) (auto simp: prod_eq_iff intro!: utf8_valid_append)
  qed simp
qed

lemma from_utf8_lossy_id: "utf8_valid bs \<Longrightarrow> from_utf8_lossy bs = bs"
proof (induction bs rule: utf8_valid.induct)
  case (1 bs)
  show ?case
  proof (cases "bs = []")
    case False
    then show ?thesis using 1
      by (subst from_utf8_lossy.simps) (subst (asm) utf8_valid.simps, auto)
  qed simp
qed

subsection \<open>The string operations keep validity\<close>

lemma utf8_valid_replicate: "byte_val c < 128 \<Longrightarrow> utf8_valid (s @ replicate n c) \<longleftrightarrow> utf8_valid s"
proof (induction n)
  case (Suc n)
  then have "utf8_valid (s @ replicate (Suc n) c) \<longleftrightarrow> utf8_valid s \<and> utf8_valid (replicate n c)"
    using utf8_valid_cut [of c s "replicate n c"] by simp
  moreover have "utf8_valid (replicate n c)"
    using Suc.prems by (intro utf8_valid_ascii) auto
  ultimately show ?case by simp
qed simp

lemma utf8_valid_trim_end:
  assumes "byte_val c < 128" and "utf8_valid s"
  shows "utf8_valid (trim_end_matches c s)"
  using trim_end_decomp [of s c] assms utf8_valid_replicate by metis

lemma utf8_valid_trim_start:
  "byte_val c < 128 \<Longrightarrow> utf8_valid s \<Longrightarrow> utf8_valid (trim_start_matches c s)"
  unfolding trim_start_matches_def by (induction s) auto

lemma utf8_valid_join:
  "utf8_valid sep \<Longrightarrow> \<forall>w \<in> set ws. utf8_valid w \<Longrightarrow> utf8_valid (join sep ws)"
  by (induction ws rule: induct_list012) (auto intro!: utf8_valid_append)

lemma utf8_valid_split_on:
  "byte_val c < 128 \<Longrightarrow> utf8_valid s \<Longrightarrow> w \<in> set (split_on c s) \<Longrightarrow> utf8_valid w"
proof (induction "split_on c s" arbitrary: s)
  case (Cons v vs)
  show ?case
  proof (cases "vs = []")
    case True
    have "join [c] (split_on c s) = s" by (rule join_split_on)
    with Cons.hyps(2) True have "s = v" by (metis join.simps(2))
    with Cons True show ?thesis by (metis empty_iff list.set(1) set_ConsD)
  next
    case False
    have s: "s = v @ c # join [c] vs"
      using join_split_on [of c s] Cons.hyps(2) False by (metis join_Cons append_Cons append_Nil)
    have "c \<notin> set v" using Cons.hyps(2) split_on_pieces by (metis list.set_intros(1))
    with s Cons.hyps(2) have vs: "vs = split_on c (join [c] vs)"
      by (metis list.inject split_on_append_sep)
    from s Cons.prems(1,2) have "utf8_valid v" and "utf8_valid (join [c] vs)"
      using utf8_valid_cut by metis+
    with Cons vs show ?thesis by (metis set_ConsD)
  qed
qed simp

end
