(* ===== verification/Txt.thy ===== *)
theory Txt
  imports Utf8
begin

text \<open>
  The DNS-SD wire-format helpers of \<open>src/browse.rs\<close>: the splitter of one \<open>key[=value]\<close> TXT
  entry, the parser of a packed, length-prefixed TXT buffer and the trimmer of fully qualified
  names; and the encoder of the \<open>txt_roundtrip\<close> fuzz target. Slices that would panic out of
  range are \<open>None\<close>.
\<close>

subsection \<open>TXT entries\<close>

record TxtRecord =
  txt_key :: bytes
  txt_value :: "bytes option"

definition parse_txt_entry :: "bytes \<Rightarrow> TxtRecord" where
  "parse_txt_entry entry =
     (case position (\<lambda>b. b = CHR ''='') entry of
        Some pos \<Rightarrow>
          \<lparr>txt_key = from_utf8_lossy (take pos entry), txt_value = Some (drop (pos + 1) entry)\<rparr>
      | None \<Rightarrow> \<lparr>txt_key = from_utf8_lossy entry, txt_value = None\<rparr>)"

lemma parse_txt_entry_pair [text_simps]:
  "CHR ''='' \<notin> set k \<Longrightarrow>
   parse_txt_entry (k @ CHR ''='' # v) = \<lparr>txt_key = from_utf8_lossy k, txt_value = Some v\<rparr>"
proof -
  assume "CHR ''='' \<notin> set k"
  then have "position (\<lambda>b. b = CHR ''='') (k @ CHR ''='' # v) = Some (length k)"
    by (intro position_append_hit) auto
  then show ?thesis by (simp add: parse_txt_entry_def)
qed

lemma parse_txt_entry_key_only [text_simps]:
  "CHR ''='' \<notin> set k \<Longrightarrow> parse_txt_entry k = \<lparr>txt_key = from_utf8_lossy k, txt_value = None\<rparr>"
proof -
  assume "CHR ''='' \<notin> set k"
  then have "position (\<lambda>b. b = CHR ''='') k = None" by (auto simp: position_None)
  then show ?thesis by (simp add: parse_txt_entry_def)
qed

lemma txt_entry_cases:
  obtains (pair) k v where "entry = k @ CHR ''='' # v" and "CHR ''='' \<notin> set k"
  | (key_only) "CHR ''='' \<notin> set entry"
  by (meson split_list_first)

lemma parse_txt_entry_key_valid: "utf8_valid (txt_key (parse_txt_entry entry))"
  by (simp add: parse_txt_entry_def from_utf8_lossy_valid split: option.splits)

lemma parse_txt_entry_value_length:
  "txt_value (parse_txt_entry entry) = Some v \<Longrightarrow> length v < length entry"
  by (cases rule: txt_entry_cases [of entry]) (auto simp: text_simps)

text \<open>The entry a responder sends for a record.\<close>

definition unparse_txt_entry :: "TxtRecord \<Rightarrow> bytes" where
  "unparse_txt_entry r =
     (case txt_value r of None \<Rightarrow> txt_key r | Some v \<Rightarrow> txt_key r @ CHR ''='' # v)"

lemma parse_unparse_txt_entry:
  "CHR ''='' \<notin> set (txt_key r) \<Longrightarrow> utf8_valid (txt_key r) \<Longrightarrow>
   parse_txt_entry (unparse_txt_entry r) = r"
  by (cases r) (auto simp: unparse_txt_entry_def text_simps from_utf8_lossy_id split: option.splits)

subsection \<open>TXT buffers\<close>

text \<open>
  The loop of \<open>parse_txt_buffer\<close> with its index \<open>i\<close> and its accumulator. \<open>None\<close> is a panic of
  \<open>buf[i]\<close> or of \<open>&buf[i..i + len]\<close>.
\<close>

function parse_txt_loop :: "bytes \<Rightarrow> usize \<Rightarrow> TxtRecord list \<Rightarrow> TxtRecord list option" where
  "parse_txt_loop buf i records =
     (if i < length buf then
        (case index_at buf i of
           None \<Rightarrow> None
         | Some b \<Rightarrow>
             (if i + 1 + byte_val b > length buf then Some records
              else if byte_val b > 0 then
                (case slice buf (i + 1) (i + 1 + byte_val b) of
                   None \<Rightarrow> None
                 | Some entry \<Rightarrow>
                     parse_txt_loop buf (i + 1 + byte_val b) (records @ [parse_txt_entry entry]))
              else parse_txt_loop buf (i + 1 + byte_val b) records))
      else Some records)"
  by pat_completeness auto
termination
  by (relation "measure (\<lambda>(buf, i, records). length buf - i)") auto

declare parse_txt_loop.simps [simp del]

definition parse_txt_buffer :: "bytes \<Rightarrow> TxtRecord list option" where
  "parse_txt_buffer buf = parse_txt_loop buf 0 []"

text \<open>
  The reference: the entries framed by a buffer, by recursion on what is left of it. A prefix
  that claims more bytes than are left ends the buffer.
\<close>

function framed_entries :: "bytes \<Rightarrow> bytes list" where
  "framed_entries [] = []"
| "framed_entries (b # bs) =
     (if byte_val b \<le> length bs
      then take (byte_val b) bs # framed_entries (drop (byte_val b) bs) else [])"
  by pat_completeness auto
termination
  by (relation "measure length") auto

declare framed_entries.simps(2) [simp del]

lemma parse_txt_loop_spec:
  "parse_txt_loop buf i records =
   Some (records @ map parse_txt_entry (filter (\<lambda>e. e \<noteq> []) (framed_entries (drop i buf))))"
proof (induction buf i records rule: parse_txt_loop.induct)
  case (1 buf i records)
  show ?case
  proof (cases "i < length buf")
    case False
    then show ?thesis by (subst parse_txt_loop.simps) simp
  next
    case True
    let ?n = "byte_val (buf ! i)"
    have d: "drop i buf = buf ! i # drop (Suc i) buf" using True by (simp add: Cons_nth_drop_Suc)
    show ?thesis
    proof (cases "length buf < i + 1 + ?n")
      case over: True
      then show ?thesis using True
        by (subst parse_txt_loop.simps) (auto simp: d framed_entries.simps)
    next
      case False
      have f: "framed_entries (drop i buf) =
          take ?n (drop (Suc i) buf) # framed_entries (drop (i + 1 + ?n) buf)"
        using False True by (simp add: d framed_entries.simps add.commute)
      have e: "take ?n (drop (Suc i) buf) = [] \<longleftrightarrow> ?n = 0" using False True by auto
      show ?thesis
        using "1.IH" [of "buf ! i"] True False
        by (subst parse_txt_loop.simps) (auto simp: f e)
    qed
  qed
qed

lemma parse_txt_buffer_spec:
  "parse_txt_buffer buf =
   Some (map parse_txt_entry (filter (\<lambda>e. e \<noteq> []) (framed_entries buf)))"
  by (simp add: parse_txt_buffer_def parse_txt_loop_spec)

lemma parse_txt_buffer_keys:
  "parse_txt_buffer buf = Some rs \<Longrightarrow> r \<in> set rs \<Longrightarrow> utf8_valid (txt_key r)"
  by (auto simp: parse_txt_buffer_spec parse_txt_entry_key_valid)

lemma framed_entries_length: "e \<in> set (framed_entries buf) \<Longrightarrow> length e \<le> 255"
proof (induction buf rule: framed_entries.induct)
  case (2 b bs)
  moreover have "byte_val b \<le> 255" using byte_val_less [of b] by linarith
  ultimately show ?case by (auto simp: framed_entries.simps split: if_splits)
qed simp

lemma framed_entries_count:
  "2 * length (filter (\<lambda>e. e \<noteq> []) (framed_entries buf)) \<le> length buf"
proof (induction buf rule: framed_entries.induct)
  case (2 b bs)
  then show ?case by (cases "byte_val b") (auto simp: framed_entries.simps)
qed simp

subsection \<open>The encoder of the round-trip fuzz target\<close>

text \<open>
  \<open>entry.len() as u8\<close> truncates to a byte, as \<^const>\<open>char_of\<close> does; the target cuts each entry
  to 255 bytes first.
\<close>

definition cut_entry :: "bytes \<Rightarrow> bytes" where
  "cut_entry entry = take (min (length entry) 255) entry"

definition roundtrip_buffer :: "bytes list \<Rightarrow> bytes" where
  "roundtrip_buffer entries =
     fold (\<lambda>entry buf. buf @ [char_of (length (cut_entry entry))] @ cut_entry entry) entries []"

definition roundtrip_expected :: "bytes list \<Rightarrow> TxtRecord list" where
  "roundtrip_expected entries =
     fold (\<lambda>entry expected.
       if cut_entry entry \<noteq> [] then expected @ [parse_txt_entry (cut_entry entry)] else expected)
     entries []"

lemma length_cut_entry: "length (cut_entry e) < 256"
  by (simp add: cut_entry_def)

lemma roundtrip_buffer_concat:
  "roundtrip_buffer entries =
   concat (map (\<lambda>e. char_of (length (cut_entry e)) # cut_entry e) entries)"
proof -
  have "fold (\<lambda>entry buf. buf @ [char_of (length (cut_entry entry))] @ cut_entry entry) es b =
      b @ concat (map (\<lambda>e. char_of (length (cut_entry e)) # cut_entry e) es)" for es and b :: bytes
    by (induction es arbitrary: b) auto
  then show ?thesis by (simp add: roundtrip_buffer_def)
qed

lemma roundtrip_expected_filter:
  "roundtrip_expected entries =
   map parse_txt_entry (filter (\<lambda>e. e \<noteq> []) (map cut_entry entries))"
proof -
  have "fold (\<lambda>entry expected. if cut_entry entry \<noteq> []
        then expected @ [parse_txt_entry (cut_entry entry)] else expected) es xs =
      xs @ map parse_txt_entry (filter (\<lambda>e. e \<noteq> []) (map cut_entry es))" for es xs
    by (induction es arbitrary: xs) auto
  then show ?thesis by (simp add: roundtrip_expected_def)
qed

lemma framed_entries_concat:
  "framed_entries (concat (map (\<lambda>e. char_of (length (cut_entry e)) # cut_entry e) entries)) =
   map cut_entry entries"
proof (induction entries)
  case (Cons e es)
  have "length (cut_entry e) mod 256 = length (cut_entry e)" using length_cut_entry by simp
  with Cons show ?case by (simp add: framed_entries.simps)
qed simp

lemma parse_roundtrip_buffer:
  "parse_txt_buffer (roundtrip_buffer entries) = Some (roundtrip_expected entries)"
  by (simp add: parse_txt_buffer_spec roundtrip_buffer_concat roundtrip_expected_filter
      framed_entries_concat)

lemma parse_unparse_records:
  assumes "\<forall>r \<in> set rs. CHR ''='' \<notin> set (txt_key r) \<and> utf8_valid (txt_key r)"
    and "\<forall>r \<in> set rs. unparse_txt_entry r \<noteq> [] \<and> length (unparse_txt_entry r) \<le> 255"
  shows "parse_txt_buffer (roundtrip_buffer (map unparse_txt_entry rs)) = Some rs"
proof -
  have "map cut_entry (map unparse_txt_entry rs) = map unparse_txt_entry rs"
    using assms(2) by (auto simp: cut_entry_def min_def)
  then show ?thesis
    using assms unfolding parse_roundtrip_buffer roundtrip_expected_filter
    by (induction rs) (auto simp: parse_unparse_txt_entry)
qed

lemma parse_txt_buffer_bounds:
  assumes "parse_txt_buffer buf = Some rs"
  shows "length rs \<le> length buf div 2 \<and> (\<forall>r \<in> set rs. utf8_valid (txt_key r) \<and>
      (case txt_value r of None \<Rightarrow> True | Some v \<Rightarrow> length v \<le> 254))"
proof (intro conjI ballI)
  have rs: "rs = map parse_txt_entry (filter (\<lambda>e. e \<noteq> []) (framed_entries buf))"
    using assms by (simp add: parse_txt_buffer_spec)
  then show "length rs \<le> length buf div 2" using framed_entries_count [of buf] by simp
  fix r assume r: "r \<in> set rs"
  with assms show "utf8_valid (txt_key r)" by (rule parse_txt_buffer_keys)
  obtain e where "e \<in> set (framed_entries buf)" and "r = parse_txt_entry e" using r rs by auto
  then show "case txt_value r of None \<Rightarrow> True | Some v \<Rightarrow> length v \<le> 254"
    using framed_entries_length [of e buf] parse_txt_entry_value_length [of e]
    by (fastforce split: option.splits)
qed

subsection \<open>Trailing dots\<close>

definition trim_dot :: "bytes \<Rightarrow> bytes" where
  "trim_dot s = trim_end_matches (CHR ''.'') s"

lemma trim_dot_valid: "utf8_valid s \<Longrightarrow> utf8_valid (trim_dot s)"
  by (simp add: trim_dot_def utf8_valid_trim_end)

lemma trim_dot_snoc [text_simps]: "trim_dot (s @ ''.'') = trim_dot s"
  by (simp add: trim_dot_def)

lemma trim_dot_id [text_simps]: "s = [] \<or> last s \<noteq> CHR ''.'' \<Longrightarrow> trim_dot s = s"
  by (auto simp: trim_dot_def trim_end_id)

lemma trim_dot_char: "trim_dot s = t \<longleftrightarrow> (\<exists>n. s = t @ replicate n (CHR ''.'')) \<and> \<not> ends_with t (CHR ''.'')"
proof
  assume t: "trim_dot s = t"
  then show "(\<exists>n. s = t @ replicate n (CHR ''.'')) \<and> \<not> ends_with t (CHR ''.'')"
    using trim_end_decomp [of s "CHR ''.''"] trim_end_ends_with [of "CHR ''.''" s]
    unfolding trim_dot_def by simp
next
  assume "(\<exists>n. s = t @ replicate n (CHR ''.'')) \<and> \<not> ends_with t (CHR ''.'')"
  then obtain n where "s = t @ replicate n (CHR ''.'')" and "t = [] \<or> last t \<noteq> CHR ''.''"
    by auto
  then show "trim_dot s = t"
    by (simp only: trim_dot_def trim_end_append_replicate) (rule trim_end_id)
qed

lemma trim_dot_facts:
  "\<not> ends_with (trim_dot s) CHR ''.'' \<and> (\<exists>n. s = trim_dot s @ replicate n CHR ''.'') \<and>
   trim_dot (trim_dot s) = trim_dot s \<and> utf8_valid (trim_dot s) = utf8_valid s"
proof -
  obtain n where n: "s = trim_dot s @ replicate n CHR ''.''" and e: "\<not> ends_with (trim_dot s) CHR ''.''"
    using trim_dot_char [of s "trim_dot s"] by blast
  have "utf8_valid s \<longleftrightarrow> utf8_valid (trim_dot s)"
    by (subst n) (simp add: utf8_valid_replicate)
  moreover have "trim_dot (trim_dot s) = trim_dot s"
    using e by (intro trim_dot_id) auto
  ultimately show ?thesis using n e by blast
qed

subsection \<open>Properties\<close>

text \<open>
  C2: \<open>parse_txt_buffer\<close> never panics and decodes exactly the non-empty entries the buffer frames,
  in order, each as the single-entry parser does; it stops at a truncated entry.
\<close>

theorem txt_buffer_decodes:
  "parse_txt_buffer buf =
   Some (map parse_txt_entry (filter (\<lambda>e. e \<noteq> []) (framed_entries buf)))"
  by (rule parse_txt_buffer_spec)

text \<open>
  The round trip the fuzz target \<open>txt_roundtrip\<close> asserts holds for every list of entries: what
  the target encodes is decoded to what it expects.
\<close>

theorem txt_roundtrip: "parse_txt_buffer (roundtrip_buffer entries) = Some (roundtrip_expected entries)"
  by (rule parse_roundtrip_buffer)

text \<open>
  C20: Records survive the wire: a list of records whose keys are UTF-8 without an equals sign, each
  of 1 to 255 bytes when written as \<open>key[=value]\<close>, is read back unchanged from the buffer that
  carries them, binary values included.
\<close>

theorem txt_records_survive:
  assumes "\<forall>r \<in> set rs. CHR ''='' \<notin> set (txt_key r) \<and> utf8_valid (txt_key r)"
    and "\<forall>r \<in> set rs. unparse_txt_entry r \<noteq> [] \<and> length (unparse_txt_entry r) \<le> 255"
  shows "parse_txt_buffer (roundtrip_buffer (map unparse_txt_entry rs)) = Some rs"
  using assms by (rule parse_unparse_records)

theorem txt_records_survive_witness:
  "parse_txt_buffer (roundtrip_buffer (map unparse_txt_entry
     [\<lparr>txt_key = ''path'', txt_value = Some [CHR 0x00, CHR 0xFF, CHR ''='']\<rparr>,
      \<lparr>txt_key = ''flag'', txt_value = None\<rparr>])) =
   Some [\<lparr>txt_key = ''path'', txt_value = Some [CHR 0x00, CHR 0xFF, CHR ''='']\<rparr>,
      \<lparr>txt_key = ''flag'', txt_value = None\<rparr>]"
  by (rule txt_records_survive) (simp_all add: unparse_txt_entry_def)

text \<open>
  The framing limits the fuzz target \<open>parse_txt_buffer\<close> asserts: each record takes at least two
  bytes of the buffer and no value is longer than 254 bytes; and every key is valid UTF-8.
\<close>

theorem txt_buffer_limits:
  assumes "parse_txt_buffer buf = Some rs"
  shows "length rs \<le> length buf div 2 \<and>
    (\<forall>r \<in> set rs. utf8_valid (txt_key r) \<and>
      (case txt_value r of None \<Rightarrow> True | Some v \<Rightarrow> length v \<le> 254))"
  using parse_txt_buffer_bounds [OF assms] by blast

theorem txt_buffer_limits_witness:
  "length [\<lparr>txt_key = ''a'', txt_value = Some ''1''\<rparr>] \<le> length [CHR 0x03, CHR ''a'', CHR ''='', CHR ''1''] div 2"
  by (rule txt_buffer_limits [THEN conjunct1])
     (simp add: parse_txt_buffer_spec framed_entries.simps parse_txt_entry_def from_utf8_lossy_id)

text \<open>
  \<open>parse_txt_entry\<close> splits at the first equals sign only and leaves the bytes of the value alone;
  an entry without one is key-only, never an empty value.
\<close>

theorem txt_entry_splits_once:
  "if CHR ''='' \<in> set entry
   then \<exists>k v. entry = k @ CHR ''='' # v \<and> CHR ''='' \<notin> set k \<and>
     parse_txt_entry entry = \<lparr>txt_key = from_utf8_lossy k, txt_value = Some v\<rparr>
   else parse_txt_entry entry = \<lparr>txt_key = from_utf8_lossy entry, txt_value = None\<rparr>"
  by (cases rule: txt_entry_cases [of entry]) (auto simp: text_simps)

text \<open>
  \<open>trim_dot\<close> removes exactly the trailing dots: its result ends in none, is the input less a run
  of dots, is a fixed point, and is valid UTF-8 exactly when the input is.
\<close>

theorem trim_dot_exact:
  "\<not> ends_with (trim_dot s) CHR ''.'' \<and> (\<exists>n. s = trim_dot s @ replicate n CHR ''.'') \<and>
   trim_dot (trim_dot s) = trim_dot s \<and> utf8_valid (trim_dot s) = utf8_valid s"
  by (rule trim_dot_facts)

end
