(* ===== verification/Fuzz_Targets.thy ===== *)
theory Fuzz_Targets
  imports Txt
begin

text \<open>
  The fuzz targets under \<open>fuzz/fuzz_targets\<close>, each as the predicate that its assertions hold for
  one input, over the wrappers \<open>src/lib.rs\<close> exports to them.
\<close>

definition fuzzing_parse_txt_entry :: "bytes \<Rightarrow> TxtRecord" where
  "fuzzing_parse_txt_entry entry = parse_txt_entry entry"

definition fuzzing_parse_txt_buffer :: "bytes \<Rightarrow> TxtRecord list option" where
  "fuzzing_parse_txt_buffer buf = parse_txt_buffer buf"

definition fuzzing_trim_dot :: "bytes \<Rightarrow> bytes" where
  "fuzzing_trim_dot s = trim_dot s"

text \<open>A panic of the parser (\<open>None\<close>) fails the target like an assertion does.\<close>

definition fuzz_parse_txt_buffer :: "bytes \<Rightarrow> bool" where
  "fuzz_parse_txt_buffer data \<longleftrightarrow>
     (case fuzzing_parse_txt_buffer data of
        None \<Rightarrow> False
      | Some records \<Rightarrow>
          length records \<le> length data div 2 \<and>
          list_all (\<lambda>record. case txt_value record of Some value \<Rightarrow> length value \<le> 254 | None \<Rightarrow> True)
            records)"

definition fuzz_parse_txt_entry :: "bytes \<Rightarrow> bool" where
  "fuzz_parse_txt_entry data \<longleftrightarrow>
     (let record = fuzzing_parse_txt_entry data
      in case position (\<lambda>b. b = CHR ''='') data of
           Some pos \<Rightarrow>
             txt_key record = from_utf8_lossy (take pos data) \<and>
             txt_value record = Some (drop (pos + 1) data)
         | None \<Rightarrow> txt_key record = from_utf8_lossy data \<and> txt_value record = None)"

definition fuzz_trim_dot :: "bytes \<Rightarrow> bool" where
  "fuzz_trim_dot name \<longleftrightarrow>
     (let trimmed = fuzzing_trim_dot name
      in \<not> ends_with trimmed (CHR ''.'') \<and> prefix trimmed name \<and>
         list_all (\<lambda>b. b = CHR ''.'') (drop (length trimmed) name) \<and>
         fuzzing_trim_dot trimmed = trimmed)"

definition fuzz_txt_roundtrip :: "bytes list \<Rightarrow> bool" where
  "fuzz_txt_roundtrip entries \<longleftrightarrow>
     fuzzing_parse_txt_buffer (roundtrip_buffer entries) = Some (roundtrip_expected entries)"

lemma fuzz_buffer_ok: "fuzz_parse_txt_buffer data"
proof -
  obtain rs where rs: "parse_txt_buffer data = Some rs" by (simp add: parse_txt_buffer_spec)
  from parse_txt_buffer_bounds [OF this] show ?thesis
    by (auto simp: fuzz_parse_txt_buffer_def fuzzing_parse_txt_buffer_def rs list_all_iff
        split: option.splits)
qed

lemma fuzz_entry_ok: "fuzz_parse_txt_entry data"
  by (simp add: fuzz_parse_txt_entry_def fuzzing_parse_txt_entry_def parse_txt_entry_def Let_def
      split: option.split)

lemma fuzz_trim_ok: "fuzz_trim_dot name"
proof -
  obtain n where n: "name = trim_dot name @ replicate n (CHR ''.'')" using trim_dot_facts by blast
  then have "prefix (trim_dot name) name" by (metis prefixI)
  moreover have "drop (length (trim_dot name)) name = replicate n (CHR ''.'')"
    by (subst (2) n) simp
  ultimately show ?thesis
    using trim_dot_facts [of name]
    by (simp add: fuzz_trim_dot_def fuzzing_trim_dot_def Let_def list_all_iff)
qed

lemma fuzz_roundtrip_ok: "fuzz_txt_roundtrip entries"
  by (simp add: fuzz_txt_roundtrip_def fuzzing_parse_txt_buffer_def parse_roundtrip_buffer)

text \<open>
  C37: No fuzz target can ever fail: for every input, of any length, no parser panics and every
  assertion of the four targets holds.
\<close>

theorem fuzz_targets_never_fail:
  "fuzz_parse_txt_buffer data \<and> fuzz_parse_txt_entry data \<and> fuzz_trim_dot name \<and>
   fuzz_txt_roundtrip entries"
  by (intro conjI fuzz_buffer_ok fuzz_entry_ok fuzz_trim_ok fuzz_roundtrip_ok)

end
