(* ===== verification/Rust_Num.thy ===== *)
theory Rust_Num
  imports Prelude
begin

text \<open>
  Numbers of Rust's standard library: byte order, decimal formatting of integers and the
  \<open>Debug\<close> form of a \<open>Duration\<close>.
\<close>

subsection \<open>Byte order\<close>

text \<open>
  \<open>to_be_bytes\<close> and \<open>from_le_bytes\<close> of \<open>u16\<close> and \<open>u32\<close>. The supported targets of the macOS and
  Windows back-ends are little-endian, so a native load of bytes is \<open>from_le_bytes\<close> and
  \<open>from_be\<close> swaps the bytes of its argument.
\<close>

definition u16_from_le_bytes :: "byte \<Rightarrow> byte \<Rightarrow> u16" where
  "u16_from_le_bytes a b = word_of_nat (byte_val a + 256 * byte_val b)"

definition u32_from_le_bytes :: "byte \<Rightarrow> byte \<Rightarrow> byte \<Rightarrow> byte \<Rightarrow> u32" where
  "u32_from_le_bytes a b c d =
     word_of_nat (byte_val a + 256 * byte_val b + 65536 * byte_val c + 16777216 * byte_val d)"

definition u16_from_be :: "u16 \<Rightarrow> u16" where
  "u16_from_be w = word_of_nat (unat w div 256 + 256 * (unat w mod 256))"

definition u32_from_be :: "u32 \<Rightarrow> u32" where
  "u32_from_be w =
     word_of_nat (unat w div 16777216 + 256 * (unat w div 65536 mod 256)
       + 65536 * (unat w div 256 mod 256) + 16777216 * (unat w mod 256))"

definition u32_to_be_bytes :: "u32 \<Rightarrow> bytes" where
  "u32_to_be_bytes w =
     map char_of [unat w div 16777216, unat w div 65536, unat w div 256, unat w]"

lemma char_of_mod: "char_of (n mod 256) = (char_of n :: char)"
  by (metis char_of_mod_256)

lemma low_byte: "a < 256 \<Longrightarrow> (a + 256 * m) mod 256 = a" "a < 256 \<Longrightarrow> (a + 256 * m) div 256 = m"
  for a m :: nat
  by simp_all

lemma base256:
  fixes a b c d n :: nat
  assumes "a < 256" and "b < 256" and "c < 256" and n: "n = a + 256 * (b + 256 * (c + 256 * d))"
  shows "n mod 256 = a" and "n div 256 mod 256 = b" and "n div 65536 mod 256 = c"
    and "n div 16777216 = d"
proof -
  have "n div 65536 = n div 256 div 256" and "n div 16777216 = n div 256 div 256 div 256"
    by (simp_all flip: div_mult2_eq)
  then show "n mod 256 = a" "n div 256 mod 256 = b" "n div 65536 mod 256 = c"
      "n div 16777216 = d"
    by (simp_all only: n low_byte assms(1-3))
qed

lemma unat_le16: "unat (u16_from_le_bytes a b) = byte_val a + 256 * byte_val b"
proof -
  have "byte_val a + 256 * byte_val b < 65536"
    using byte_val_less [of a] byte_val_less [of b] by linarith
  then show ?thesis unfolding u16_from_le_bytes_def unat_of_nat by simp
qed

lemma unat_le32:
  "unat (u32_from_le_bytes a b c d) =
   byte_val a + 256 * (byte_val b + 256 * (byte_val c + 256 * byte_val d))"
proof -
  have "byte_val a + 256 * byte_val b + 65536 * byte_val c + 16777216 * byte_val d < 4294967296"
    using byte_val_less [of a] byte_val_less [of b] byte_val_less [of c] byte_val_less [of d]
    by linarith
  then show ?thesis unfolding u32_from_le_bytes_def unat_of_nat by simp
qed

text \<open>A big-endian field read natively and converted has the value its bytes spell.\<close>

lemma u16_from_be_bytes:
  "unat (u16_from_be (u16_from_le_bytes hi lo)) = 256 * byte_val hi + byte_val lo"
proof -
  have "256 * byte_val hi + byte_val lo < 65536"
    using byte_val_less [of hi] byte_val_less [of lo] by linarith
  then show ?thesis
    unfolding u16_from_be_def unat_le16 unat_of_nat low_byte [OF byte_val_less] by simp
qed

lemmas le32_bytes = base256 [OF byte_val_less byte_val_less byte_val_less unat_le32]

lemma u32_from_be_swaps: "u32_from_be (u32_from_le_bytes a b c d) = u32_from_le_bytes d c b a"
  by (simp only: u32_from_be_def le32_bytes) (simp add: u32_from_le_bytes_def add_ac)

lemma u32_be_bytes_of_le: "u32_to_be_bytes (u32_from_le_bytes d c b a) = [a, b, c, d]"
proof -
  have "u32_to_be_bytes w = map char_of [unat w div 16777216 mod 256, unat w div 65536 mod 256,
      unat w div 256 mod 256, unat w mod 256]" for w
    by (simp add: u32_to_be_bytes_def char_of_mod)
  from this [of "u32_from_le_bytes d c b a"] show ?thesis
    by (simp only: le32_bytes) simp
qed

lemma u32_network_bytes: "u32_to_be_bytes (u32_from_be (u32_from_le_bytes a b c d)) = [a, b, c, d]"
  by (simp add: u32_from_be_swaps u32_be_bytes_of_le)

lemma length_u32_to_be_bytes [simp]: "length (u32_to_be_bytes w) = 4"
  by (simp add: u32_to_be_bytes_def)

text \<open>A number from the bytes of its big-endian form, and those bytes.\<close>

definition be_nat :: "bytes \<Rightarrow> nat" where
  "be_nat bs = foldl (\<lambda>n b. 256 * n + byte_val b) 0 bs"

fun be_bytes :: "nat \<Rightarrow> nat \<Rightarrow> bytes" where
  "be_bytes 0 n = []"
| "be_bytes (Suc k) n = be_bytes k (n div 256) @ [char_of n]"

lemma be_nat_snoc [simp]: "be_nat (bs @ [b]) = 256 * be_nat bs + byte_val b"
  by (simp add: be_nat_def)

lemma be_nat_less: "be_nat bs < 256 ^ length bs"
proof (induction bs rule: rev_induct)
  case (snoc b bs)
  have step: "n < k \<Longrightarrow> c < 256 \<Longrightarrow> 256 * n + c < 256 * k" for n k c :: nat by linarith
  show ?case using step [OF snoc.IH byte_val_less [of b]] by simp
qed (simp add: be_nat_def)

lemma be_bytes_be_nat: "be_bytes (length bs) (be_nat bs) = bs"
proof (induction bs rule: rev_induct)
  case (snoc b bs)
  have "(256 * be_nat bs + byte_val b) div 256 = be_nat bs"
    using byte_val_less [of b] by simp
  moreover have "char_of (256 * be_nat bs + byte_val b) = b"
    using char_of_mod [of "256 * be_nat bs + byte_val b"] by simp
  ultimately show ?case using snoc.IH by simp
qed simp

lemma foldl_be_word:
  "foldl (\<lambda>w b. 256 * w + word_of_nat (byte_val b)) 0 bs = (word_of_nat (be_nat bs) :: 'w::len word)"
  by (induction bs rule: rev_induct) (simp_all add: be_nat_def)

subsection \<open>Decimal formatting\<close>

definition digit :: "nat \<Rightarrow> byte" where
  "digit n = char_of (48 + n)"

fun show_nat :: "nat \<Rightarrow> bytes" where
  "show_nat n = (if n < 10 then [digit n] else show_nat (n div 10) @ [digit (n mod 10)])"

declare show_nat.simps [simp del]

definition show_u32 :: "u32 \<Rightarrow> bytes" where
  "show_u32 w = show_nat (unat w)"

definition show_i32 :: "i32 \<Rightarrow> bytes" where
  "show_i32 w =
     (if sint w < 0 then CHR ''-'' # show_nat (nat (- sint w)) else show_nat (nat (sint w)))"

text \<open>Reading a decimal back, to state that the formatting loses nothing.\<close>

definition read_nat :: "bytes \<Rightarrow> nat" where
  "read_nat ds = foldl (\<lambda>n d. 10 * n + (byte_val d - 48)) 0 ds"

lemma byte_val_digit: "n < 10 \<Longrightarrow> byte_val (digit n) = 48 + n"
  by (simp add: digit_def)

lemma show_nat_digits: "d \<in> set (show_nat n) \<Longrightarrow> 48 \<le> byte_val d \<and> byte_val d < 58"
proof (induction n arbitrary: d rule: show_nat.induct)
  case (1 n)
  then show ?case
    by (subst (asm) show_nat.simps) (auto simp: byte_val_digit split: if_splits)
qed

lemma read_show_nat: "read_nat (show_nat n) = n"
proof (induction n rule: show_nat.induct)
  case (1 n)
  then show ?case
    by (subst show_nat.simps) (simp add: read_nat_def byte_val_digit)
qed

lemma show_nat_inject: "show_nat m = show_nat n \<longleftrightarrow> m = n"
  by (metis read_show_nat)

lemma show_nat_not_Nil [simp]: "show_nat n \<noteq> []"
  by (subst show_nat.simps) simp

subsection \<open>The Debug form of a Duration\<close>

text \<open>
  \<open>{timeout:?}\<close>: the integral part in the largest unit that makes it non-zero, then the
  fraction with its trailing zeros dropped. \<open>secs\<close> is a \<open>u64\<close> and \<open>nanos\<close> is below one second.
\<close>

record duration =
  secs :: nat
  nanos :: nat

fun frac_digits :: "nat \<Rightarrow> nat \<Rightarrow> bytes" where
  "frac_digits 0 frac = []"
| "frac_digits (Suc k) frac =
     (if frac = 0 then [] else digit (frac div 10 ^ k) # frac_digits k (frac mod 10 ^ k))"

definition fmt_decimal :: "nat \<Rightarrow> nat \<Rightarrow> nat \<Rightarrow> bytes" where
  "fmt_decimal whole frac k =
     show_nat whole @ (if frac = 0 then [] else CHR ''.'' # frac_digits k frac)"

definition duration_debug :: "duration \<Rightarrow> bytes" where
  "duration_debug d =
     (if secs d > 0 then fmt_decimal (secs d) (nanos d) 9 @ ''s''
      else if nanos d \<ge> 1000000 then fmt_decimal (nanos d div 1000000) (nanos d mod 1000000) 6 @ ''ms''
      else if nanos d \<ge> 1000 then
        fmt_decimal (nanos d div 1000) (nanos d mod 1000) 3 @ [CHR 0xC2, CHR 0xB5] @ ''s''
      else fmt_decimal (nanos d) 0 0 @ ''ns'')"

text \<open>The equations that evaluate a formatted number.\<close>

lemmas number_eval = show_nat.simps digit_def char_of_def bit_0 fmt_decimal_def duration_debug_def
  show_u32_def show_i32_def

end
