(* ===== verification/Contracts.thy ===== *)
theory Contracts
  imports Prelude
begin

text \<open>
  The contracts that several components of the crate share, as locales. Each back-end
  interprets them on its own operations.
\<close>

subsection \<open>Reporting each key once\<close>

text \<open>
  All three back-ends keep a \<open>HashSet\<close> named \<open>seen\<close> and act on a key only when
  \<open>seen.insert\<close> answers \<open>true\<close>. \<open>offer\<close> is the code that receives one key, \<open>seen_of\<close> reads the
  set and \<open>acted\<close> the keys acted on so far, in order.
\<close>

locale dedup =
  fixes offer :: "'k \<Rightarrow> 's \<Rightarrow> 's"
    and seen_of :: "'s \<Rightarrow> 'k set"
    and acted :: "'s \<Rightarrow> 'k list"
  assumes seen_offer: "seen_of (offer k s) = insert k (seen_of s)"
    and acted_offer: "acted (offer k s) = acted s @ fresh (seen_of s) [k]"
begin

lemma seen_run: "seen_of (fold offer ks s) = seen_of s \<union> set ks"
  by (induction ks arbitrary: s) (auto simp: seen_offer)

lemma acted_run: "acted (fold offer ks s) = acted s @ fresh (seen_of s) ks"
  by (induction ks arbitrary: s) (auto simp: acted_offer seen_offer insert_absorb)

lemma acted_run_distinct:
  assumes "distinct (acted s)" and "set (acted s) \<subseteq> seen_of s"
  shows "distinct (acted (fold offer ks s))"
  using assms by (auto simp: acted_run distinct_fresh set_fresh)

lemma acted_run_complete:
  "k \<in> set ks \<Longrightarrow> k \<in> set (acted (fold offer ks s)) \<union> seen_of s"
  by (auto simp: acted_run set_fresh)

end

subsection \<open>Event loops\<close>

text \<open>
  An event loop: each input either continues with a new state or breaks. The contract is an
  invariant the handler keeps on both outcomes, and an output log it only appends to.
\<close>

datatype control = Continue | Break

fun loop :: "('i \<Rightarrow> 's \<Rightarrow> control \<times> 's) \<Rightarrow> 'i list \<Rightarrow> 's \<Rightarrow> 's" where
  "loop step [] s = s"
| "loop step (i # is) s =
     (case step i s of (Continue, s') \<Rightarrow> loop step is s' | (Break, s') \<Rightarrow> s')"

locale event_loop =
  fixes step :: "'i \<Rightarrow> 's \<Rightarrow> control \<times> 's"
    and invar :: "'s \<Rightarrow> bool"
    and log_of :: "'s \<Rightarrow> 'o list"
  assumes step_invar: "invar s \<Longrightarrow> invar (snd (step i s))"
    and step_log: "prefix (log_of s) (log_of (snd (step i s)))"
begin

lemma loop_invar: "invar s \<Longrightarrow> invar (loop step is s)"
proof (induction "is" arbitrary: s)
  case (Cons i "is")
  have "invar (snd (step i s))" using Cons.prems by (rule step_invar)
  with Cons.IH show ?case by (auto split: prod.splits control.splits)
qed simp

lemma loop_log: "prefix (log_of s) (log_of (loop step is s))"
proof (induction "is" arbitrary: s)
  case (Cons i "is")
  have "prefix (log_of s) (log_of (snd (step i s)))" by (rule step_log)
  with Cons.IH show ?case
    by (auto split: prod.splits control.splits intro: prefix_order.trans)
qed simp

end

subsection \<open>Loops that stop by themselves\<close>

text \<open>
  A loop whose body either leaves with a result or goes round again with a new state, run with
  fuel: \<open>None\<close> means the fuel was too little. The contract is the one of an event loop.
\<close>

fun run_until :: "nat \<Rightarrow> ('s \<Rightarrow> 'r option \<times> 's) \<Rightarrow> 's \<Rightarrow> ('r \<times> 's) option" where
  "run_until 0 body s = None"
| "run_until (Suc n) body s =
     (case body s of (Some r, s') \<Rightarrow> Some (r, s') | (None, s') \<Rightarrow> run_until n body s')"

lemma run_until_numeral [simp]:
  "run_until (numeral k) body s =
     (case body s of (Some r, s') \<Rightarrow> Some (r, s') | (None, s') \<Rightarrow> run_until (pred_numeral k) body s')"
  by (simp add: numeral_eq_Suc)

lemma run_until_more_fuel:
  "run_until n body s = Some x \<Longrightarrow> n \<le> m \<Longrightarrow> run_until m body s = Some x"
proof (induction n arbitrary: s m)
  case (Suc n)
  then obtain m' where "m = Suc m'" and "n \<le> m'" by (cases m) auto
  with Suc show ?case by (auto split: prod.splits option.splits)
qed simp

text \<open>Fuel for as many rounds as it takes to reach a state where the body leaves is enough.\<close>

lemma run_until_enough:
  "fst (body (((\<lambda>s. snd (body s)) ^^ k) s)) \<noteq> None \<Longrightarrow> \<exists>x. run_until (Suc k) body s = Some x"
proof (induction k arbitrary: s)
  case 0
  then show ?case by (auto split: prod.splits)
next
  case (Suc k)
  show ?case
  proof (cases "fst (body s)")
    case None
    have "\<exists>x. run_until (Suc k) body (snd (body s)) = Some x"
      using Suc.prems unfolding funpow_Suc_right o_apply by (rule Suc.IH)
    with None show ?thesis
      by (subst run_until.simps) (auto simp del: run_until.simps split: prod.splits option.splits)
  next
    case (Some r)
    then show ?thesis by (auto split: prod.splits option.splits)
  qed
qed

locale until_loop =
  fixes body :: "'s \<Rightarrow> 'r option \<times> 's"
    and invar :: "'s \<Rightarrow> bool"
    and post :: "'r \<Rightarrow> 's \<Rightarrow> bool"
  assumes body_round: "invar s \<Longrightarrow> body s = (None, s') \<Longrightarrow> invar s'"
    and body_leave: "invar s \<Longrightarrow> body s = (Some r, s') \<Longrightarrow> post r s'"
begin

lemma run_post: "run_until n body s = Some (r, s') \<Longrightarrow> invar s \<Longrightarrow> post r s'"
proof (induction n arbitrary: s)
  case (Suc n)
  then show ?case
    by (auto split: prod.splits option.splits dest: body_round body_leave)
qed simp

end

subsection \<open>Interleavings\<close>

text \<open>
  Threads and tasks that interleave: a relation on states labelled with what happened. \<open>allowed\<close>
  restricts the interleavings considered; with \<open>\<lambda>_ _. True\<close> it is all of them.
\<close>

inductive reachable ::
  "('s \<Rightarrow> bool) \<Rightarrow> ('s \<Rightarrow> 'a \<Rightarrow> 's \<Rightarrow> bool) \<Rightarrow> ('s \<Rightarrow> 'a \<Rightarrow> bool) \<Rightarrow> 's \<Rightarrow> bool"
  for init step allowed where
  start: "init s \<Longrightarrow> reachable init step allowed s"
| move: "reachable init step allowed s \<Longrightarrow> allowed s a \<Longrightarrow> step s a s' \<Longrightarrow>
    reachable init step allowed s'"

text \<open>A run from a reachable state stays among the reachable states.\<close>

lemma reachable_trans:
  "reachable (\<lambda>x. x = s) step allowed s' \<Longrightarrow> reachable init step allowed s \<Longrightarrow>
   reachable init step allowed s'"
  by (induction rule: reachable.induct) (auto intro: reachable.move)

lemma reachable_any:
  "reachable init step (\<lambda>_ _. True) s \<Longrightarrow> step s a s' \<Longrightarrow> reachable init step (\<lambda>_ _. True) s'"
  by (rule reachable.move [where allowed = "\<lambda>_ _. True"]) simp_all

locale transition_system =
  fixes init :: "'s \<Rightarrow> bool"
    and step :: "'s \<Rightarrow> 'a \<Rightarrow> 's \<Rightarrow> bool"
    and allowed :: "'s \<Rightarrow> 'a \<Rightarrow> bool"
    and invar :: "'s \<Rightarrow> bool"
  assumes init_invar: "init s \<Longrightarrow> invar s"
    and step_invar: "invar s \<Longrightarrow> allowed s a \<Longrightarrow> step s a s' \<Longrightarrow> invar s'"
begin

lemma reachable_invar: "reachable init step allowed s \<Longrightarrow> invar s"
  by (induction rule: reachable.induct) (auto intro: init_invar step_invar)

end

end
