(* ===== verification/Browse.thy ===== *)
theory Browse
  imports Txt Rust_Num Contracts
begin

text \<open>
  The platform-independent model of \<open>src/browse.rs\<close>: the builders, the discovery events, the
  errors and their messages, and the two calls that reach a platform back-end,
  \<open>ServiceBrowserBuilder::browse\<close> and \<open>ServiceResolverBuilder::resolve\<close>. The back-end's
  \<open>browse_start\<close> and \<open>resolve_once\<close>, tokio's \<open>timeout\<close> and its channel receiver are arguments.
\<close>

subsection \<open>Events and errors\<close>

text \<open>
  An address is the number its octets spell in network order, as \<open>Ipv4Addr::from(u32)\<close> and
  \<open>Ipv6Addr::from([u8; 16])\<close> build it.
\<close>

datatype IpAddr = V4 u32 | V6 "128 word"

definition ipv6_from_octets :: "bytes \<Rightarrow> IpAddr" where
  "ipv6_from_octets bs = V6 (foldl (\<lambda>w b. 256 * w + word_of_nat (byte_val b)) 0 bs)"

text \<open>The octets of an address in network order, \<open>octets\<close> of the standard library.\<close>

fun ip_octets :: "IpAddr \<Rightarrow> bytes" where
  "ip_octets (V4 w) = u32_to_be_bytes w"
| "ip_octets (V6 w) = be_bytes 16 (unat w)"

lemma ip_octets_v6: "length bs = 16 \<Longrightarrow> ip_octets (ipv6_from_octets bs) = bs"
proof -
  assume l: "length bs = 16"
  have "be_nat bs < 2 ^ 128" using be_nat_less [of bs] by (simp add: l)
  then have "unat (word_of_nat (be_nat bs) :: 128 word) = be_nat bs"
    by (simp add: unsigned_of_nat take_bit_nat_eq_self_iff)
  then show ?thesis
    using be_bytes_be_nat [of bs] by (simp add: ipv6_from_octets_def foldl_be_word l)
qed

datatype SocketAddr =
    SocketAddrV4 u32 u16
  | SocketAddrV6 "128 word" u16 (flowinfo: u32) (scope_id: u32)

fun SocketAddr_new :: "IpAddr \<Rightarrow> u16 \<Rightarrow> SocketAddr" where
  "SocketAddr_new (V4 a) port = SocketAddrV4 a port"
| "SocketAddr_new (V6 a) port = SocketAddrV6 a port 0 0"

record DiscoveredService =
  ds_name :: bytes
  ds_service_type :: bytes
  ds_domain :: bytes
  ds_host_name :: bytes
  ds_port :: u16
  ds_addresses :: "IpAddr list"
  ds_txt_records :: "TxtRecord list"
  ds_interface_index :: "u32 option"

record RemovedService =
  rs_name :: bytes
  rs_service_type :: bytes
  rs_domain :: bytes
  rs_interface_index :: "u32 option"

datatype BrowseEvent = Found DiscoveredService | Removed RemovedService

datatype ServiceBrowseError =
    DnsSdUnavailable bytes
  | ParameterContainsInteriorNulByte bytes usize
  | InvalidInterfaceIndex u32
  | BrowseFailed bytes
  | ResolveFailed bytes bytes

type_synonym event_result = "ServiceBrowseError + BrowseEvent"

text \<open>
  The \<open>Display\<close> text of an error. \<open>str_debug\<close> is \<open>Debug\<close> of \<open>str\<close>, which depends on the
  standard library's tables of printable characters.
\<close>

fun error_display :: "(bytes \<Rightarrow> bytes) \<Rightarrow> ServiceBrowseError \<Rightarrow> bytes" where
  "error_display str_debug (DnsSdUnavailable m) = ''DNS-SD not available on system: '' @ m"
| "error_display str_debug (ParameterContainsInteriorNulByte s n) =
     ''parameter '' @ str_debug s @ '' contains interior nul byte at position '' @ show_nat n"
| "error_display str_debug (InvalidInterfaceIndex i) =
     ''interface index '' @ show_u32 i @ '' is invalid''"
| "error_display str_debug (BrowseFailed m) = ''browse operation failed: '' @ m"
| "error_display str_debug (ResolveFailed s m) =
     ''failed to resolve service '' @ str_debug s @ '': '' @ m"

subsection \<open>Discovered services\<close>

definition socket_addrs :: "DiscoveredService \<Rightarrow> SocketAddr list" where
  "socket_addrs svc = map (\<lambda>ip. SocketAddr_new ip (ds_port svc)) (ds_addresses svc)"

definition txt_lookup :: "DiscoveredService \<Rightarrow> bytes \<Rightarrow> bytes option" where
  "txt_lookup svc key =
     (case find (\<lambda>r. txt_key r = key) (ds_txt_records svc) of
        None \<Rightarrow> None
      | Some r \<Rightarrow> txt_value r)"

text \<open>What Rust's types promise of a reported service: every \<open>String\<close> is UTF-8 and the index is non-zero.\<close>

definition service_ok :: "DiscoveredService \<Rightarrow> bool" where
  "service_ok s \<longleftrightarrow>
     utf8_valid (ds_name s) \<and> utf8_valid (ds_service_type s) \<and> utf8_valid (ds_domain s) \<and>
     utf8_valid (ds_host_name s) \<and> (\<forall>r \<in> set (ds_txt_records s). utf8_valid (txt_key r)) \<and>
     nonzero_opt (ds_interface_index s)"

definition removed_ok :: "RemovedService \<Rightarrow> bool" where
  "removed_ok s \<longleftrightarrow>
     utf8_valid (rs_name s) \<and> utf8_valid (rs_service_type s) \<and> utf8_valid (rs_domain s) \<and>
     nonzero_opt (rs_interface_index s)"

fun event_ok :: "event_result \<Rightarrow> bool" where
  "event_ok (Inr (Found s)) = service_ok s"
| "event_ok (Inr (Removed s)) = removed_ok s"
| "event_ok (Inl e) = True"

lemma find_first: "\<forall>x \<in> set pre. \<not> P x \<Longrightarrow> P r \<Longrightarrow> find P (pre @ r # post) = Some r"
  by (induction pre) auto

lemma find_split:
  "find P rs = Some r \<Longrightarrow> \<exists>pre post. rs = pre @ r # post \<and> P r \<and> (\<forall>x \<in> set pre. \<not> P x)"
proof (induction rs)
  case (Cons x xs)
  show ?case
  proof (cases "P x")
    case True
    then show ?thesis using Cons.prems by (intro exI [of _ "[]"] exI [of _ xs]) auto
  next
    case False
    with Cons obtain pre post where "xs = pre @ r # post" "P r" "\<forall>x \<in> set pre. \<not> P x" by auto
    with False show ?thesis by (intro exI [of _ "x # pre"] exI [of _ post]) auto
  qed
qed simp

lemma txt_lookup_first:
  "txt_lookup s k = Some v \<longleftrightarrow>
   (\<exists>pre r post. ds_txt_records s = pre @ r # post \<and> k \<notin> txt_key ` set pre \<and>
      txt_key r = k \<and> txt_value r = Some v)"
  (is "_ \<longleftrightarrow> ?R")
proof
  assume "txt_lookup s k = Some v"
  then obtain r where "find (\<lambda>r. txt_key r = k) (ds_txt_records s) = Some r" "txt_value r = Some v"
    by (auto simp: txt_lookup_def split: option.splits)
  with find_split show ?R by fastforce
next
  assume ?R
  then obtain pre r post where "ds_txt_records s = pre @ r # post" "k \<notin> txt_key ` set pre"
    and r: "txt_key r = k" "txt_value r = Some v" by blast
  then have "find (\<lambda>r. txt_key r = k) (ds_txt_records s) = Some r"
    by (auto simp: image_iff intro!: find_first)
  with r show "txt_lookup s k = Some v" by (simp add: txt_lookup_def)
qed

subsection \<open>Browsing\<close>

record ServiceBrowserBuilder =
  sb_service_type :: "bytes option"
  sb_domain :: "bytes option"
  sb_interface_index :: "u32 option"

text \<open>The derived \<open>Default\<close>, which \<open>new\<close> calls.\<close>

definition ServiceBrowserBuilder_default :: ServiceBrowserBuilder where
  [simp]: "ServiceBrowserBuilder_default =
     \<lparr>sb_service_type = None, sb_domain = None, sb_interface_index = None\<rparr>"

definition ServiceBrowserBuilder_new :: ServiceBrowserBuilder where
  "ServiceBrowserBuilder_new = ServiceBrowserBuilder_default"

definition set_service_type :: "bytes \<Rightarrow> ServiceBrowserBuilder \<Rightarrow> ServiceBrowserBuilder" where
  "set_service_type t b = b\<lparr>sb_service_type := Some t\<rparr>"

definition set_domain :: "bytes \<Rightarrow> ServiceBrowserBuilder \<Rightarrow> ServiceBrowserBuilder" where
  "set_domain d b = b\<lparr>sb_domain := Some d\<rparr>"

definition set_interface_index :: "u32 \<Rightarrow> ServiceBrowserBuilder \<Rightarrow> ServiceBrowserBuilder" where
  "set_interface_index i b = b\<lparr>sb_interface_index := Some i\<rparr>"

record ('rx, 'guard) ServiceBrowser =
  browser_rx :: 'rx
  browser_guard :: 'guard

type_synonym ('rx, 'guard, 'e) browse_start =
  "bytes option \<Rightarrow> bytes option \<Rightarrow> u32 option \<Rightarrow> 'e \<Rightarrow> (ServiceBrowseError + ('rx \<times> 'guard)) \<times> 'e"

definition browse ::
  "('rx, 'guard, 'e) browse_start \<Rightarrow> ServiceBrowserBuilder \<Rightarrow>
   'e \<Rightarrow> (ServiceBrowseError + ('rx, 'guard) ServiceBrowser) \<times> 'e" where
  "browse browse_start b =
     try_then (browse_start (sb_service_type b) (sb_domain b) (sb_interface_index b))
       (\<lambda>(rx, guard). return_ok \<lparr>browser_rx = rx, browser_guard = guard\<rparr>)"

definition recv ::
  "('rx \<Rightarrow> event_result option \<times> 'rx) \<Rightarrow> ('rx, 'guard) ServiceBrowser \<Rightarrow>
   event_result option \<times> ('rx, 'guard) ServiceBrowser" where
  "recv rx_recv b = (let (ev, rx) = rx_recv (browser_rx b) in (ev, b\<lparr>browser_rx := rx\<rparr>))"

subsection \<open>Resolving once\<close>

record ServiceResolverBuilder =
  rb_name :: bytes
  rb_service_type :: bytes
  rb_domain :: bytes
  rb_interface_index :: "u32 option"
  rb_timeout :: "duration option"

definition ServiceResolverBuilder_new :: "bytes \<Rightarrow> bytes \<Rightarrow> bytes \<Rightarrow> ServiceResolverBuilder" where
  "ServiceResolverBuilder_new name service_type domain =
     \<lparr>rb_name = name, rb_service_type = service_type, rb_domain = domain,
      rb_interface_index = None, rb_timeout = None\<rparr>"

definition set_resolver_interface_index ::
  "u32 \<Rightarrow> ServiceResolverBuilder \<Rightarrow> ServiceResolverBuilder" where
  "set_resolver_interface_index i b = b\<lparr>rb_interface_index := Some i\<rparr>"

definition set_timeout :: "duration \<Rightarrow> ServiceResolverBuilder \<Rightarrow> ServiceResolverBuilder" where
  "set_timeout d b = b\<lparr>rb_timeout := Some d\<rparr>"

type_synonym resolve_result = "ServiceBrowseError + DiscoveredService"

text \<open>A future: \<open>None\<close> when it never completes.\<close>

type_synonym 'e resolve_future = "'e \<Rightarrow> (resolve_result \<times> 'e) option"

type_synonym 'e resolve_once =
  "bytes \<Rightarrow> bytes \<Rightarrow> bytes \<Rightarrow> u32 option \<Rightarrow> 'e resolve_future"

text \<open>
  \<open>tokio_timeout d fut\<close> is \<open>tokio::time::timeout(d, fut).await\<close>: it always completes, with \<open>None\<close>
  when the time elapses first. Its documented behaviour is that any other answer is the future's
  own.
\<close>

type_synonym 'e tokio_timeout = "duration \<Rightarrow> 'e resolve_future \<Rightarrow> 'e \<Rightarrow> resolve_result option \<times> 'e"

definition timeout_faithful :: "'e tokio_timeout \<Rightarrow> bool" where
  "timeout_faithful tmo \<longleftrightarrow>
     (\<forall>d fut e r e'. tmo d fut e = (Some r, e') \<longrightarrow> fut e = Some (r, e'))"

definition timed_out :: "ServiceResolverBuilder \<Rightarrow> duration \<Rightarrow> ServiceBrowseError" where
  "timed_out b d = ResolveFailed (rb_name b) (''timed out after '' @ duration_debug d)"

definition resolve ::
  "'e tokio_timeout \<Rightarrow> 'e resolve_once \<Rightarrow> ServiceResolverBuilder \<Rightarrow> 'e resolve_future" where
  "resolve tokio_timeout resolve_once b e =
     (let fut = resolve_once (rb_name b) (rb_service_type b) (rb_domain b) (rb_interface_index b)
      in case rb_timeout b of
           Some d \<Rightarrow>
             (case tokio_timeout d fut e of
                (Some r, e') \<Rightarrow> Some (r, e')
              | (None, e') \<Rightarrow> Some (Inl (timed_out b d), e'))
         | None \<Rightarrow> fut e)"

lemma resolve_cases:
  assumes "timeout_faithful tmo" and "resolve tmo once b e = Some (r, e')"
  obtains (own)
    "once (rb_name b) (rb_service_type b) (rb_domain b) (rb_interface_index b) e = Some (r, e')"
  | (elapsed) d where "rb_timeout b = Some d" and "r = Inl (timed_out b d)"
  using assms
  by (auto simp: resolve_def timeout_faithful_def Let_def split: option.splits prod.splits)

lemma resolve_completes: "rb_timeout b = Some d \<Longrightarrow> \<exists>r e'. resolve tmo once b e = Some (r, e')"
  by (auto simp: resolve_def Let_def split: option.splits prod.splits)

lemma resolve_timeout_outcome:
  assumes "timeout_faithful tmo" and "rb_timeout b = Some d"
  shows "\<exists>r e'. resolve tmo once b e = Some (r, e') \<and>
    (once (rb_name b) (rb_service_type b) (rb_domain b) (rb_interface_index b) e = Some (r, e') \<or>
     r = Inl (ResolveFailed (rb_name b) (''timed out after '' @ duration_debug d)))"
proof -
  obtain r e' where run: "resolve tmo once b e = Some (r, e')"
    using resolve_completes [OF assms(2), of tmo once e] by blast
  from assms(1) run show ?thesis
    by (cases rule: resolve_cases) (use run assms(2) in \<open>auto simp: timed_out_def\<close>)
qed

subsection \<open>The contract of a back-end's one-shot resolve\<close>

text \<open>
  What a back-end promises of its \<open>resolve_once\<close>: its result and the state it leaves answer the
  request, in the sense of a relation of its own. The builder hands the request on as it is, so
  its result answers the request too, or the time set for it elapsed.
\<close>

locale resolve_backend =
  fixes resolve_once :: "'e resolve_once"
    and answers :: "bytes \<Rightarrow> bytes \<Rightarrow> bytes \<Rightarrow> u32 option \<Rightarrow> 'e \<Rightarrow> resolve_result \<Rightarrow> 'e \<Rightarrow> bool"
  assumes once_answers: "resolve_once n t d i e = Some (r, e') \<Longrightarrow> answers n t d i e r e'"
begin

lemma resolve_answers:
  assumes "timeout_faithful tmo" and "resolve tmo resolve_once b e = Some (r, e')"
  shows "answers (rb_name b) (rb_service_type b) (rb_domain b) (rb_interface_index b) e r e' \<or>
    (\<exists>d. rb_timeout b = Some d \<and> r = Inl (timed_out b d))"
  using assms by (cases rule: resolve_cases) (blast intro: once_answers)+

end

text \<open>The errors that say that resolving failed or could not be tried at all.\<close>

fun resolve_error :: "ServiceBrowseError \<Rightarrow> bool" where
  "resolve_error (ResolveFailed n m) = True"
| "resolve_error (DnsSdUnavailable m) = True"
| "resolve_error (InvalidInterfaceIndex i) = True"
| "resolve_error _ = False"

subsection \<open>Properties\<close>

text \<open>
  C40: \<open>txt\<close> returns the value of the first record with the key: it answers \<open>Some v\<close> exactly when the
  records split at one with that key and value and no earlier record has the key. So a duplicate is
  never consulted, also when the first record with the key is key-only.
\<close>

theorem txt_finds_first:
  "txt_lookup s k = Some v \<longleftrightarrow>
   (\<exists>pre r post. ds_txt_records s = pre @ r # post \<and> k \<notin> txt_key ` set pre \<and>
      txt_key r = k \<and> txt_value r = Some v)"
  by (rule txt_lookup_first)

text \<open>
  C35: A resolve with a timeout always completes, also when the back-end never does; what it reports
  is the back-end's own answer or \<open>ResolveFailed\<close> for the requested name.
\<close>

theorem resolve_timeout_bounds:
  assumes "timeout_faithful tmo" and "rb_timeout b = Some d"
  shows "\<exists>r e'. resolve tmo once b e = Some (r, e') \<and>
    (once (rb_name b) (rb_service_type b) (rb_domain b) (rb_interface_index b) e = Some (r, e') \<or>
     r = Inl (ResolveFailed (rb_name b) (''timed out after '' @ duration_debug d)))"
  using assms by (rule resolve_timeout_outcome)

theorem resolve_timeout_bounds_witness:
  "\<exists>r e'. resolve (\<lambda>d fut e. (None, e)) (\<lambda>n t d i e. None)
     (set_timeout \<lparr>secs = 0, nanos = 200000000\<rparr> (ServiceResolverBuilder_new ''hang-forever'' ''_mock._tcp'' ''local''))
     (0::nat) = Some (r, e') \<and>
    ((None :: (resolve_result \<times> nat) option) = Some (r, e') \<or>
     r = Inl (ResolveFailed ''hang-forever'' ''timed out after 200ms''))"
proof -
  let ?b = "set_timeout \<lparr>secs = 0, nanos = 200000000\<rparr>
    (ServiceResolverBuilder_new ''hang-forever'' ''_mock._tcp'' ''local'')"
  have f: "timeout_faithful (\<lambda>d fut (e::nat). (None, e))" by (simp add: timeout_faithful_def)
  have t: "rb_timeout ?b = Some \<lparr>secs = 0, nanos = 200000000\<rparr>" by (simp add: set_timeout_def)
  have d: "duration_debug \<lparr>secs = 0, nanos = 200000000\<rparr> = ''200ms''"
    by (simp add: number_eval)
  have n: "rb_name ?b = ''hang-forever''"
    by (simp add: set_timeout_def ServiceResolverBuilder_new_def)
  show ?thesis
    using resolve_timeout_bounds [OF f t, of "\<lambda>n t d i e. None" 0] unfolding d n by simp
qed

end
