(* ===== verification/Discover_Service.thy ===== *)
theory Discover_Service
  imports Browse
begin

text \<open>
  The example program (\<open>examples/discover-service.rs\<close>): from parsed arguments to calls of the
  crate and lines of output. The \<open>Debug\<close> form of strings and addresses are arguments; parsing the
  command line, setting up the logger and the Ctrl-C signal are the environment's.
\<close>

record cli_args =
  arg_service_type :: "bytes option"
  arg_domain :: "bytes option"
  arg_interface :: "u32 option"
  arg_resolve :: "bytes option"
  arg_timeout :: "nat option"
  arg_verbose :: bool

record debug_forms =
  debug_str :: "bytes \<Rightarrow> bytes"
  debug_addrs :: "IpAddr list \<Rightarrow> bytes"

text \<open>A line printed, logged as information or logged as an error.\<close>

datatype cli_line = Printed bytes | Info bytes | ErrorLine bytes

subsection \<open>Output\<close>

definition txt_line :: "TxtRecord \<Rightarrow> cli_line" where
  "txt_line r =
     (case txt_value r of
        Some v \<Rightarrow> Printed (''    '' @ txt_key r @ '' = '' @ from_utf8_lossy v)
      | None \<Rightarrow> Printed (''    '' @ txt_key r))"

definition found_lines :: "debug_forms \<Rightarrow> DiscoveredService \<Rightarrow> cli_line list" where
  "found_lines fmt svc =
     Printed (''+ ['' @ ds_service_type svc @ ''] '' @ debug_str fmt (ds_name svc) @ ''  '' @
       ds_host_name svc @ '':'' @ show_nat (unat (ds_port svc)) @ ''  '' @ debug_addrs fmt (ds_addresses svc)) #
     map txt_line (ds_txt_records svc)"

definition removed_line :: "debug_forms \<Rightarrow> RemovedService \<Rightarrow> cli_line" where
  "removed_line fmt svc = Printed (''- ['' @ rs_service_type svc @ ''] '' @ debug_str fmt (rs_name svc))"

subsection \<open>Browsing\<close>

definition browse_builder :: "cli_args \<Rightarrow> ServiceBrowserBuilder" where
  "browse_builder args =
     (let b = ServiceBrowserBuilder_new;
          b = (case arg_service_type args of Some t \<Rightarrow> set_service_type t b | None \<Rightarrow> b);
          b = (case arg_domain args of Some d \<Rightarrow> set_domain d b | None \<Rightarrow> b);
          b = (case arg_interface args of Some i \<Rightarrow> set_interface_index i b | None \<Rightarrow> b)
      in b)"

text \<open>One round of \<open>select!\<close>: Ctrl-C was pressed, or the receiver answers.\<close>

definition select_round ::
  "debug_forms \<Rightarrow> ('rx \<Rightarrow> event_result option \<times> 'rx) \<Rightarrow> bool \<Rightarrow>
   ('rx, 'guard) ServiceBrowser \<times> cli_line list \<Rightarrow>
   control \<times> ('rx, 'guard) ServiceBrowser \<times> cli_line list" where
  "select_round fmt rx_recv ctrl_c st =
     (case st of (browser, out) \<Rightarrow>
        if ctrl_c then (Break, browser, out @ [Info ''stopping...''])
        else
          (case recv rx_recv browser of
             (Some (Inr (Found svc)), browser) \<Rightarrow> (Continue, browser, out @ found_lines fmt svc)
           | (Some (Inr (Removed svc)), browser) \<Rightarrow> (Continue, browser, out @ [removed_line fmt svc])
           | (Some (Inl err), browser) \<Rightarrow>
               (Continue, browser, out @ [ErrorLine (''browse error: '' @ error_display (debug_str fmt) err)])
           | (None, browser) \<Rightarrow> (Break, browser, out @ [Info ''browse ended''])))"

definition browsing_line :: "cli_args \<Rightarrow> cli_line" where
  "browsing_line args =
     (case arg_service_type args of
        Some t \<Rightarrow> Info (''browsing for '' @ t @ '' services (press Ctrl-C to stop)...'')
      | None \<Rightarrow> Info ''browsing for all service types (press Ctrl-C to stop)...'')"

text \<open>\<open>None\<close> is the panic of \<open>expect\<close>; \<open>rounds\<close> tells for each round whether Ctrl-C came first.\<close>

definition cli_browse ::
  "debug_forms \<Rightarrow> ('rx, 'guard, 'e) browse_start \<Rightarrow> ('rx \<Rightarrow> event_result option \<times> 'rx) \<Rightarrow>
   cli_args \<Rightarrow> bool list \<Rightarrow> 'e \<Rightarrow> cli_line list option \<times> 'e" where
  "cli_browse fmt start rx_recv args rounds e =
     (case browse start (browse_builder args) e of
        (Inl err, e) \<Rightarrow> (None, e)
      | (Inr browser, e) \<Rightarrow>
          (Some (snd (loop (select_round fmt rx_recv) rounds (browser, [browsing_line args]))), e))"

subsection \<open>Resolving once\<close>

definition resolve_builder :: "cli_args \<Rightarrow> bytes \<Rightarrow> bytes \<Rightarrow> ServiceResolverBuilder" where
  "resolve_builder args name service_type =
     (let domain = (case arg_domain args of Some d \<Rightarrow> d | None \<Rightarrow> ''local'');
          b = ServiceResolverBuilder_new name service_type domain;
          b = (case arg_interface args of Some i \<Rightarrow> set_resolver_interface_index i b | None \<Rightarrow> b);
          b = (case arg_timeout args of Some s \<Rightarrow> set_timeout \<lparr>secs = s, nanos = 0\<rparr> b | None \<Rightarrow> b)
      in b)"

definition cli_resolve_once ::
  "debug_forms \<Rightarrow> 'e tokio_timeout \<Rightarrow> 'e resolve_once \<Rightarrow> cli_args \<Rightarrow> bytes \<Rightarrow> 'e \<Rightarrow>
   (cli_line list \<times> 'e) option" where
  "cli_resolve_once fmt tmo once args name e =
     (case arg_service_type args of
        None \<Rightarrow> Some ([ErrorLine ''--resolve requires --type SERVICE_TYPE''], e)
      | Some service_type \<Rightarrow>
          (let b = resolve_builder args name service_type;
               banner = Info (''resolving '' @ debug_str fmt name @ '' ('' @ service_type @ '' in '' @
                 rb_domain b @ '')...'')
           in map_option (\<lambda>(r, e).
                (case r of
                   Inr svc \<Rightarrow> banner # found_lines fmt svc
                 | Inl err \<Rightarrow> [banner, ErrorLine (''resolve failed: '' @ error_display (debug_str fmt) err)], e))
              (resolve tmo once b e)))"

text \<open>\<open>main\<close> resolves when asked to and browses otherwise.\<close>

definition cli_main ::
  "debug_forms \<Rightarrow> ('rx, 'guard, 'e) browse_start \<Rightarrow> ('rx \<Rightarrow> event_result option \<times> 'rx) \<Rightarrow>
   'e tokio_timeout \<Rightarrow> 'e resolve_once \<Rightarrow> cli_args \<Rightarrow> bool list \<Rightarrow> 'e \<Rightarrow> (cli_line list option \<times> 'e) option" where
  "cli_main fmt start rx_recv tmo once args rounds e =
     (case arg_resolve args of
        Some name \<Rightarrow> map_option (\<lambda>(out, e). (Some out, e)) (cli_resolve_once fmt tmo once args name e)
      | None \<Rightarrow> Some (cli_browse fmt start rx_recv args rounds e))"

subsection \<open>What it prints\<close>

lemma browse_builder_fields:
  "browse_builder args =
   \<lparr>sb_service_type = arg_service_type args, sb_domain = arg_domain args, sb_interface_index = arg_interface args\<rparr>"
  by (simp add: browse_builder_def ServiceBrowserBuilder_new_def set_service_type_def set_domain_def
      set_interface_index_def Let_def split: option.split)

lemma resolve_builder_fields:
  "resolve_builder args name ty =
   \<lparr>rb_name = name, rb_service_type = ty,
    rb_domain = (case arg_domain args of Some d \<Rightarrow> d | None \<Rightarrow> ''local''),
    rb_interface_index = arg_interface args,
    rb_timeout = map_option (\<lambda>s. \<lparr>secs = s, nanos = 0\<rparr>) (arg_timeout args)\<rparr>"
  by (simp add: resolve_builder_def ServiceResolverBuilder_new_def set_resolver_interface_index_def
      set_timeout_def Let_def split: option.split)

text \<open>The channel as the list of the events that are still in it.\<close>

fun channel_recv :: "event_result list \<Rightarrow> event_result option \<times> event_result list" where
  "channel_recv [] = (None, [])"
| "channel_recv (m # ms) = (Some m, ms)"

fun event_lines :: "debug_forms \<Rightarrow> event_result \<Rightarrow> cli_line list" where
  "event_lines fmt (Inr (Found svc)) = found_lines fmt svc"
| "event_lines fmt (Inr (Removed svc)) = [removed_line fmt svc]"
| "event_lines fmt (Inl err) = [ErrorLine (''browse error: '' @ error_display (debug_str fmt) err)]"

lemma select_event:
  "select_round fmt channel_recv False (b\<lparr>browser_rx := m # ms\<rparr>, out) =
   (Continue, b\<lparr>browser_rx := ms\<rparr>, out @ event_lines fmt m)"
  by (cases "(fmt, m)" rule: event_lines.cases) (simp_all add: select_round_def recv_def)

interpretation cli_loop: event_loop "select_round fmt rx_recv" "\<lambda>_. True" snd for fmt rx_recv
  by unfold_locales (auto simp: select_round_def split: prod.splits option.splits sum.splits BrowseEvent.splits)

lemma cli_loop_prints:
  "snd (loop (select_round fmt channel_recv) (replicate n False @ True # later)
     (b\<lparr>browser_rx := ms\<rparr>, out)) =
   out @ concat (map (event_lines fmt) (take n ms)) @
   [Info (if n \<le> length ms then ''stopping...'' else ''browse ended'')]"
proof (induction n arbitrary: ms out)
  case 0
  show ?case by (simp add: select_round_def)
next
  case (Suc n)
  show ?case
  proof (cases ms)
    case Nil
    then show ?thesis by (simp add: select_round_def recv_def)
  next
    case (Cons m rest)
    then show ?thesis using Suc.IH [of rest] by (simp add: select_event)
  qed
qed

lemma cli_main_browses:
  assumes "arg_resolve args = None"
    and "start (arg_service_type args) (arg_domain args) (arg_interface args) e = (Inr (ms, guard), e')"
  shows "cli_main fmt start channel_recv tmo once args (replicate n False @ True # later) e =
    Some (Some (browsing_line args # concat (map (event_lines fmt) (take n ms)) @
      [Info (if n \<le> length ms then ''stopping...'' else ''browse ended'')]), e')"
proof -
  have run: "browse start (browse_builder args) e = (Inr \<lparr>browser_rx = ms, browser_guard = guard\<rparr>, e')"
    using assms(2) by (simp add: browse_def browse_builder_fields try_then_def return_ok_def)
  show ?thesis
    using assms(1) cli_loop_prints [of fmt n later ms "\<lparr>browser_rx = [], browser_guard = guard\<rparr>" "[browsing_line args]"]
    by (simp add: cli_main_def cli_browse_def run)
qed

subsection \<open>Properties\<close>

text \<open>
  C38: The example browses for exactly what the command line asks and prints every event of the
  stream once and in order, until Ctrl-C or the end of the stream, whichever comes first, and
  nothing after it.
\<close>

theorem example_prints_the_stream:
  assumes "arg_resolve args = None"
    and "start (arg_service_type args) (arg_domain args) (arg_interface args) e = (Inr (ms, guard), e')"
  shows "cli_main fmt start channel_recv tmo once args (replicate n False @ True # later) e =
    Some (Some (browsing_line args # concat (map (event_lines fmt) (take n ms)) @
      [Info (if n \<le> length ms then ''stopping...'' else ''browse ended'')]), e')"
  using assms by (rule cli_main_browses)

definition sample_args :: cli_args where
  "sample_args = \<lparr>arg_service_type = Some ''_http._tcp'', arg_domain = None, arg_interface = None,
     arg_resolve = None, arg_timeout = None, arg_verbose = False\<rparr>"

definition sample_removed :: event_result where
  "sample_removed = Inr (Removed \<lparr>rs_name = ''Printer'', rs_service_type = ''_http._tcp'',
     rs_domain = ''local'', rs_interface_index = None\<rparr>)"

theorem example_prints_the_stream_witness:
  "cli_main \<lparr>debug_str = \<lambda>s. s, debug_addrs = \<lambda>_. []\<rparr> (\<lambda>t d i e. (Inr ([sample_removed], ()), Suc e))
     channel_recv (\<lambda>d f e. (None, e)) (\<lambda>n t d i e. None) sample_args [False, False, True] 0 =
   Some (Some [Info ''browsing for _http._tcp services (press Ctrl-C to stop)...'',
     Printed ''- [_http._tcp] Printer'', Info ''browse ended''], 1)"
  using example_prints_the_stream [of sample_args "\<lambda>t d i e. (Inr ([sample_removed], ()), Suc e)" 0
      "[sample_removed]" "()" 1 "\<lparr>debug_str = \<lambda>s. s, debug_addrs = \<lambda>_. []\<rparr>" "\<lambda>d f e. (None, e)"
      "\<lambda>n t d i e. None" 2 "[]"]
  by (simp add: sample_args_def browsing_line_def sample_removed_def removed_line_def numeral_eq_Suc)

end
