(* ===== verification/Mac_Names.thy ===== *)
theory Mac_Names
  imports Browse
begin

text \<open>
  Strings at the border of the macOS back-end (\<open>src/macos/browse.rs\<close>): conversion to and from C
  strings, and the reassembly of a service type from a reply to the service-type meta-query.
\<close>

subsection \<open>C strings\<close>

definition NUL :: byte where
  "NUL = CHR 0x00"

text \<open>\<open>CString::new\<close> rejects an interior NUL and names its position.\<close>

definition cstring :: "bytes \<Rightarrow> ServiceBrowseError + bytes" where
  "cstring s =
     (case position (\<lambda>b. b = NUL) s of
        Some n \<Rightarrow> Inl (ParameterContainsInteriorNulByte s n)
      | None \<Rightarrow> Inr s)"

text \<open>
  A \<open>*const c_char\<close> is \<open>None\<close> when null, else the memory it points to, read up to the first NUL.
\<close>

type_synonym c_str = "bytes option"

definition cstr_to_string :: "c_str \<Rightarrow> bytes" where
  "cstr_to_string p =
     (case p of None \<Rightarrow> [] | Some m \<Rightarrow> from_utf8_lossy (takeWhile (\<lambda>b. b \<noteq> NUL) m))"

lemma cstring_cases:
  obtains (ok) "NUL \<notin> set s" and "cstring s = Inr s"
  | (nul) n where "n < length s" and "s ! n = NUL" and "NUL \<notin> set (take n s)"
      and "cstring s = Inl (ParameterContainsInteriorNulByte s n)"
proof (cases "position (\<lambda>b. b = NUL) s")
  case None
  then have "NUL \<notin> set s" by (auto simp: position_None)
  with None show ?thesis by (intro ok) (simp_all add: cstring_def)
next
  case (Some n)
  then have "n < length s" "s ! n = NUL" "NUL \<notin> set (take n s)" by (auto simp: position_Some)
  with Some show ?thesis by (intro nul) (simp_all add: cstring_def)
qed

lemma cstring_Inr: "cstring s = Inr t \<longleftrightarrow> t = s \<and> NUL \<notin> set s"
  by (cases rule: cstring_cases [of s]) (auto dest: nth_mem)

lemma cstring_Inl:
  "cstring s = Inl e \<longleftrightarrow>
   (\<exists>n < length s. e = ParameterContainsInteriorNulByte s n \<and> s ! n = NUL \<and> NUL \<notin> set (take n s))"
  (is "_ \<longleftrightarrow> (\<exists>n < length s. ?P n)")
proof
  assume "cstring s = Inl e"
  then show "\<exists>n < length s. ?P n" by (cases rule: cstring_cases [of s]) auto
next
  assume "\<exists>n < length s. ?P n"
  then obtain n where n: "n < length s" "?P n" by blast
  then have "position (\<lambda>b. b = NUL) s = Some n" by (simp add: position_Some) blast
  with n show "cstring s = Inl e" by (simp add: cstring_def)
qed

lemma cstring_no_nul [text_simps]: "NUL \<notin> set s \<Longrightarrow> cstring s = Inr s"
  by (simp add: cstring_Inr)

lemma cstring_eq: "\<exists>e. cstring s = (if NUL \<in> set s then Inl e else Inr s)"
proof (cases "NUL \<in> set s")
  case True
  then have "\<forall>t. cstring s \<noteq> Inr t" by (simp add: cstring_Inr)
  then show ?thesis using True by (cases "cstring s") auto
qed (simp add: cstring_no_nul)

lemma cstr_to_string_valid [simp]: "utf8_valid (cstr_to_string p)"
  by (simp add: cstr_to_string_def from_utf8_lossy_valid split: option.splits)

lemma set_from_utf8_lossy: "set (from_utf8_lossy bs) \<subseteq> set bs \<union> set replacement_character"
proof (induction bs rule: from_utf8_lossy.induct)
  case (1 bs)
  show ?case
  proof (cases "bs = []")
    case False
    then show ?thesis using "1.IH"
      by (subst from_utf8_lossy.simps) (auto dest: in_set_takeD in_set_dropD)
  qed simp
qed

lemma cstr_to_string_no_nul: "NUL \<notin> set (cstr_to_string p)"
proof (cases p)
  case (Some m)
  have "NUL \<notin> set (takeWhile (\<lambda>b. b \<noteq> NUL) m)" by (auto dest: set_takeWhileD)
  moreover have "NUL \<notin> set replacement_character"
    by (simp add: NUL_def replacement_character_def)
  ultimately show ?thesis
    using set_from_utf8_lossy [of "takeWhile (\<lambda>b. b \<noteq> NUL) m"] by (auto simp: Some cstr_to_string_def)
qed (simp add: cstr_to_string_def)

text \<open>What the crate passes to the C library comes back unchanged from it.\<close>

lemma cstring_round_trip:
  assumes "cstring s = Inr t" and "utf8_valid s"
  shows "cstr_to_string (Some (t @ NUL # junk)) = s"
proof -
  have "t = s" and "NUL \<notin> set s" using assms(1) by (auto simp: cstring_Inr)
  then have "takeWhile (\<lambda>b. b \<noteq> NUL) (t @ NUL # junk) = s"
    by (subst takeWhile_append2) auto
  then show ?thesis using assms(2) by (simp add: cstr_to_string_def from_utf8_lossy_id)
qed

subsection \<open>The service-type meta-query\<close>

abbreviation dot :: byte where
  "dot \<equiv> CHR ''.''"

definition meta_full :: "bytes \<Rightarrow> bytes \<Rightarrow> bytes \<Rightarrow> bytes" where
  "meta_full name regtype reply_domain =
     (let full = name @ ''.'' @ regtype;
          tail = trim_start_matches dot reply_domain
      in if tail \<noteq> [] then (if \<not> ends_with full dot then full @ ''.'' else full) @ tail else full)"

definition split_type_and_domain :: "bytes \<Rightarrow> bytes \<times> bytes" where
  "split_type_and_domain full =
     (let labels = split_on dot (trim_end_matches dot full);
          service_type = join ''.'' (take 2 labels);
          domain = (if 2 \<le> length labels then join ''.'' (drop 2 labels) else [])
      in (service_type, domain))"

definition meta_reply_to_type_and_domain :: "bytes \<Rightarrow> bytes \<Rightarrow> bytes \<Rightarrow> bytes \<times> bytes" where
  "meta_reply_to_type_and_domain name regtype reply_domain =
     split_type_and_domain (meta_full name regtype reply_domain)"

lemma split_type_and_domain_eq:
  "split_type_and_domain full =
   (join ''.'' (take 2 (split_on dot (trim_end_matches dot full))),
    join ''.'' (drop 2 (split_on dot (trim_end_matches dot full))))"
  by (simp add: split_type_and_domain_def Let_def)

definition dns_label :: "bytes \<Rightarrow> bool" where
  "dns_label l \<longleftrightarrow> l \<noteq> [] \<and> dot \<notin> set l"

lemma last_join_label:
  "ls \<noteq> [] \<Longrightarrow> \<forall>l \<in> set ls. dns_label l \<Longrightarrow> join ''.'' ls \<noteq> [] \<and> last (join ''.'' ls) \<noteq> dot"
proof (induction ls rule: induct_list012)
  case (2 l)
  then show ?case by (auto simp: dns_label_def) (metis last_in_set)
next
  case (3 l m ls)
  then show ?case by auto
qed simp

lemma hd_join_label:
  "ls \<noteq> [] \<Longrightarrow> \<forall>l \<in> set ls. dns_label l \<Longrightarrow> trim_start_matches dot (join ''.'' ls @ t) = join ''.'' ls @ t"
  by (cases ls; cases "hd ls"; cases "tl ls") (auto simp: trim_start_matches_def dns_label_def)

lemma trim_end_join_label:
  "ls \<noteq> [] \<Longrightarrow> \<forall>l \<in> set ls. dns_label l \<Longrightarrow> trim_end_matches dot (join ''.'' ls @ ''.'') = join ''.'' ls"
  using last_join_label [of ls] by (simp add: trim_end_id)

text \<open>
  mDNSResponder reports a type's PTR target \<open>l1.l2.d1 \<dots> dn.\<close> with \<open>l1\<close> as the name, the next two
  labels as the type and the remaining ones as the domain; the three parts it reports:
\<close>

definition reported_regtype :: "bytes list \<Rightarrow> bytes" where
  "reported_regtype ls = join ''.'' (take 2 (drop 1 ls)) @ ''.''"

definition reported_domain :: "bytes list \<Rightarrow> bytes" where
  "reported_domain ls = join ''.'' (drop 3 ls) @ ''.''"

lemma meta_full_reported:
  assumes ls: "\<forall>l \<in> set (l1 # l2 # ds). dns_label l"
  shows "meta_full l1 (reported_regtype (l1 # l2 # ds)) (reported_domain (l1 # l2 # ds)) =
    join ''.'' (l1 # l2 # ds) @ ''.''"
proof (cases "drop 1 ds = []")
  case True
  then have "trim_start_matches dot (reported_domain (l1 # l2 # ds)) = []"
    by (simp add: reported_domain_def trim_start_matches_def numeral_3_eq_3)
  then show ?thesis using True
    by (cases ds) (simp_all add: meta_full_def reported_regtype_def)
next
  case False
  then obtain d es where ds: "ds = d # es" and es: "es \<noteq> []" by (cases ds) auto
  have "trim_start_matches dot (reported_domain (l1 # l2 # ds)) = join ''.'' es @ ''.''"
    using es ls hd_join_label [of es "''.''"] by (simp add: reported_domain_def ds numeral_3_eq_3)
  then show ?thesis
    using es by (simp add: meta_full_def reported_regtype_def ds numeral_2_eq_2 join_Cons)
qed

lemma meta_reply_full:
  assumes ls: "\<forall>l \<in> set (l1 # l2 # ds). dns_label l"
  shows "meta_reply_to_type_and_domain l1 (reported_regtype (l1 # l2 # ds))
     (reported_domain (l1 # l2 # ds)) = (join ''.'' [l1, l2], join ''.'' ds)"
proof -
  have "split_on dot (trim_end_matches dot (join ''.'' (l1 # l2 # ds) @ ''.'')) = l1 # l2 # ds"
    using ls trim_end_join_label [of "l1 # l2 # ds"] split_on_join [of "l1 # l2 # ds" dot]
    by (simp only: list.simps) (simp add: dns_label_def)
  then show ?thesis
    by (simp only: meta_reply_to_type_and_domain_def meta_full_reported [OF ls]
        split_type_and_domain_eq) simp
qed

lemma join_suffix: "ws \<noteq> [] \<Longrightarrow> suffix (join sep ws) (join sep (vs @ ws))"
  by (cases "vs = []") (auto simp: join_append suffix_def)

lemma split_domain_no_trailing_dot: "\<not> ends_with (snd (split_type_and_domain s)) dot"
proof
  let ?t = "trim_end_matches dot s"
  let ?rest = "join ''.'' (drop 2 (split_on dot ?t))"
  assume "ends_with (snd (split_type_and_domain s)) dot"
  then have e: "?rest \<noteq> []" "last ?rest = dot" by (simp_all add: split_type_and_domain_eq)
  then have "drop 2 (split_on dot ?t) \<noteq> []" by (metis join.simps(1))
  then have "suffix ?rest ?t"
    using join_suffix [of "drop 2 (split_on dot ?t)" "''.''" "take 2 (split_on dot ?t)"] by simp
  then obtain zs where "?t = zs @ ?rest" by (auto simp: suffix_def)
  with e have "ends_with ?t dot" by (metis append_is_Nil_conv ends_with.elims(3) last_append)
  with trim_end_ends_with show False by blast
qed

lemma meta_reply_domain_no_trailing_dot:
  "\<not> ends_with (snd (meta_reply_to_type_and_domain name regtype reply_domain)) dot"
  by (simp only: meta_reply_to_type_and_domain_def split_domain_no_trailing_dot not_False_eq_True)

lemma set_join: "set (join sep ws) \<subseteq> set sep \<union> (\<Union>w \<in> set ws. set w)"
  by (induction ws rule: induct_list012) auto

lemma set_split_on: "w \<in> set (split_on c s) \<Longrightarrow> set w \<subseteq> set s"
  by (induction c s arbitrary: w rule: split_on.induct) (fastforce split: if_splits list.splits)+

lemma set_trim_end: "set (trim_end_matches c s) \<subseteq> set s"
  using trim_end_decomp [of s c] by (metis Un_upper1 set_append)

lemma set_trim_start: "set (trim_start_matches c s) \<subseteq> set s"
  by (auto simp: trim_start_matches_def dest: set_dropWhileD)

lemma set_meta_full: "set (meta_full n r d) \<subseteq> set n \<union> set r \<union> set d \<union> {dot}"
  using set_trim_start [of dot d] by (auto simp: meta_full_def Let_def simp del: ends_with.simps)

lemma set_split_type_and_domain:
  "set (fst (split_type_and_domain s)) \<union> set (snd (split_type_and_domain s)) \<subseteq> set s \<union> {dot}"
proof -
  let ?l = "split_on dot (trim_end_matches dot s)"
  have w: "set w \<subseteq> set s" if "w \<in> set ?l" for w
    using set_split_on [OF that] set_trim_end [of dot s] by blast
  have "set (join ''.'' (take 2 ?l)) \<subseteq> set s \<union> {dot}"
    and "set (join ''.'' (drop 2 ?l)) \<subseteq> set s \<union> {dot}"
    by (rule subset_trans [OF set_join]; use w in \<open>fastforce dest: in_set_takeD in_set_dropD\<close>)+
  then show ?thesis by (simp add: split_type_and_domain_eq)
qed

lemma meta_reply_no_nul:
  assumes "NUL \<notin> set n" and "NUL \<notin> set r" and "NUL \<notin> set d"
    and "meta_reply_to_type_and_domain n r d = (t, dm)"
  shows "NUL \<notin> set t" and "NUL \<notin> set dm"
proof -
  have "set t \<union> set dm \<subseteq> set n \<union> set r \<union> set d \<union> {dot}"
    using set_split_type_and_domain [of "meta_full n r d"] set_meta_full [of n r d] assms(4)
    by (auto simp: meta_reply_to_type_and_domain_def)
  moreover have "NUL \<noteq> dot" by (simp add: NUL_def)
  ultimately show "NUL \<notin> set t" and "NUL \<notin> set dm" using assms(1-3) by auto
qed

lemma split_type_and_domain_valid:
  assumes "utf8_valid s" and "split_type_and_domain s = (t, d)"
  shows "utf8_valid t" and "utf8_valid d"
proof -
  let ?l = "split_on dot (trim_end_matches dot s)"
  have l: "utf8_valid w" if "w \<in> set ?l" for w
    using utf8_valid_split_on [OF _ utf8_valid_trim_end that] assms(1) by simp
  have "utf8_valid (join ''.'' (take 2 ?l))" and "utf8_valid (join ''.'' (drop 2 ?l))"
    using l by (auto intro!: utf8_valid_join dest: in_set_takeD in_set_dropD)
  with assms(2) show "utf8_valid t" and "utf8_valid d" by (auto simp: split_type_and_domain_eq)
qed

lemma meta_full_valid:
  "utf8_valid n \<Longrightarrow> utf8_valid r \<Longrightarrow> utf8_valid d \<Longrightarrow> utf8_valid (meta_full n r d)"
  by (simp add: meta_full_def Let_def utf8_valid_append utf8_valid_trim_start del: ends_with.simps)

lemma meta_reply_usable:
  "case meta_reply_to_type_and_domain (cstr_to_string n) (cstr_to_string r) (cstr_to_string d) of
     (t, dm) \<Rightarrow> cstring t = Inr t \<and> cstring dm = Inr dm \<and> utf8_valid t \<and> utf8_valid dm \<and>
       \<not> ends_with dm dot"
proof -
  obtain t dm where p:
    "meta_reply_to_type_and_domain (cstr_to_string n) (cstr_to_string r) (cstr_to_string d) = (t, dm)"
    by fastforce
  note nul = meta_reply_no_nul [OF cstr_to_string_no_nul cstr_to_string_no_nul cstr_to_string_no_nul p]
  have v: "utf8_valid (meta_full (cstr_to_string n) (cstr_to_string r) (cstr_to_string d))"
    by (simp add: meta_full_valid)
  from p have "split_type_and_domain (meta_full (cstr_to_string n) (cstr_to_string r) (cstr_to_string d)) = (t, dm)"
    by (simp add: meta_reply_to_type_and_domain_def)
  note valid = split_type_and_domain_valid [OF v this]
  have "\<not> ends_with dm dot"
    using meta_reply_domain_no_trailing_dot [of "cstr_to_string n" "cstr_to_string r" "cstr_to_string d"] p
    by simp
  with p nul valid show ?thesis by (simp add: cstring_Inr del: ends_with.simps)
qed

end
