(* ===== verification/Mac_Pump.thy ===== *)
theory Mac_Pump
  imports Mac_Names Contracts
begin

text \<open>
  The browse pump of the macOS back-end (\<open>src/macos/browse.rs\<close>): the connection to the daemon
  with the browse operations that share it, the browse callback with the state it mutates, the
  poll loop and the thread that runs them. The functions of \<open>dns_sd.h\<close> and libc are the fields of
  a \<open>dns_sd\<close> record over an environment of any type; every call to \<open>dns_sd.h\<close> is logged.
\<close>

subsection \<open>The platform\<close>

text \<open>A \<open>*mut _DNSServiceRef_t\<close> is its address.\<close>

type_synonym sdref = nat

definition FLAGS_ADD :: u32 where "FLAGS_ADD = 0x2"

definition FLAGS_MORE_COMING :: u32 where "FLAGS_MORE_COMING = 0x1"

definition FLAGS_SHARE_CONNECTION :: u32 where "FLAGS_SHARE_CONNECTION = 0x4000"

definition NO_ERROR :: i32 where "NO_ERROR = 0"

definition META_QUERY_TYPE :: bytes where "META_QUERY_TYPE = ''_services._dns-sd._udp''"

definition POLL_INTERVAL_MS :: i32 where "POLL_INTERVAL_MS = 200"

text \<open>The constants of libc on macOS.\<close>

definition POLLIN :: u16 where "POLLIN = 0x1"

definition POLLERR :: u16 where "POLLERR = 0x8"

definition POLLHUP :: u16 where "POLLHUP = 0x10"

definition POLLNVAL :: u16 where "POLLNVAL = 0x20"

definition EINTR :: i32 where "EINTR = 4"

text \<open>
  A browse reply, with the \<open>OpContext\<close> the operation was started with: every context of a pump
  borrows the same \<open>PumpState\<close>, so its flag \<open>is_meta\<close> is all it adds.
\<close>

record OpContext =
  is_meta :: bool

record browse_reply =
  br_flags :: u32
  br_interface_index :: u32
  br_error_code :: i32
  br_service_name :: c_str
  br_regtype :: c_str
  br_reply_domain :: c_str
  br_context :: OpContext

text \<open>
  The arguments of the callbacks of a resolve and of an address lookup. A \<open>sockaddr\<close> is given by its family and by what its casts to
  \<open>sockaddr_in\<close> and \<open>sockaddr_in6\<close> read; \<open>rr_txt_record\<close> is the memory at the TXT pointer, which
  holds at least \<open>rr_txt_len\<close> bytes.
\<close>

record resolve_reply =
  rr_error_code :: i32
  rr_host_target :: c_str
  rr_port :: u16
  rr_txt_len :: u16
  rr_txt_record :: "bytes option"

record sockaddr =
  sa_family :: "8 word"
  s_addr :: u32
  s6_addr :: bytes

record addr_reply =
  ar_flags :: u32
  ar_error_code :: i32
  ar_address :: "sockaddr option"

text \<open>
  The calls to \<open>dns_sd.h\<close>, with what they asked for and what was answered: an error code, the
  reference made, the replies that \<open>DNSServiceProcessResult\<close> dispatched before it returned, to the
  callback of a browse, a resolve or an address lookup.
\<close>

datatype ffi_call =
    CreateConnection i32 sdref
  | RefSockFD sdref
  | Browse sdref bytes "bytes option" OpContext i32 sdref
  | BrowseReplies sdref i32 "browse_reply list"
  | Resolve "bytes \<times> bytes \<times> bytes \<times> u32" i32 sdref
  | ResolveReplies sdref i32 "resolve_reply list"
  | GetAddrInfo "bytes \<times> u32" i32 sdref
  | AddrReplies sdref i32 "addr_reply list"
  | RefDeallocate sdref

text \<open>
  \<open>DNSServiceProcessResult\<close> answers with its error code and the replies it dispatched to
  \<open>browse_callback\<close> before it returned; \<open>poll\<close> with its return value, the \<open>revents\<close> and the
  \<open>errno\<close>; \<open>stop_load\<close> reads the stop flag that the guard sets from another thread.
\<close>

record 'e dns_sd =
  DNSServiceCreateConnection :: "'e \<Rightarrow> (i32 \<times> sdref) \<times> 'e"
  DNSServiceRefSockFD :: "sdref \<Rightarrow> 'e \<Rightarrow> i32 \<times> 'e"
  DNSServiceProcessResult :: "sdref \<Rightarrow> 'e \<Rightarrow> (i32 \<times> browse_reply list) \<times> 'e"
  DNSServiceBrowse ::
    "sdref \<Rightarrow> u32 \<Rightarrow> u32 \<Rightarrow> bytes \<Rightarrow> bytes option \<Rightarrow> OpContext \<Rightarrow> 'e \<Rightarrow> (i32 \<times> sdref) \<times> 'e"
  DNSServiceRefDeallocate :: "sdref \<Rightarrow> 'e \<Rightarrow> 'e"
  poll :: "i32 \<Rightarrow> u16 \<Rightarrow> i32 \<Rightarrow> 'e \<Rightarrow> (i32 \<times> u16 \<times> i32) \<times> 'e"
  stop_load :: "'e \<Rightarrow> bool \<times> 'e"
  strerror :: "i32 \<Rightarrow> bytes"

record 'e os =
  env :: 'e
  calls :: "ffi_call list"

definition log_call :: "ffi_call \<Rightarrow> 'e \<Rightarrow> 'e os \<Rightarrow> 'e os" where
  "log_call c e os = os\<lparr>env := e, calls := calls os @ [c]\<rparr>"

lemma log_call_simps [simp]: "env (log_call c e os) = e" "calls (log_call c e os) = calls os @ [c]"
  by (simp_all add: log_call_def)

subsection \<open>The pump's state and the browse callback\<close>

type_synonym resolve_job = "bytes \<times> bytes \<times> bytes \<times> u32"

text \<open>
  \<open>PumpState\<close>; \<open>sent\<close> is what went through its sender, \<open>spawned\<close> the resolve jobs given to its
  tokio handle, \<open>traced\<close> the types logged as discovered, each in order.
\<close>

record PumpState =
  ps_interface :: u32
  seen :: "(bytes \<times> bytes) set"
  pending :: "(bytes \<times> bytes) list"
  sent :: "event_result list"
  spawned :: "resolve_job list"
  traced :: "(bytes \<times> bytes) list"

definition PumpState_new :: "u32 \<Rightarrow> PumpState" where
  "PumpState_new i =
     \<lparr>ps_interface = i, seen = {}, pending = [], sent = [], spawned = [], traced = []\<rparr>"

definition send :: "event_result \<Rightarrow> PumpState \<Rightarrow> PumpState" where
  "send m st = st\<lparr>sent := sent st @ [m]\<rparr>"

definition offer_type :: "bytes \<times> bytes \<Rightarrow> PumpState \<Rightarrow> PumpState" where
  "offer_type key st =
     (if key \<in> seen st then st
      else st\<lparr>seen := insert key (seen st), traced := traced st @ [key],
              pending := pending st @ [key]\<rparr>)"

definition browse_callback :: "browse_reply \<Rightarrow> PumpState \<Rightarrow> PumpState" where
  "browse_callback r st =
     (if br_error_code r \<noteq> NO_ERROR then
        send (Inl (BrowseFailed (''browse callback error: '' @ show_i32 (br_error_code r)))) st
      else
        (let name = cstr_to_string (br_service_name r);
             regtype = cstr_to_string (br_regtype r);
             domain = cstr_to_string (br_reply_domain r);
             is_add = (and (br_flags r) FLAGS_ADD \<noteq> 0)
         in if is_meta (br_context r) then
              (if \<not> is_add then st
               else offer_type (meta_reply_to_type_and_domain name regtype domain) st)
            else if is_add then
              st\<lparr>spawned := spawned st @ [(name, regtype, domain, br_interface_index r)]\<rparr>
            else
              send (Inr (Removed
                \<lparr>rs_name = name, rs_service_type = trim_dot regtype, rs_domain = trim_dot domain,
                 rs_interface_index = NonZeroU32_new (br_interface_index r)\<rparr>)) st))"

subsection \<open>The shared connection\<close>

record SharedConnection =
  shared :: sdref
  ops :: "sdref list"

definition conn_create ::
  "'e dns_sd \<Rightarrow> 'e os \<Rightarrow> (ServiceBrowseError + SharedConnection) \<times> 'e os" where
  "conn_create api os =
     (case DNSServiceCreateConnection api (env os) of ((err, r), e) \<Rightarrow>
        (if err \<noteq> NO_ERROR
         then Inl (BrowseFailed (''DNSServiceCreateConnection failed: '' @ show_i32 err))
         else Inr \<lparr>shared = r, ops = []\<rparr>,
         log_call (CreateConnection err r) e os))"

definition conn_socket_fd ::
  "'e dns_sd \<Rightarrow> SharedConnection \<Rightarrow> 'e os \<Rightarrow> (ServiceBrowseError + i32) \<times> 'e os" where
  "conn_socket_fd api conn os =
     (case DNSServiceRefSockFD api (shared conn) (env os) of (fd, e) \<Rightarrow>
        (if sint fd < 0
         then Inl (BrowseFailed ''DNSServiceRefSockFD returned an invalid descriptor'')
         else Inr fd,
         log_call (RefSockFD (shared conn)) e os))"

definition conn_process_result ::
  "'e dns_sd \<Rightarrow> SharedConnection \<Rightarrow> PumpState \<Rightarrow> 'e os \<Rightarrow>
   (ServiceBrowseError + unit) \<times> PumpState \<times> 'e os" where
  "conn_process_result api conn st os =
     (case DNSServiceProcessResult api (shared conn) (env os) of ((err, replies), e) \<Rightarrow>
        (if err \<noteq> NO_ERROR
         then Inl (BrowseFailed (''DNSServiceProcessResult failed: '' @ show_i32 err))
         else Inr (),
         fold browse_callback replies st,
         log_call (BrowseReplies (shared conn) err replies) e os))"

definition conn_browse ::
  "'e dns_sd \<Rightarrow> bytes \<Rightarrow> bytes \<Rightarrow> u32 \<Rightarrow> OpContext \<Rightarrow> SharedConnection \<Rightarrow> 'e os \<Rightarrow>
   (ServiceBrowseError + unit) \<times> SharedConnection \<times> 'e os" where
  "conn_browse api regtype domain interface ctx conn os =
     (case cstring regtype of
        Inl err \<Rightarrow> (Inl err, conn, os)
      | Inr regtype_c \<Rightarrow>
          (case (if domain = [] then Inr None else map_sum id Some (cstring domain)) of
             Inl err \<Rightarrow> (Inl err, conn, os)
           | Inr domain_c \<Rightarrow>
               (case DNSServiceBrowse api (shared conn) FLAGS_SHARE_CONNECTION interface regtype_c
                       domain_c ctx (env os) of
                  ((err, op), e) \<Rightarrow>
                    (let os = log_call (Browse (shared conn) regtype_c domain_c ctx err op) e os
                     in if err \<noteq> NO_ERROR
                        then (Inl (BrowseFailed (''DNSServiceBrowse failed for '' @ regtype @ '': ''
                                @ show_i32 err)), conn, os)
                        else (Inr (), conn\<lparr>ops := ops conn @ [op]\<rparr>, os)))))"

text \<open>\<open>Drop\<close>: the operations in order, the connection last.\<close>

fun dealloc_all :: "'e dns_sd \<Rightarrow> sdref list \<Rightarrow> 'e os \<Rightarrow> 'e os" where
  "dealloc_all api [] os = os"
| "dealloc_all api (r # rs) os =
     dealloc_all api rs (log_call (RefDeallocate r) (DNSServiceRefDeallocate api r (env os)) os)"

definition conn_drop :: "'e dns_sd \<Rightarrow> SharedConnection \<Rightarrow> 'e os \<Rightarrow> 'e os" where
  "conn_drop api conn os = dealloc_all api (ops conn @ [shared conn]) os"

subsection \<open>The pump\<close>

record 'e pump =
  pump_conn :: SharedConnection
  pump_state :: PumpState
  pump_os :: "'e os"

text \<open>The loop of \<open>start_pending_browses\<close> over the drained queue, then the function itself.\<close>

fun start_browses :: "'e dns_sd \<Rightarrow> (bytes \<times> bytes) list \<Rightarrow> 'e pump \<Rightarrow> 'e pump" where
  "start_browses api [] p = p"
| "start_browses api ((service_type, domain) # rest) p =
     (case conn_browse api service_type domain (ps_interface (pump_state p)) \<lparr>is_meta = False\<rparr>
             (pump_conn p) (pump_os p) of
        (Inl err, c, os) \<Rightarrow>
          start_browses api rest (p\<lparr>pump_conn := c, pump_os := os, pump_state := send (Inl err) (pump_state p)\<rparr>)
      | (Inr _, c, os) \<Rightarrow> start_browses api rest (p\<lparr>pump_conn := c, pump_os := os\<rparr>))"

definition start_pending_browses :: "'e dns_sd \<Rightarrow> 'e pump \<Rightarrow> 'e pump" where
  "start_pending_browses api p =
     start_browses api (pending (pump_state p)) (p\<lparr>pump_state := (pump_state p)\<lparr>pending := []\<rparr>\<rparr>)"

text \<open>One round of \<open>pump_loop\<close>: the result it returns with, or \<open>None\<close> to go round again.\<close>

definition pump_iter ::
  "'e dns_sd \<Rightarrow> i32 \<Rightarrow> 'e pump \<Rightarrow> (ServiceBrowseError + unit) option \<times> 'e pump" where
  "pump_iter api fd p =
     (case stop_load api (env (pump_os p)) of (stop, e) \<Rightarrow>
        if stop then (Some (Inr ()), p\<lparr>pump_os := (pump_os p)\<lparr>env := e\<rparr>\<rparr>)
        else
          (case poll api fd POLLIN POLL_INTERVAL_MS e of ((rv, revents, errno), e) \<Rightarrow>
             let p = p\<lparr>pump_os := (pump_os p)\<lparr>env := e\<rparr>\<rparr> in
             if sint rv < 0 then
               (if errno = EINTR then (None, p)
                else (Some (Inl (BrowseFailed (''poll failed: '' @ strerror api errno))), p))
             else if rv = 0 then (None, p)
             else if and revents POLLIN \<noteq> 0 then
               (case conn_process_result api (pump_conn p) (pump_state p) (pump_os p) of
                  (Inl err, st, os) \<Rightarrow> (Some (Inl err), p\<lparr>pump_state := st, pump_os := os\<rparr>)
                | (Inr _, st, os) \<Rightarrow>
                    (None, start_pending_browses api (p\<lparr>pump_state := st, pump_os := os\<rparr>)))
             else if and revents (or POLLHUP (or POLLERR POLLNVAL)) \<noteq> 0 then (Some (Inr ()), p)
             else (None, p)))"

definition pump_loop ::
  "nat \<Rightarrow> 'e dns_sd \<Rightarrow> i32 \<Rightarrow> 'e pump \<Rightarrow> ((ServiceBrowseError + unit) \<times> 'e pump) option" where
  "pump_loop fuel api fd p = run_until fuel (pump_iter api fd) p"

text \<open>
  \<open>run_pump\<close>: every early return and the end of the loop drop the connection. \<open>None\<close> is a loop
  that is still running when the fuel is used up.
\<close>

definition run_pump ::
  "nat \<Rightarrow> 'e dns_sd \<Rightarrow> bytes \<Rightarrow> bytes \<Rightarrow> u32 \<Rightarrow> bool \<Rightarrow> 'e os \<Rightarrow>
   ((ServiceBrowseError + unit) \<times> PumpState \<times> 'e os) option" where
  "run_pump fuel api regtype domain interface meta os =
     (let st = PumpState_new interface in
      case conn_create api os of
        (Inl err, os) \<Rightarrow> Some (Inl err, st, os)
      | (Inr conn, os) \<Rightarrow>
          (case conn_socket_fd api conn os of
             (Inl err, os) \<Rightarrow> Some (Inl err, st, conn_drop api conn os)
           | (Inr fd, os) \<Rightarrow>
               (case conn_browse api regtype domain interface \<lparr>is_meta = meta\<rparr> conn os of
                  (Inl err, conn, os) \<Rightarrow> Some (Inl err, st, conn_drop api conn os)
                | (Inr _, conn, os) \<Rightarrow>
                    map_option (\<lambda>(r, p). (r, pump_state p, conn_drop api (pump_conn p) (pump_os p)))
                      (pump_loop fuel api fd \<lparr>pump_conn = conn, pump_state = st, pump_os = os\<rparr>))))"

text \<open>
  \<open>browse_start\<close> cannot fail: it fixes the arguments of the pump and spawns the thread, whose
  closure reports an error of the pump through the channel.
\<close>

type_synonym pump_args = "bytes \<times> bytes \<times> u32 \<times> bool"

definition mac_browse_start ::
  "bytes option \<Rightarrow> bytes option \<Rightarrow> u32 option \<Rightarrow> ServiceBrowseError + pump_args" where
  "mac_browse_start service_type domain interface_index =
     (let interface = (case interface_index of Some i \<Rightarrow> i | None \<Rightarrow> 0);
          domain = (case domain of Some d \<Rightarrow> d | None \<Rightarrow> []);
          (regtype, meta) = (case service_type of Some t \<Rightarrow> (t, False) | None \<Rightarrow> (META_QUERY_TYPE, True))
      in Inr (regtype, domain, interface, meta))"

definition pump_thread ::
  "nat \<Rightarrow> 'e dns_sd \<Rightarrow> pump_args \<Rightarrow> 'e os \<Rightarrow> (PumpState \<times> 'e os) option" where
  "pump_thread fuel api args os =
     (case args of (regtype, domain, interface, meta) \<Rightarrow>
        map_option (\<lambda>(r, st, os). ((case r of Inl err \<Rightarrow> send (Inl err) st | Inr _ \<Rightarrow> st), os))
          (run_pump fuel api regtype domain interface meta os))"

end
