(* ===== verification/Mac_Pump_Safety.thy ===== *)
theory Mac_Pump_Safety
  imports Mac_Pump
begin

text \<open>
  What the macOS pump guarantees: the order of its calls to \<open>dns_sd.h\<close> (no operation is used or
  released after its connection), one browse per discovered type, isolation of a type that cannot
  be browsed, and the form of every event it sends.
\<close>

subsection \<open>A monitor for the calls to dns_sd.h\<close>

text \<open>
  The ordering rules of \<open>dns_sd.h\<close> as a state machine over the log of calls: an operation is
  started on the open connection only, every reference is released exactly once, the connection
  after all its operations, and nothing is called afterwards. \<open>None\<close> is a violation.
\<close>

datatype conn_status = Unopened | Opened sdref "sdref list" | Released

fun monitor1 :: "ffi_call \<Rightarrow> conn_status \<Rightarrow> conn_status option" where
  "monitor1 (CreateConnection err r) Unopened =
     Some (if err = NO_ERROR then Opened r [] else Unopened)"
| "monitor1 (RefSockFD p) (Opened r live) = (if p = r then Some (Opened r live) else None)"
| "monitor1 (BrowseReplies p err rs) (Opened r live) = (if p = r then Some (Opened r live) else None)"
| "monitor1 (Browse p t d c err op) (Opened r live) =
     (if p = r then Some (Opened r (if err = NO_ERROR then live @ [op] else live)) else None)"
| "monitor1 (RefDeallocate q) (Opened r live) =
     (if q \<in> set live then Some (Opened r (remove1 q live))
      else if q = r \<and> live = [] then Some Released else None)"
| "monitor1 _ _ = None"

fun monitor :: "ffi_call list \<Rightarrow> conn_status \<Rightarrow> conn_status option" where
  "monitor [] s = Some s"
| "monitor (c # cs) s = (case monitor1 c s of None \<Rightarrow> None | Some s' \<Rightarrow> monitor cs s')"

lemma monitor_append:
  "monitor (cs @ ds) s = (case monitor cs s of None \<Rightarrow> None | Some s' \<Rightarrow> monitor ds s')"
  by (induction cs arbitrary: s) (auto split: option.splits)

lemma monitor_snoc [simp]:
  "monitor cs s = Some s' \<Longrightarrow> monitor (cs @ [c]) s = monitor1 c s'"
  by (simp add: monitor_append split: option.splits)

definition tracks :: "SharedConnection \<Rightarrow> 'e os \<Rightarrow> bool" where
  "tracks c os \<longleftrightarrow> monitor (calls os) Unopened = Some (Opened (shared c) (ops c))"

lemma conn_create_tracks:
  "monitor (calls os) Unopened = Some Unopened \<Longrightarrow> conn_create api os = (Inr c, os') \<Longrightarrow> tracks c os'"
  by (auto simp: conn_create_def tracks_def split: prod.splits if_splits)

lemma conn_socket_fd_tracks: "tracks c os \<Longrightarrow> conn_socket_fd api c os = (r, os') \<Longrightarrow> tracks c os'"
  by (auto simp: conn_socket_fd_def tracks_def split: prod.splits)

lemma conn_process_result_tracks:
  "tracks c os \<Longrightarrow> conn_process_result api c st os = (r, st', os') \<Longrightarrow> tracks c os'"
  by (auto simp: conn_process_result_def tracks_def split: prod.splits)

lemma conn_browse_tracks:
  "tracks c os \<Longrightarrow> conn_browse api t d i ctx c os = (r, c', os') \<Longrightarrow> tracks c' os'"
  by (auto simp: conn_browse_def tracks_def Let_def split: prod.splits sum.splits if_splits)

lemma start_browses_tracks:
  "tracks (pump_conn p) (pump_os p) \<Longrightarrow>
   tracks (pump_conn (start_browses api ts p)) (pump_os (start_browses api ts p))"
  by (induction api ts p rule: start_browses.induct)
     (auto split: prod.splits sum.splits dest: conn_browse_tracks)

lemma pump_iter_tracks:
  "tracks (pump_conn p) (pump_os p) \<Longrightarrow> pump_iter api fd p = (r, p') \<Longrightarrow>
   tracks (pump_conn p') (pump_os p')"
  unfolding pump_iter_def Let_def start_pending_browses_def
  by (auto simp: tracks_def [of _ "_\<lparr>env := _\<rparr>"] split: prod.splits if_splits sum.splits
      intro!: start_browses_tracks dest!: conn_process_result_tracks [rotated])
     (auto simp: tracks_def)

lemma dealloc_all_monitor:
  "monitor (calls os) Unopened = Some (Opened r live) \<Longrightarrow>
   monitor (calls (dealloc_all api (live @ [r]) os)) Unopened = Some Released"
  by (induction live arbitrary: os) auto

lemma conn_drop_monitor:
  "tracks c os \<Longrightarrow> monitor (calls (conn_drop api c os)) Unopened = Some Released"
  by (simp add: tracks_def conn_drop_def dealloc_all_monitor)

subsection \<open>What a sequence of replies does\<close>

text \<open>
  The abstract view of a reply: the message, the resolve job and the discovered type it stands
  for. A sequence of replies sends the messages and starts the jobs in order, and discovers each
  type at its first mention.
\<close>

definition reply_is_add :: "browse_reply \<Rightarrow> bool" where
  "reply_is_add r \<longleftrightarrow> and (br_flags r) FLAGS_ADD \<noteq> 0"

definition reply_message :: "browse_reply \<Rightarrow> event_result option" where
  "reply_message r =
     (if br_error_code r \<noteq> NO_ERROR
      then Some (Inl (BrowseFailed (''browse callback error: '' @ show_i32 (br_error_code r))))
      else if is_meta (br_context r) \<or> reply_is_add r then None
      else Some (Inr (Removed
        \<lparr>rs_name = cstr_to_string (br_service_name r),
         rs_service_type = trim_dot (cstr_to_string (br_regtype r)),
         rs_domain = trim_dot (cstr_to_string (br_reply_domain r)),
         rs_interface_index = NonZeroU32_new (br_interface_index r)\<rparr>)))"

definition reply_job :: "browse_reply \<Rightarrow> resolve_job option" where
  "reply_job r =
     (if br_error_code r = NO_ERROR \<and> \<not> is_meta (br_context r) \<and> reply_is_add r
      then Some (cstr_to_string (br_service_name r), cstr_to_string (br_regtype r),
                 cstr_to_string (br_reply_domain r), br_interface_index r)
      else None)"

definition reply_type :: "browse_reply \<Rightarrow> (bytes \<times> bytes) option" where
  "reply_type r =
     (if br_error_code r = NO_ERROR \<and> is_meta (br_context r) \<and> reply_is_add r
      then Some (meta_reply_to_type_and_domain (cstr_to_string (br_service_name r))
                   (cstr_to_string (br_regtype r)) (cstr_to_string (br_reply_domain r)))
      else None)"

interpretation discovered: dedup offer_type seen traced
  by unfold_locales (simp_all add: offer_type_def insert_absorb)

lemma browse_callback_sent:
  "sent (browse_callback r st) = sent st @ (case reply_message r of None \<Rightarrow> [] | Some m \<Rightarrow> [m])"
  by (simp add: browse_callback_def reply_message_def reply_is_add_def send_def offer_type_def
      Let_def)

lemma browse_callback_spawned:
  "spawned (browse_callback r st) = spawned st @ (case reply_job r of None \<Rightarrow> [] | Some j \<Rightarrow> [j])"
  by (simp add: browse_callback_def reply_job_def reply_is_add_def send_def offer_type_def Let_def)

lemma browse_callback_types:
  "seen (browse_callback r st) =
     (case reply_type r of None \<Rightarrow> seen st | Some k \<Rightarrow> seen (offer_type k st))"
  "traced (browse_callback r st) =
     (case reply_type r of None \<Rightarrow> traced st | Some k \<Rightarrow> traced (offer_type k st))"
  "pending (browse_callback r st) =
     (case reply_type r of None \<Rightarrow> pending st | Some k \<Rightarrow> pending (offer_type k st))"
  by (simp_all add: browse_callback_def reply_type_def reply_is_add_def send_def offer_type_def
      Let_def)

lemma fold_replies_sent:
  "sent (fold browse_callback rs st) = sent st @ List.map_filter reply_message rs"
  by (induction rs arbitrary: st) (auto simp: browse_callback_sent map_filter_simps split: option.splits)

lemma fold_replies_spawned:
  "spawned (fold browse_callback rs st) = spawned st @ List.map_filter reply_job rs"
  by (induction rs arbitrary: st)
     (auto simp: browse_callback_spawned map_filter_simps split: option.splits)

lemma offer_type_pending: "pending (offer_type k st) = pending st @ fresh (seen st) [k]"
  by (simp add: offer_type_def)

lemma fold_replies_types:
  "seen (fold browse_callback rs st) = seen st \<union> set (List.map_filter reply_type rs) \<and>
   traced (fold browse_callback rs st) =
     traced st @ fresh (seen st) (List.map_filter reply_type rs) \<and>
   pending (fold browse_callback rs st) =
     pending st @ fresh (seen st) (List.map_filter reply_type rs)"
proof (induction rs arbitrary: st)
  case (Cons r rs)
  then show ?case
    by (cases "reply_type r")
       (auto simp: browse_callback_types map_filter_simps discovered.seen_offer
         discovered.acted_offer offer_type_pending insert_absorb)
qed (simp add: map_filter_simps)

lemma fold_replies_refine:
  "sent (fold browse_callback rs st) = sent st @ List.map_filter reply_message rs \<and>
   spawned (fold browse_callback rs st) = spawned st @ List.map_filter reply_job rs \<and>
   seen (fold browse_callback rs st) = seen st \<union> set (List.map_filter reply_type rs) \<and>
   pending (fold browse_callback rs st) =
     pending st @ fresh (seen st) (List.map_filter reply_type rs)"
  by (simp add: fold_replies_sent fold_replies_spawned fold_replies_types)

subsection \<open>One browse per discovered type\<close>

text \<open>The types the pump asked the daemon to browse, in order, read off the log of calls.\<close>

fun browsed_types :: "ffi_call list \<Rightarrow> (bytes \<times> bytes) list" where
  "browsed_types [] = []"
| "browsed_types (Browse p t d ctx err op # cs) =
     (if is_meta ctx then browsed_types cs
      else (t, case d of None \<Rightarrow> [] | Some d \<Rightarrow> d) # browsed_types cs)"
| "browsed_types (_ # cs) = browsed_types cs"

lemma browsed_types_append: "browsed_types (cs @ ds) = browsed_types cs @ browsed_types ds"
  by (induction cs rule: browsed_types.induct) auto

definition nul_free :: "bytes \<times> bytes \<Rightarrow> bool" where
  "nul_free k \<longleftrightarrow> NUL \<notin> set (fst k) \<and> NUL \<notin> set (snd k)"

lemma reply_type_nul_free: "reply_type r = Some k \<Longrightarrow> nul_free k"
  using meta_reply_no_nul [OF cstr_to_string_no_nul cstr_to_string_no_nul cstr_to_string_no_nul,
      of "br_service_name r" "br_regtype r" "br_reply_domain r"]
  by (cases k) (auto simp: reply_type_def nul_free_def split: if_splits)

lemma conn_browse_logged:
  assumes "conn_browse api t d i \<lparr>is_meta = False\<rparr> c os = (r, c', os')"
  shows "browsed_types (calls os') = browsed_types (calls os) @ filter nul_free [(t, d)]"
proof -
  obtain e where d: "cstring d = (if NUL \<in> set d then Inl e else Inr d)"
    using cstring_eq by blast
  obtain e' where t: "cstring t = (if NUL \<in> set t then Inl e' else Inr t)"
    using cstring_eq by blast
  from assms show "browsed_types (calls os') = browsed_types (calls os) @ filter nul_free [(t, d)]"
    by (auto simp: conn_browse_def nul_free_def d t Let_def browsed_types_append
        split: prod.splits if_splits)
qed

lemma start_browses_logged:
  "browsed_types (calls (pump_os (start_browses api ts p))) =
   browsed_types (calls (pump_os p)) @ filter nul_free ts"
proof (induction api ts p rule: start_browses.induct)
  case (2 api t d rest p)
  then show ?case
    by (auto split: prod.splits sum.splits dest!: conn_browse_logged)
qed simp

lemma start_browses_state:
  "seen (pump_state (start_browses api ts p)) = seen (pump_state p)"
  "traced (pump_state (start_browses api ts p)) = traced (pump_state p)"
  "pending (pump_state (start_browses api ts p)) = pending (pump_state p)"
  "spawned (pump_state (start_browses api ts p)) = spawned (pump_state p)"
  by (induction api ts p rule: start_browses.induct)
     (auto simp: send_def split: prod.splits sum.splits)

text \<open>
  What becomes of a queued type: it is no C string, or the daemon was asked to browse it and answered
  with an error code and an operation. The call that was made, the operation kept and the error
  reported follow from that.
\<close>

datatype browse_outcome = NotCString ServiceBrowseError | Asked i32 sdref

fun outcome_of :: "'e dns_sd \<Rightarrow> sdref \<Rightarrow> u32 \<Rightarrow> bytes \<times> bytes \<Rightarrow> browse_outcome \<Rightarrow> bool" where
  "outcome_of api c i (t, d) (NotCString err) \<longleftrightarrow>
     cstring t = Inl err \<or> cstring t = Inr t \<and> cstring d = Inl err"
| "outcome_of api c i (t, d) (Asked err op) \<longleftrightarrow>
     nul_free (t, d) \<and>
     (\<exists>e e'. DNSServiceBrowse api c FLAGS_SHARE_CONNECTION i t (if d = [] then None else Some d)
        \<lparr>is_meta = False\<rparr> e = ((err, op), e'))"

fun outcome_calls :: "sdref \<Rightarrow> bytes \<times> bytes \<Rightarrow> browse_outcome \<Rightarrow> ffi_call list" where
  "outcome_calls c (t, d) (NotCString err) = []"
| "outcome_calls c (t, d) (Asked err op) =
     [Browse c t (if d = [] then None else Some d) \<lparr>is_meta = False\<rparr> err op]"

fun outcome_ops :: "browse_outcome \<Rightarrow> sdref list" where
  "outcome_ops (NotCString err) = []"
| "outcome_ops (Asked err op) = (if err = NO_ERROR then [op] else [])"

fun outcome_errors :: "bytes \<times> bytes \<Rightarrow> browse_outcome \<Rightarrow> event_result list" where
  "outcome_errors (t, d) (NotCString err) = [Inl err]"
| "outcome_errors (t, d) (Asked err op) =
     (if err = NO_ERROR then []
      else [Inl (BrowseFailed (''DNSServiceBrowse failed for '' @ t @ '': '' @ show_i32 err))])"

lemma conn_browse_outcome:
  assumes "conn_browse api t d i \<lparr>is_meta = False\<rparr> c os = (r, c', os')"
  obtains out where "outcome_of api (shared c) i (t, d) out"
    and "calls os' = calls os @ outcome_calls (shared c) (t, d) out"
    and "c' = c\<lparr>ops := ops c @ outcome_ops out\<rparr>"
    and "(case r of Inl err \<Rightarrow> [Inl err] | Inr u \<Rightarrow> []) = outcome_errors (t, d) out"
proof (cases "cstring t")
  case (Inl e)
  with assms show ?thesis by (intro that [of "NotCString e"]) (auto simp: conn_browse_def)
next
  case (Inr t')
  then have t: "t' = t" "NUL \<notin> set t" by (simp_all add: cstring_Inr)
  show ?thesis
  proof (cases "cstring d")
    case (Inl e)
    then have "d \<noteq> []" by (auto simp: cstring_def)
    with assms Inl \<open>cstring t = Inr t'\<close> t show ?thesis
      by (intro that [of "NotCString e"]) (auto simp: conn_browse_def)
  next
    case (Inr d')
    then have d: "d' = d" "NUL \<notin> set d" by (simp_all add: cstring_Inr)
    obtain err op e where call: "DNSServiceBrowse api (shared c) FLAGS_SHARE_CONNECTION i t
        (if d = [] then None else Some d) \<lparr>is_meta = False\<rparr> (env os) = ((err, op), e)"
      by (metis surj_pair)
    have "(if d = [] then Inr None else map_sum id Some (cstring d)) =
        (Inr (if d = [] then None else Some d) :: ServiceBrowseError + bytes option)"
      using Inr d by simp
    with assms \<open>cstring t = Inr t'\<close> t d call show ?thesis
      by (intro that [of "Asked err op"])
         (auto simp: conn_browse_def nul_free_def Let_def split: if_splits)
  qed
qed

lemma start_browses_outcomes:
  "\<exists>outs. list_all2 (outcome_of api (shared (pump_conn p)) (ps_interface (pump_state p))) ts outs \<and>
     calls (pump_os (start_browses api ts p)) =
       calls (pump_os p) @ concat (map2 (outcome_calls (shared (pump_conn p))) ts outs) \<and>
     pump_conn (start_browses api ts p) =
       (pump_conn p)\<lparr>ops := ops (pump_conn p) @ concat (map outcome_ops outs)\<rparr> \<and>
     sent (pump_state (start_browses api ts p)) =
       sent (pump_state p) @ concat (map2 outcome_errors ts outs)"
proof (induction ts arbitrary: p)
  case (Cons k ts)
  obtain t d where k: "k = (t, d)" by (cases k)
  obtain r c os where br: "conn_browse api t d (ps_interface (pump_state p)) \<lparr>is_meta = False\<rparr>
      (pump_conn p) (pump_os p) = (r, c, os)"
    by (rule prod_cases3)
  then obtain out where out: "outcome_of api (shared (pump_conn p)) (ps_interface (pump_state p)) (t, d) out"
    "calls os = calls (pump_os p) @ outcome_calls (shared (pump_conn p)) (t, d) out"
    "c = (pump_conn p)\<lparr>ops := ops (pump_conn p) @ outcome_ops out\<rparr>"
    "(case r of Inl err \<Rightarrow> [Inl err] | Inr u \<Rightarrow> []) = outcome_errors (t, d) out"
    by (rule conn_browse_outcome)
  define q where "q = p\<lparr>pump_conn := c, pump_os := os, pump_state :=
    (case r of Inl err \<Rightarrow> send (Inl err) (pump_state p) | Inr u \<Rightarrow> pump_state p)\<rparr>"
  have run: "start_browses api (k # ts) p = start_browses api ts q"
    using br by (cases r) (simp_all add: k q_def)
  have q: "shared (pump_conn q) = shared (pump_conn p)" "ps_interface (pump_state q) = ps_interface (pump_state p)"
    "sent (pump_state q) = sent (pump_state p) @ outcome_errors (t, d) out"
    using out(3,4) by (cases r; simp add: q_def send_def)+
  from Cons.IH [of q] obtain outs where
    "list_all2 (outcome_of api (shared (pump_conn q)) (ps_interface (pump_state q))) ts outs"
    "calls (pump_os (start_browses api ts q)) =
       calls (pump_os q) @ concat (map2 (outcome_calls (shared (pump_conn q))) ts outs)"
    "pump_conn (start_browses api ts q) = (pump_conn q)\<lparr>ops := ops (pump_conn q) @ concat (map outcome_ops outs)\<rparr>"
    "sent (pump_state (start_browses api ts q)) = sent (pump_state q) @ concat (map2 outcome_errors ts outs)"
    by blast
  with out(1-3) q show ?case
    unfolding run by (intro exI [of _ "out # outs"]) (simp add: k q_def)
qed (auto intro: exI [of _ "[]"])

lemma start_pending_isolates:
  "\<exists>outs. list_all2 (outcome_of api (shared (pump_conn p)) (ps_interface (pump_state p)))
       (pending (pump_state p)) outs \<and>
     calls (pump_os (start_pending_browses api p)) =
       calls (pump_os p) @ concat (map2 (outcome_calls (shared (pump_conn p))) (pending (pump_state p)) outs) \<and>
     pump_conn (start_pending_browses api p) =
       (pump_conn p)\<lparr>ops := ops (pump_conn p) @ concat (map outcome_ops outs)\<rparr> \<and>
     sent (pump_state (start_pending_browses api p)) =
       sent (pump_state p) @ concat (map2 outcome_errors (pending (pump_state p)) outs) \<and>
     pending (pump_state (start_pending_browses api p)) = []"
  using start_browses_outcomes [of api "p\<lparr>pump_state := (pump_state p)\<lparr>pending := []\<rparr>\<rparr>" "pending (pump_state p)"]
  by (simp add: start_pending_browses_def start_browses_state)

definition queue_inv :: "'e pump \<Rightarrow> bool" where
  "queue_inv p \<longleftrightarrow>
     browsed_types (calls (pump_os p)) @ pending (pump_state p) = traced (pump_state p) \<and>
     distinct (traced (pump_state p)) \<and> set (traced (pump_state p)) = seen (pump_state p) \<and>
     (\<forall>k \<in> set (pending (pump_state p)). nul_free k)"

definition queue_empty :: "'e pump \<Rightarrow> bool" where
  "queue_empty p \<longleftrightarrow> pending (pump_state p) = []"

lemma start_pending_queue:
  "queue_inv p \<Longrightarrow> queue_inv (start_pending_browses api p) \<and> queue_empty (start_pending_browses api p)"
  by (auto simp: queue_inv_def queue_empty_def start_pending_browses_def start_browses_state
      start_browses_logged)

lemma conn_process_result_queue:
  assumes "queue_inv p"
    and "conn_process_result api (pump_conn p) (pump_state p) (pump_os p) = (r, st, os)"
  shows "queue_inv (p\<lparr>pump_state := st, pump_os := os\<rparr>)"
proof -
  obtain rs where st: "st = fold browse_callback rs (pump_state p)"
    and os: "browsed_types (calls os) = browsed_types (calls (pump_os p))"
    using assms(2) by (auto simp: conn_process_result_def browsed_types_append split: prod.splits)
  have "\<forall>k \<in> set (List.map_filter reply_type rs). nul_free k"
    by (auto simp: set_map_filter reply_type_nul_free)
  then show ?thesis
    using assms(1) fold_replies_types [of rs "pump_state p"] os
    by (auto simp: queue_inv_def st distinct_fresh set_fresh)
qed

lemma pump_iter_queue:
  assumes "queue_inv p" and "queue_empty p" and "pump_iter api fd p = (r, p')"
  shows "queue_inv p' \<and> ((\<forall>e. r \<noteq> Some (Inl e)) \<longrightarrow> queue_empty p')"
proof -
  have env: "queue_inv (q\<lparr>pump_os := (pump_os q)\<lparr>env := e\<rparr>\<rparr>) = queue_inv q"
    "queue_empty (q\<lparr>pump_os := os\<rparr>) = queue_empty q" for q :: "'a pump" and e os
    by (simp_all add: queue_inv_def queue_empty_def)
  obtain stop e where "stop_load api (env (pump_os p)) = (stop, e)" by fastforce
  moreover obtain rv revents errno e' where
    "poll api fd POLLIN POLL_INTERVAL_MS e = ((rv, revents, errno), e')" by (metis prod_cases3 surj_pair)
  moreover define q where "q = p\<lparr>pump_os := (pump_os p)\<lparr>env := e'\<rparr>\<rparr>"
  moreover obtain res st os where
    pr: "conn_process_result api (pump_conn q) (pump_state q) (pump_os q) = (res, st, os)"
    by (metis prod_cases3)
  moreover have "queue_inv q" and "queue_empty q" using assms(1,2) env by (simp_all add: q_def)
  moreover note conn_process_result_queue [OF \<open>queue_inv q\<close> pr]
  ultimately show ?thesis
    using assms start_pending_queue
    by (auto simp: pump_iter_def Let_def env split: if_splits sum.splits)
qed

lemma pump_iter_round:
  "queue_inv p \<and> queue_empty p \<Longrightarrow> pump_iter api fd p = (None, p') \<Longrightarrow> queue_inv p' \<and> queue_empty p'"
  using pump_iter_queue [of p api fd None p'] by simp

lemma pump_iter_leave:
  "queue_inv p \<and> queue_empty p \<Longrightarrow> pump_iter api fd p = (Some r, p') \<Longrightarrow>
   queue_inv p' \<and> ((\<forall>e. r \<noteq> Inl e) \<longrightarrow> queue_empty p')"
  using pump_iter_queue [of p api fd "Some r" p'] by simp

subsection \<open>Every event is well formed\<close>

fun job_ok :: "resolve_job \<Rightarrow> bool" where
  "job_ok (n, t, d, i) \<longleftrightarrow> utf8_valid n \<and> utf8_valid t \<and> utf8_valid d"

definition output_ok :: "PumpState \<Rightarrow> bool" where
  "output_ok st \<longleftrightarrow> (\<forall>m \<in> set (sent st). event_ok m) \<and> (\<forall>j \<in> set (spawned st). job_ok j)"

lemma send_error_ok [simp]: "output_ok (send (Inl e) st) \<longleftrightarrow> output_ok st"
  by (auto simp: output_ok_def send_def)

lemma reply_message_ok: "reply_message r = Some m \<Longrightarrow> event_ok m"
  by (auto simp: reply_message_def removed_ok_def trim_dot_valid split: if_splits)

lemma reply_job_ok: "reply_job r = Some j \<Longrightarrow> job_ok j"
  by (auto simp: reply_job_def split: if_splits)

lemma fold_replies_output: "output_ok st \<Longrightarrow> output_ok (fold browse_callback rs st)"
  by (auto simp: output_ok_def fold_replies_sent fold_replies_spawned set_map_filter
      dest: reply_message_ok reply_job_ok)

lemma start_browses_output:
  "output_ok (pump_state p) \<Longrightarrow> output_ok (pump_state (start_browses api ts p))"
  by (induction api ts p rule: start_browses.induct) (auto split: prod.splits sum.splits)

lemma start_pending_output:
  "output_ok (pump_state p) \<Longrightarrow> output_ok (pump_state (start_pending_browses api p))"
  unfolding start_pending_browses_def by (rule start_browses_output) (simp add: output_ok_def)

lemma pump_iter_output:
  "output_ok (pump_state p) \<Longrightarrow> pump_iter api fd p = (r, p') \<Longrightarrow> output_ok (pump_state p')"
  by (auto simp: pump_iter_def Let_def conn_process_result_def fold_replies_output
      intro!: start_pending_output split: prod.splits if_splits sum.splits)

subsection \<open>The whole pump\<close>

interpretation tracking: until_loop "pump_iter api fd"
  "\<lambda>p. tracks (pump_conn p) (pump_os p)" "\<lambda>r p. tracks (pump_conn p) (pump_os p)" for api fd
  by unfold_locales (rule pump_iter_tracks; assumption)+

interpretation queueing: until_loop "pump_iter api fd"
  "\<lambda>p. queue_inv p \<and> queue_empty p"
  "\<lambda>r p. queue_inv p \<and> ((\<forall>e. r \<noteq> Inl e) \<longrightarrow> queue_empty p)" for api fd
  by unfold_locales (rule pump_iter_round pump_iter_leave; assumption)+

interpretation emitting: until_loop "pump_iter api fd"
  "\<lambda>p. output_ok (pump_state p)" "\<lambda>r p. output_ok (pump_state p)" for api fd
  by unfold_locales (rule pump_iter_output; assumption)+

lemma run_pump_cases:
  assumes "run_pump fuel api t d i m os = Some (r, st, os')"
  obtains (unopened) err where "conn_create api os = (Inl err, os')" and "r = Inl err"
      and "st = PumpState_new i"
  | (early) c os1 c' os2 err where "conn_create api os = (Inr c, os1)"
      and "c' = c \<and> (\<exists>res. conn_socket_fd api c os1 = (res, os2)) \<or>
        (\<exists>res fd osx. conn_socket_fd api c os1 = (Inr fd, osx) \<and>
          conn_browse api t d i \<lparr>is_meta = m\<rparr> c osx = (Inl res, c', os2))"
      and "r = Inl err" and "st = PumpState_new i" and "os' = conn_drop api c' os2"
  | (ran) c os1 fd os2 u c' os3 p where "conn_create api os = (Inr c, os1)"
      and "conn_socket_fd api c os1 = (Inr fd, os2)"
      and "conn_browse api t d i \<lparr>is_meta = m\<rparr> c os2 = (Inr u, c', os3)"
      and "run_until fuel (pump_iter api fd)
        \<lparr>pump_conn = c', pump_state = PumpState_new i, pump_os = os3\<rparr> = Some (r, p)"
      and "st = pump_state p" and "os' = conn_drop api (pump_conn p) (pump_os p)"
  using assms unfolding run_pump_def Let_def pump_loop_def
  by (fastforce split: prod.splits sum.splits)

lemma run_pump_monitor:
  assumes "run_pump fuel api t d i m \<lparr>env = e, calls = []\<rparr> = Some (r, st, os')"
  shows "monitor (calls os') Unopened = Some Released \<or>
    (\<exists>err ref. calls os' = [CreateConnection err ref] \<and> err \<noteq> NO_ERROR)"
  using assms
proof (cases rule: run_pump_cases)
  case (unopened err)
  then show ?thesis by (auto simp: conn_create_def split: prod.splits if_splits)
next
  case (early c os1 c' os2 err)
  have "tracks c os1" using early(1) by (rule conn_create_tracks [rotated]) simp
  then have "tracks c' os2"
    using early(2) by (blast dest: conn_socket_fd_tracks conn_browse_tracks)
  then show ?thesis by (simp add: early(5) conn_drop_monitor)
next
  case (ran c os1 fd os2 u c' os3 p)
  have "tracks c os1" using ran(1) by (rule conn_create_tracks [rotated]) simp
  then have "tracks c' os3"
    using ran(2,3) by (blast dest: conn_socket_fd_tracks conn_browse_tracks)
  then have "tracks (pump_conn p) (pump_os p)"
    using tracking.run_post [OF ran(4)] by simp
  then show ?thesis by (simp add: ran(6) conn_drop_monitor)
qed

lemma browsed_types_drop [simp]: "browsed_types (calls (conn_drop api c os)) = browsed_types (calls os)"
proof -
  have "browsed_types (calls (dealloc_all api rs os)) = browsed_types (calls os)" for rs
    by (induction rs arbitrary: os) (auto simp: browsed_types_append)
  then show ?thesis by (simp add: conn_drop_def)
qed

lemma no_browse_yet:
  "conn_create api os = (rc, os1) \<Longrightarrow> browsed_types (calls os1) = browsed_types (calls os)"
  "conn_socket_fd api c os1 = (rf, os2) \<Longrightarrow> browsed_types (calls os2) = browsed_types (calls os1)"
  "conn_browse api t d i \<lparr>is_meta = True\<rparr> c os2 = (rb, c', os3) \<Longrightarrow>
   browsed_types (calls os3) = browsed_types (calls os2)"
  by (auto simp: conn_create_def conn_socket_fd_def conn_browse_def browsed_types_append Let_def
      split: prod.splits sum.splits if_splits)

lemma run_pump_types:
  assumes "run_pump fuel api t d i True \<lparr>env = e, calls = []\<rparr> = Some (r, st, os')"
  shows "browsed_types (calls os') @ pending st = traced st" and "distinct (traced st)"
    and "set (traced st) = seen st" and "r = Inr () \<Longrightarrow> pending st = []"
proof -
  have "browsed_types (calls os') @ pending st = traced st \<and> distinct (traced st) \<and>
    set (traced st) = seen st \<and> (r = Inr () \<longrightarrow> pending st = [])"
    using assms
  proof (cases rule: run_pump_cases)
    case (unopened err)
    then show ?thesis by (auto simp: PumpState_new_def dest: no_browse_yet)
  next
    case (early c os1 c' os2 err)
    have "browsed_types (calls os2) = []"
      using early(1,2) no_browse_yet by fastforce
    then show ?thesis by (simp add: early PumpState_new_def)
  next
    case (ran c os1 fd os2 u c' os3 p)
    have "browsed_types (calls os3) = []" using ran(1-3) no_browse_yet by fastforce
    then show ?thesis
      using queueing.run_post [OF ran(4)]
      by (auto simp: ran(5,6) queue_inv_def queue_empty_def PumpState_new_def)
  qed
  then show "browsed_types (calls os') @ pending st = traced st" "distinct (traced st)"
      "set (traced st) = seen st" "r = Inr () \<Longrightarrow> pending st = []"
    by auto
qed

lemma PumpState_new_output [simp]: "output_ok (PumpState_new i)"
  by (simp add: output_ok_def PumpState_new_def)

lemma run_pump_output:
  "run_pump fuel api t d i m os = Some (r, st, os') \<Longrightarrow> output_ok st"
  by (erule run_pump_cases) (auto dest: emitting.run_post)

lemma pump_thread_output: "pump_thread fuel api args os = Some (st, os') \<Longrightarrow> output_ok st"
proof -
  assume t: "pump_thread fuel api args os = Some (st, os')"
  obtain ty d i m where a: "args = (ty, d, i, m)" by (cases args)
  with t obtain r st0 where run: "run_pump fuel api ty d i m os = Some (r, st0, os')"
    and st: "st = (case r of Inl err \<Rightarrow> send (Inl err) st0 | Inr _ \<Rightarrow> st0)"
    by (auto simp: pump_thread_def)
  from run have "output_ok st0" by (rule run_pump_output)
  then show ?thesis by (cases r) (simp_all add: st)
qed

text \<open>The pump leaves the loop in the first round that finds the stop flag set.\<close>

lemma pump_iter_stop:
  "fst (stop_load api (env (pump_os p))) \<Longrightarrow>
   pump_iter api fd p = (Some (Inr ()), p\<lparr>pump_os := (pump_os p)\<lparr>env := snd (stop_load api (env (pump_os p)))\<rparr>\<rparr>)"
  by (auto simp: pump_iter_def split: prod.splits)

definition rounds :: "nat \<Rightarrow> 'e dns_sd \<Rightarrow> i32 \<Rightarrow> 'e pump \<Rightarrow> 'e pump" where
  "rounds k api fd p = ((\<lambda>q. snd (pump_iter api fd q)) ^^ k) p"

lemma pump_loop_stops:
  assumes "fst (stop_load api (env (pump_os (rounds k api fd p))))"
  shows "\<exists>r p'. pump_loop (Suc k) api fd p = Some (r, p')"
proof -
  have "fst (pump_iter api fd (rounds k api fd p)) \<noteq> None"
    using pump_iter_stop [OF assms] by simp
  then show ?thesis
    using run_until_enough [of "pump_iter api fd" k p] by (simp add: rounds_def pump_loop_def)
qed

end
