(* ===== verification/Mac_Resolve.thy ===== *)
theory Mac_Resolve
  imports Mac_Pump_Safety
begin

text \<open>
  Resolving an instance on macOS (\<open>src/macos/browse.rs\<close>): the resolve and address callbacks, the
  two blocking operations that drive them, the job the pump spawns for a found instance and the
  one-shot \<open>resolve_once\<close>.
\<close>

subsection \<open>The platform\<close>

definition RESOLVE_TIMEOUT_MS :: i32 where "RESOLVE_TIMEOUT_MS = 5000"

definition GETADDR_TIMEOUT_MS :: nat where "GETADDR_TIMEOUT_MS = 2000"

definition AF_INET :: "8 word" where "AF_INET = 2"

definition AF_INET6 :: "8 word" where "AF_INET6 = 30"

text \<open>\<open>now\<close> is \<open>Instant::now()\<close> in nanoseconds; \<open>join_error\<close> the error of a blocking task that did not finish.\<close>

record 'e dns_resolver = "'e dns_sd" +
  DNSServiceResolve :: "u32 \<Rightarrow> u32 \<Rightarrow> bytes \<Rightarrow> bytes \<Rightarrow> bytes \<Rightarrow> 'e \<Rightarrow> (i32 \<times> sdref) \<times> 'e"
  process_resolve :: "sdref \<Rightarrow> 'e \<Rightarrow> (i32 \<times> resolve_reply list) \<times> 'e"
  DNSServiceGetAddrInfo :: "u32 \<Rightarrow> u32 \<Rightarrow> u32 \<Rightarrow> bytes \<Rightarrow> 'e \<Rightarrow> (i32 \<times> sdref) \<times> 'e"
  process_addrinfo :: "sdref \<Rightarrow> 'e \<Rightarrow> (i32 \<times> addr_reply list) \<times> 'e"
  now :: "'e \<Rightarrow> nat \<times> 'e"
  join_error :: "'e \<Rightarrow> bytes option \<times> 'e"
  str_debug :: "bytes \<Rightarrow> bytes"

definition ref_sock_fd :: "('e, 'x) dns_resolver_scheme \<Rightarrow> sdref \<Rightarrow> 'e os \<Rightarrow> i32 \<times> 'e os" where
  "ref_sock_fd api r os =
     (case DNSServiceRefSockFD api r (env os) of (fd, e) \<Rightarrow> (fd, log_call (RefSockFD r) e os))"

definition ref_deallocate :: "('e, 'x) dns_resolver_scheme \<Rightarrow> sdref \<Rightarrow> 'e os \<Rightarrow> 'e os" where
  "ref_deallocate api r os =
     log_call (RefDeallocate r) (DNSServiceRefDeallocate api r (env os)) os"

subsection \<open>Resolving to host, port and TXT\<close>

record ResolveResult =
  res_host :: "bytes option"
  res_port :: u16
  res_txt :: "TxtRecord list"
  res_error :: i32
  res_got :: bool

definition ResolveResult_default :: ResolveResult where
  "ResolveResult_default =
     \<lparr>res_host = None, res_port = 0, res_txt = [], res_error = 0, res_got = False\<rparr>"

text \<open>The value of \<open>parse_txt_buffer\<close>, which never panics (\<open>parse_txt_buffer_spec\<close>).\<close>

definition parse_txt_records :: "bytes \<Rightarrow> TxtRecord list" where
  "parse_txt_records buf = the (parse_txt_buffer buf)"

lemma parse_txt_records_eq: "parse_txt_buffer buf = Some (parse_txt_records buf)"
  by (simp add: parse_txt_records_def parse_txt_buffer_spec)

definition resolve_callback :: "resolve_reply \<Rightarrow> ResolveResult \<Rightarrow> ResolveResult" where
  "resolve_callback r result =
     (let result = result\<lparr>res_got := True, res_error := rr_error_code r\<rparr> in
      if rr_error_code r \<noteq> NO_ERROR then result
      else
        (let result = result\<lparr>res_host := Some (cstr_to_string (rr_host_target r)),
                             res_port := u16_from_be (rr_port r)\<rparr>
         in case rr_txt_record r of
              None \<Rightarrow> result
            | Some m \<Rightarrow>
                if rr_txt_len r > 0
                then result\<lparr>res_txt := parse_txt_records (take (unat (rr_txt_len r)) m)\<rparr>
                else result))"

definition process_once ::
  "('e, 'x) dns_resolver_scheme \<Rightarrow> i32 \<Rightarrow> sdref \<Rightarrow> i32 \<Rightarrow> ResolveResult \<Rightarrow> 'e os \<Rightarrow>
   (bytes + unit) \<times> ResolveResult \<times> 'e os" where
  "process_once api fd sd timeout_ms result os =
     (case poll api fd POLLIN timeout_ms (env os) of ((rv, revents, errno), e) \<Rightarrow>
        let os = os\<lparr>env := e\<rparr> in
        if sint rv < 0 then (Inl (''poll failed: '' @ strerror api errno), result, os)
        else if rv = 0 then (Inl ''operation timed out'', result, os)
        else
          (case process_resolve api sd (env os) of ((err, replies), e) \<Rightarrow>
             (if err \<noteq> NO_ERROR then Inl ''DNSServiceProcessResult failed'' else Inr (),
              fold resolve_callback replies result,
              log_call (ResolveReplies sd err replies) e os)))"

definition do_resolve ::
  "('e, 'x) dns_resolver_scheme \<Rightarrow> bytes \<Rightarrow> bytes \<Rightarrow> bytes \<Rightarrow> u32 \<Rightarrow> 'e os \<Rightarrow>
   (bytes + (bytes \<times> u16 \<times> TxtRecord list)) \<times> 'e os" where
  "do_resolve api name regtype domain interface os =
     (case cstring name of Inl e \<Rightarrow> (Inl (error_display (str_debug api) e), os)
      | Inr name_c \<Rightarrow>
     (case cstring regtype of Inl e \<Rightarrow> (Inl (error_display (str_debug api) e), os)
      | Inr regtype_c \<Rightarrow>
     (case cstring domain of Inl e \<Rightarrow> (Inl (error_display (str_debug api) e), os)
      | Inr domain_c \<Rightarrow>
     (case DNSServiceResolve api 0 interface name_c regtype_c domain_c (env os) of ((err, sd), e) \<Rightarrow>
        let os = log_call (Resolve (name_c, regtype_c, domain_c, interface) err sd) e os in
        if err \<noteq> NO_ERROR then (Inl (''DNSServiceResolve failed: '' @ show_i32 err), os)
        else
          (case ref_sock_fd api sd os of (fd, os) \<Rightarrow>
          (case process_once api fd sd RESOLVE_TIMEOUT_MS ResolveResult_default os of
             (processed, result, os) \<Rightarrow>
               (let os = ref_deallocate api sd os in
                case processed of
                  Inl msg \<Rightarrow> (Inl msg, os)
                | Inr _ \<Rightarrow>
                    if \<not> res_got result \<or> res_error result \<noteq> NO_ERROR
                    then (Inl (''resolve did not complete (error '' @ show_i32 (res_error result)
                               @ '')''), os)
                    else (Inr ((case res_host result of Some h \<Rightarrow> h | None \<Rightarrow> []),
                               res_port result, res_txt result), os))))))))"

subsection \<open>Resolving a host to its addresses\<close>

record AddrResult =
  addrs :: "IpAddr list"
  addr_done :: bool

definition sockaddr_to_ip :: "sockaddr \<Rightarrow> IpAddr option" where
  "sockaddr_to_ip addr =
     (if sa_family addr = AF_INET then Some (V4 (u32_from_be (s_addr addr)))
      else if sa_family addr = AF_INET6 then Some (ipv6_from_octets (s6_addr addr))
      else None)"

definition getaddr_callback :: "addr_reply \<Rightarrow> AddrResult \<Rightarrow> AddrResult" where
  "getaddr_callback r result =
     (let result =
        (case (if ar_error_code r = NO_ERROR then Option.bind (ar_address r) sockaddr_to_ip else None) of
           Some ip \<Rightarrow> result\<lparr>addrs := addrs result @ [ip]\<rparr>
         | None \<Rightarrow> result)
      in if and (ar_flags r) FLAGS_MORE_COMING = 0 then result\<lparr>addr_done := True\<rparr> else result)"

text \<open>
  One round of the loop of \<open>get_addresses\<close>. \<open>saturating_duration_since\<close> is subtraction of
  naturals; \<open>remaining.as_millis() as i32\<close> truncates to whole milliseconds.
\<close>

definition getaddr_round ::
  "('e, 'x) dns_resolver_scheme \<Rightarrow> i32 \<Rightarrow> sdref \<Rightarrow> nat \<Rightarrow> AddrResult \<times> 'e os \<Rightarrow>
   unit option \<times> AddrResult \<times> 'e os" where
  "getaddr_round api fd sd deadline s =
     (case s of (result, os) \<Rightarrow>
        if addr_done result then (Some (), result, os)
        else
          (case now api (env os) of (t, e) \<Rightarrow>
             let remaining = deadline - t in
             if remaining = 0 then (Some (), result, os\<lparr>env := e\<rparr>)
             else
               (case poll api fd POLLIN (word_of_nat (remaining div 1000000)) e of
                  ((rv, revents, errno), e) \<Rightarrow>
                    if sint rv \<le> 0 then (Some (), result, os\<lparr>env := e\<rparr>)
                    else
                      (case process_addrinfo api sd e of ((err, replies), e) \<Rightarrow>
                         (if err \<noteq> NO_ERROR then Some () else None,
                          fold getaddr_callback replies result,
                          log_call (AddrReplies sd err replies) e os)))))"

definition get_addresses ::
  "nat \<Rightarrow> ('e, 'x) dns_resolver_scheme \<Rightarrow> bytes \<Rightarrow> u32 \<Rightarrow> 'e os \<Rightarrow> (IpAddr list option \<times> 'e os) option" where
  "get_addresses fuel api host interface os =
     (case cstring host of
        Inl _ \<Rightarrow> Some (None, os)
      | Inr host_c \<Rightarrow>
          (case DNSServiceGetAddrInfo api 0 interface 0 host_c (env os) of ((err, sd), e) \<Rightarrow>
             let os = log_call (GetAddrInfo (host_c, interface) err sd) e os in
             if err \<noteq> NO_ERROR then Some (None, os)
             else
               (case ref_sock_fd api sd os of (fd, os) \<Rightarrow>
               (case now api (env os) of (t, e) \<Rightarrow>
                  map_option (\<lambda>(_, result, os). (Some (addrs result), ref_deallocate api sd os))
                    (run_until fuel (getaddr_round api fd sd (t + GETADDR_TIMEOUT_MS * 1000000))
                       (\<lparr>addrs = [], addr_done = False\<rparr>, os\<lparr>env := e\<rparr>))))))"

subsection \<open>Found instances and one-shot resolves\<close>

definition resolved_service ::
  "bytes \<Rightarrow> bytes \<Rightarrow> bytes \<Rightarrow> u32 \<Rightarrow> bytes \<times> u16 \<times> TxtRecord list \<Rightarrow> IpAddr list option \<Rightarrow>
   DiscoveredService" where
  "resolved_service name regtype domain interface resolved addresses =
     (case resolved of (host, port, txt_records) \<Rightarrow>
        \<lparr>ds_name = name, ds_service_type = trim_dot regtype, ds_domain = trim_dot domain,
         ds_host_name = trim_dot host, ds_port = port,
         ds_addresses = (case addresses of Some a \<Rightarrow> a | None \<Rightarrow> []),
         ds_txt_records = txt_records, ds_interface_index = NonZeroU32_new interface\<rparr>)"

text \<open>The job of a found instance: the one message it sends.\<close>

definition resolve_service ::
  "nat \<Rightarrow> ('e, 'x) dns_resolver_scheme \<Rightarrow> resolve_job \<Rightarrow> 'e os \<Rightarrow> (event_result \<times> 'e os) option" where
  "resolve_service fuel api job os =
     (case job of (name, regtype, domain, interface) \<Rightarrow>
     (case do_resolve api name regtype domain interface os of
        (Inl err, os) \<Rightarrow> Some (Inl (ResolveFailed name err), os)
      | (Inr (host, port, txt), os) \<Rightarrow>
          map_option (\<lambda>(addresses, os).
              (Inr (Found (resolved_service name regtype domain interface (host, port, txt) addresses)),
               os))
            (get_addresses fuel api host interface os)))"

text \<open>
  \<open>resolve_once\<close> runs on a blocking task. A blocking task that has started is not cancelled, and
  nothing in this one panics, so a \<open>JoinError\<close> means that it did not start.
\<close>

definition mac_resolve_once ::
  "nat \<Rightarrow> ('e, 'x) dns_resolver_scheme \<Rightarrow> ('e os) resolve_once" where
  "mac_resolve_once fuel api name service_type domain interface_index os =
     (let interface = (case interface_index of Some i \<Rightarrow> i | None \<Rightarrow> 0) in
      case join_error api (env os) of
        (Some err, e) \<Rightarrow>
          Some (Inl (ResolveFailed [] (''resolve task failed: '' @ err)), os\<lparr>env := e\<rparr>)
      | (None, e) \<Rightarrow>
          (case do_resolve api name service_type domain interface (os\<lparr>env := e\<rparr>) of
             (Inl err, os) \<Rightarrow> Some (Inl (ResolveFailed name err), os)
           | (Inr (host, port, txt), os) \<Rightarrow>
               map_option (\<lambda>(addresses, os).
                   (Inr (resolved_service name service_type domain interface (host, port, txt)
                      addresses), os))
                 (get_addresses fuel api host interface os)))"

subsection \<open>What the callbacks collect\<close>

lemma resolve_callback_last:
  "res_got (resolve_callback r s)" "res_error (resolve_callback r s) = rr_error_code r"
  "rr_error_code r = NO_ERROR \<Longrightarrow> res_host (resolve_callback r s) = Some (cstr_to_string (rr_host_target r))"
  "rr_error_code r = NO_ERROR \<Longrightarrow> res_port (resolve_callback r s) = u16_from_be (rr_port r)"
  by (simp_all add: resolve_callback_def Let_def split: option.splits)

text \<open>The TXT records are those of the last reply that has any; other replies leave them.\<close>

definition reply_txt :: "resolve_reply \<Rightarrow> bytes option" where
  "reply_txt r =
     (if rr_error_code r = NO_ERROR \<and> rr_txt_len r > 0
      then map_option (take (unat (rr_txt_len r))) (rr_txt_record r) else None)"

definition last_txt :: "resolve_reply list \<Rightarrow> TxtRecord list" where
  "last_txt rs =
     (case rev (List.map_filter reply_txt rs) of [] \<Rightarrow> [] | buf # _ \<Rightarrow> parse_txt_records buf)"

lemma map_filter_snoc:
  "List.map_filter f (xs @ [x]) = List.map_filter f xs @ (case f x of None \<Rightarrow> [] | Some y \<Rightarrow> [y])"
  by (simp add: List.map_filter_def split: option.split)

lemma resolve_replies_txt:
  "res_txt (fold resolve_callback rs ResolveResult_default) = last_txt rs"
proof (induction rs rule: rev_induct)
  case (snoc r rs)
  have "res_txt (resolve_callback r s) =
      (case reply_txt r of None \<Rightarrow> res_txt s | Some buf \<Rightarrow> parse_txt_records buf)" for s
    by (simp add: resolve_callback_def reply_txt_def Let_def split: option.split)
  with snoc show ?case by (simp add: last_txt_def map_filter_snoc split: option.split)
qed (simp add: last_txt_def map_filter_simps ResolveResult_default_def)

lemma resolve_replies_last:
  assumes "res_got (fold resolve_callback rs ResolveResult_default)"
    and "res_error (fold resolve_callback rs ResolveResult_default) = NO_ERROR"
  shows "rs \<noteq> [] \<and> rr_error_code (last rs) = NO_ERROR \<and>
    res_host (fold resolve_callback rs ResolveResult_default) =
      Some (cstr_to_string (rr_host_target (last rs))) \<and>
    res_port (fold resolve_callback rs ResolveResult_default) = u16_from_be (rr_port (last rs))"
  using assms
proof (cases rs rule: rev_cases)
  case (snoc ys y)
  then show ?thesis using assms by (simp add: resolve_callback_last)
qed (simp add: ResolveResult_default_def)

text \<open>A single reply with a TXT record decodes to the entries the record frames.\<close>

lemma resolve_single_reply_txt:
  assumes "rr_error_code r = NO_ERROR" and "rr_txt_record r = Some (txt @ junk)"
    and "length txt = unat (rr_txt_len r)" and "0 < rr_txt_len r"
  shows "parse_txt_buffer txt = Some (res_txt (resolve_callback r s))"
  using assms by (simp add: resolve_callback_def parse_txt_records_eq)

definition reply_address :: "addr_reply \<Rightarrow> IpAddr option" where
  "reply_address r =
     (if ar_error_code r = NO_ERROR then Option.bind (ar_address r) sockaddr_to_ip else None)"

definition last_coming :: "addr_reply \<Rightarrow> bool" where
  "last_coming r \<longleftrightarrow> and (ar_flags r) FLAGS_MORE_COMING = 0"

lemma getaddr_replies:
  "addrs (fold getaddr_callback rs s) = addrs s @ List.map_filter reply_address rs \<and>
   (addr_done (fold getaddr_callback rs s) \<longleftrightarrow> addr_done s \<or> list_ex last_coming rs)"
proof (induction rs arbitrary: s)
  case (Cons r rs)
  then show ?case
    by (auto simp: getaddr_callback_def reply_address_def last_coming_def map_filter_simps Let_def
        split: option.splits)
qed (simp add: map_filter_simps)

text \<open>The octets of a \<open>sockaddr\<close> as they lie in memory.\<close>

definition sockaddr_octets :: "sockaddr \<Rightarrow> bytes \<Rightarrow> bool" where
  "sockaddr_octets a bs \<longleftrightarrow>
     (if sa_family a = AF_INET
      then \<exists>b0 b1 b2 b3. bs = [b0, b1, b2, b3] \<and> s_addr a = u32_from_le_bytes b0 b1 b2 b3
      else sa_family a = AF_INET6 \<and> length bs = 16 \<and> s6_addr a = bs)"

lemma sockaddr_to_ip_octets:
  "sockaddr_octets a bs \<Longrightarrow> \<exists>ip. sockaddr_to_ip a = Some ip \<and> ip_octets ip = bs"
  by (auto simp: sockaddr_octets_def sockaddr_to_ip_def u32_network_bytes ip_octets_v6
      AF_INET_def AF_INET6_def split: if_splits)

subsection \<open>References are released exactly once\<close>

text \<open>
  The rules for the references of resolve and address operations: one at a time, used only while
  it is live, released exactly once.
\<close>

fun ref_monitor1 :: "ffi_call \<Rightarrow> sdref option \<Rightarrow> sdref option option" where
  "ref_monitor1 (Resolve q err r) None = Some (if err = NO_ERROR then Some r else None)"
| "ref_monitor1 (GetAddrInfo q err r) None = Some (if err = NO_ERROR then Some r else None)"
| "ref_monitor1 (RefSockFD p) (Some r) = (if p = r then Some (Some r) else None)"
| "ref_monitor1 (ResolveReplies p err rs) (Some r) = (if p = r then Some (Some r) else None)"
| "ref_monitor1 (AddrReplies p err as) (Some r) = (if p = r then Some (Some r) else None)"
| "ref_monitor1 (RefDeallocate p) (Some r) = (if p = r then Some None else None)"
| "ref_monitor1 _ _ = None"

fun ref_monitor :: "ffi_call list \<Rightarrow> sdref option \<Rightarrow> sdref option option" where
  "ref_monitor [] s = Some s"
| "ref_monitor (c # cs) s = (case ref_monitor1 c s of None \<Rightarrow> None | Some s' \<Rightarrow> ref_monitor cs s')"

definition live_ref :: "'e os \<Rightarrow> sdref option \<Rightarrow> bool" where
  "live_ref os r \<longleftrightarrow> ref_monitor (calls os) None = Some r"

lemma ref_monitor_snoc:
  "ref_monitor cs s = Some s' \<Longrightarrow> ref_monitor (cs @ [c]) s = ref_monitor1 c s'"
  by (induction cs arbitrary: s) (auto split: option.splits)

lemma live_ref_log [simp]:
  "live_ref os r \<Longrightarrow> live_ref (log_call c e os) r' \<longleftrightarrow> ref_monitor1 c r = Some r'"
  by (simp add: live_ref_def ref_monitor_snoc)

lemma live_ref_env [simp]: "live_ref (os\<lparr>env := e\<rparr>) r \<longleftrightarrow> live_ref os r"
  by (simp add: live_ref_def)

lemma process_once_live:
  "live_ref os (Some sd) \<Longrightarrow> process_once api fd sd t res os = (r, res', os') \<Longrightarrow> live_ref os' (Some sd)"
  by (auto simp: process_once_def Let_def split: prod.splits if_splits)

lemma do_resolve_live:
  assumes "live_ref os None" and "do_resolve api n t d i os = (r, os')"
  shows "live_ref os' None"
  using assms
  by (fastforce simp: do_resolve_def ref_sock_fd_def ref_deallocate_def Let_def
      split: sum.splits prod.splits if_splits dest: process_once_live [rotated])

lemma getaddr_round_live:
  "live_ref (snd s) (Some sd) \<Longrightarrow> getaddr_round api fd sd dl s = (r, s') \<Longrightarrow> live_ref (snd s') (Some sd)"
  by (auto simp: getaddr_round_def Let_def split: prod.splits if_splits)

interpretation addr_loop: until_loop "getaddr_round api fd sd dl"
  "\<lambda>s. live_ref (snd s) (Some sd)" "\<lambda>r s. live_ref (snd s) (Some sd)" for api fd sd dl
  by unfold_locales (rule getaddr_round_live; assumption)+

lemma get_addresses_live:
  assumes "live_ref os None" and "get_addresses fuel api h i os = Some (r, os')"
  shows "live_ref os' None"
  using assms
  by (auto simp: get_addresses_def ref_sock_fd_def ref_deallocate_def Let_def
      split: sum.splits prod.splits if_splits dest!: addr_loop.run_post)

lemma resolve_service_live:
  "live_ref os None \<Longrightarrow> resolve_service fuel api job os = Some (m, os') \<Longrightarrow> live_ref os' None"
  by (auto simp: resolve_service_def split: prod.splits sum.splits
      dest: do_resolve_live get_addresses_live)

subsection \<open>What the address lookup collects\<close>

text \<open>
  A lookup that was started with the calls \<open>cs\<close> and has been dispatched these batches of replies, each
  with the error code of its dispatch: it has the addresses of all of them, in order, and went on
  after a batch only if that one succeeded and announced more.
\<close>

definition collected ::
  "ffi_call list \<Rightarrow> sdref \<Rightarrow> (i32 \<times> addr_reply list) list \<Rightarrow> AddrResult \<times> 'e os \<Rightarrow> bool" where
  "collected cs sd batches s \<longleftrightarrow>
     calls (snd s) = cs @ map (\<lambda>(err, rs). AddrReplies sd err rs) batches \<and>
     addrs (fst s) = concat (map (\<lambda>(err, rs). List.map_filter reply_address rs) batches) \<and>
     addr_done (fst s) = list_ex (\<lambda>(err, rs). list_ex last_coming rs) batches \<and>
     list_all (\<lambda>(err, rs). err = NO_ERROR \<and> \<not> list_ex last_coming rs) (butlast batches)"

lemma getaddr_round_collects:
  assumes "collected cs sd batches s" and "list_all (\<lambda>(err, rs). err = NO_ERROR) batches"
    and "getaddr_round api fd sd dl s = (r, s')"
  obtains (same) "collected cs sd batches s'" and "r = Some ()"
  | (more) err rs where "collected cs sd (batches @ [(err, rs)]) s'"
      and "r = None \<longleftrightarrow> err = NO_ERROR"
proof -
  obtain res os where s: "s = (res, os)" by (cases s)
  obtain t e1 where t: "now api (env os) = (t, e1)" by fastforce
  obtain rv revents errno e2 where
    p: "poll api fd POLLIN (word_of_nat ((dl - t) div 1000000)) e1 = ((rv, revents, errno), e2)"
    by (metis prod_cases3 surj_pair)
  obtain err rs e3 where q: "process_addrinfo api sd e2 = ((err, rs), e3)" by (metis surj_pair)
  show ?thesis
  proof (cases "addr_done res \<or> dl - t = 0 \<or> sint rv \<le> 0")
    case True
    then have "r = Some () \<and> fst s' = res \<and> calls (snd s') = calls os"
      using assms(3) by (auto simp: s getaddr_round_def t p Let_def split: if_splits)
    with assms(1) show ?thesis by (intro same) (simp_all add: collected_def s)
  next
    case False
    then have r: "r = (if err \<noteq> NO_ERROR then Some () else None)"
      and s': "s' = (fold getaddr_callback rs res, log_call (AddrReplies sd err rs) e3 os)"
      using assms(3) by (auto simp: s getaddr_round_def t p q Let_def)
    have "list_all (\<lambda>(err, rs). err = NO_ERROR \<and> \<not> list_ex last_coming rs) batches"
      using assms(1,2) False by (auto simp: collected_def s list_all_iff list_ex_iff)
    with assms(1) getaddr_replies [of rs res] r show ?thesis
      by (intro more [of err rs]) (auto simp: collected_def s s' butlast_append)
  qed
qed

interpretation collecting: until_loop "getaddr_round api fd sd dl"
  "\<lambda>s. \<exists>batches. collected cs sd batches s \<and> list_all (\<lambda>(err, rs). err = NO_ERROR) batches"
  "\<lambda>r s. \<exists>batches. collected cs sd batches s" for api fd sd dl cs
proof unfold_locales
  fix s s'
  assume "\<exists>batches. collected cs sd batches s \<and> list_all (\<lambda>(err, rs). err = NO_ERROR) batches"
    and run: "getaddr_round api fd sd dl s = (None, s')"
  then obtain batches where b: "collected cs sd batches s" "list_all (\<lambda>(err, rs). err = NO_ERROR) batches"
    by blast
  from b run show "\<exists>batches. collected cs sd batches s' \<and> list_all (\<lambda>(err, rs). err = NO_ERROR) batches"
    by (cases rule: getaddr_round_collects) (use b in auto)
next
  fix s r s'
  assume "\<exists>batches. collected cs sd batches s \<and> list_all (\<lambda>(err, rs). err = NO_ERROR) batches"
    and "getaddr_round api fd sd dl s = (Some r, s')"
  then show "\<exists>batches. collected cs sd batches s'" by (blast elim: getaddr_round_collects)
qed

lemma get_addresses_run:
  assumes "get_addresses fuel api h i os = Some (r, os')"
  obtains (refused) "r = None" and "NUL \<in> set h \<and> calls os' = calls os \<or>
      (\<exists>err sd. err \<noteq> NO_ERROR \<and> calls os' = calls os @ [GetAddrInfo (h, i) err sd])"
  | (looked) sd batches where
      "calls os' = calls os @ [GetAddrInfo (h, i) NO_ERROR sd, RefSockFD sd] @
         map (\<lambda>(err, rs). AddrReplies sd err rs) batches @ [RefDeallocate sd]"
      and "r = Some (concat (map (\<lambda>(err, rs). List.map_filter reply_address rs) batches))"
      and "list_all (\<lambda>(err, rs). err = NO_ERROR \<and> \<not> list_ex last_coming rs) (butlast batches)"
proof (cases "\<exists>sd e fd e2 t e3. DNSServiceGetAddrInfo api 0 i 0 h (env os) = ((NO_ERROR, sd), e) \<and> cstring h = Inr h")
  case False
  with assms have "r = None \<and> (NUL \<in> set h \<and> calls os' = calls os \<or>
      (\<exists>err sd. err \<noteq> NO_ERROR \<and> calls os' = calls os @ [GetAddrInfo (h, i) err sd]))"
    by (cases "NUL \<in> set h") (auto simp: get_addresses_def cstring_Inr cstring_no_nul Let_def
        split: sum.splits prod.splits if_splits)
  then show ?thesis using refused by blast
next
  case True
  then obtain sd e where call: "DNSServiceGetAddrInfo api 0 i 0 h (env os) = ((NO_ERROR, sd), e)"
    and h: "cstring h = Inr h" by blast
  define os1 where "os1 = log_call (GetAddrInfo (h, i) NO_ERROR sd) e os"
  obtain fd os2 where fd: "ref_sock_fd api sd os1 = (fd, os2)" by fastforce
  obtain t e3 where t: "now api (env os2) = (t, e3)" by fastforce
  from assms obtain res os3 where
    run: "run_until fuel (getaddr_round api fd sd (t + GETADDR_TIMEOUT_MS * 1000000))
      (\<lparr>addrs = [], addr_done = False\<rparr>, os2\<lparr>env := e3\<rparr>) = Some ((), res, os3)"
    and r: "r = Some (addrs res)" "os' = ref_deallocate api sd os3"
    by (auto simp: get_addresses_def h call Let_def fd t simp flip: os1_def)
  have cs: "calls os2 = calls os @ [GetAddrInfo (h, i) NO_ERROR sd, RefSockFD sd]"
    using fd by (auto simp: ref_sock_fd_def os1_def split: prod.splits)
  have "collected (calls os2) sd [] (\<lparr>addrs = [], addr_done = False\<rparr>, os2\<lparr>env := e3\<rparr>)"
    by (simp add: collected_def)
  with collecting.run_post [OF run, of "calls os2"] obtain batches where
    "collected (calls os2) sd batches (res, os3)" by fastforce
  then show ?thesis
    by (intro looked [of sd batches]) (simp_all add: r cs collected_def ref_deallocate_def)
qed

subsection \<open>The address lookup ends\<close>

text \<open>
  The clock runs: read again and again, with a wait for a reply and its dispatch in between, it passes
  every bound. \<open>waits\<close> are the timeouts of the polls, the deadline less each reading.
\<close>

fun after_waits :: "('e, 'x) dns_resolver_scheme \<Rightarrow> i32 \<Rightarrow> sdref \<Rightarrow> (nat \<Rightarrow> i32) \<Rightarrow> nat \<Rightarrow> 'e \<Rightarrow> 'e" where
  "after_waits api fd sd waits 0 e = e"
| "after_waits api fd sd waits (Suc k) e =
     (case now api (after_waits api fd sd waits k e) of (t, e) \<Rightarrow>
        snd (process_addrinfo api sd (snd (poll api fd POLLIN (waits t) e))))"

definition clock_runs :: "('e, 'x) dns_resolver_scheme \<Rightarrow> bool" where
  "clock_runs api \<longleftrightarrow> (\<forall>fd sd waits e bound. \<exists>k. bound \<le> fst (now api (after_waits api fd sd waits k e)))"

lemma getaddr_goes_round:
  assumes "getaddr_round api fd sd dl s = (None, s')"
  shows "env (snd s') =
    (case now api (env (snd s)) of (t, e) \<Rightarrow>
       snd (process_addrinfo api sd (snd (poll api fd POLLIN (word_of_nat ((dl - t) div 1000000)) e))))"
  using assms by (auto simp: getaddr_round_def Let_def split: prod.splits if_splits)

lemma getaddr_loop_ends:
  assumes "clock_runs api"
  shows "\<exists>x F. \<forall>n \<ge> F. run_until n (getaddr_round api fd sd dl) s = Some x"
proof -
  let ?body = "getaddr_round api fd sd dl"
  define waits where "waits = (\<lambda>t. word_of_nat ((dl - t) div 1000000) :: i32)"
  define at where "at k = ((\<lambda>s. snd (?body s)) ^^ k) s" for k
  have "\<exists>k. fst (?body (at k)) \<noteq> None"
  proof (rule ccontr)
    assume none: "\<not> (\<exists>k. fst (?body (at k)) \<noteq> None)"
    have round: "?body (at k) = (None, at (Suc k))" for k
    proof -
      have "fst (?body (at k)) = None" using none by blast
      then show ?thesis by (simp add: at_def prod_eq_iff)
    qed
    have env: "env (snd (at k)) = after_waits api fd sd waits k (env (snd s))" for k
    proof (induction k)
      case (Suc k)
      with getaddr_goes_round [OF round [of k]] show ?case by (simp add: waits_def)
    qed (simp add: at_def)
    obtain k where "dl \<le> fst (now api (after_waits api fd sd waits k (env (snd s))))"
      using assms unfolding clock_runs_def by blast
    then have "fst (?body (at k)) \<noteq> None"
      by (cases "at k") (auto simp: getaddr_round_def Let_def simp flip: env split: prod.splits)
    with none show False by blast
  qed
  then obtain k where "fst (?body (at k)) \<noteq> None" by blast
  then obtain x where "run_until (Suc k) ?body s = Some x"
    using run_until_enough [of ?body k s] unfolding at_def by blast
  then show ?thesis using run_until_more_fuel [of "Suc k" ?body s x] by blast
qed

lemma get_addresses_returns:
  assumes "clock_runs api"
  shows "\<exists>x F. \<forall>fuel \<ge> F. get_addresses fuel api h i os = Some x"
proof (cases "cstring h")
  case (Inr hc)
  obtain err sd e where call: "DNSServiceGetAddrInfo api 0 i 0 hc (env os) = ((err, sd), e)"
    by (metis surj_pair)
  obtain fd os2 where fd: "ref_sock_fd api sd (log_call (GetAddrInfo (hc, i) err sd) e os) = (fd, os2)"
    by fastforce
  obtain t e3 where t: "now api (env os2) = (t, e3)" by fastforce
  obtain x F where "\<forall>n \<ge> F. run_until n (getaddr_round api fd sd (t + GETADDR_TIMEOUT_MS * 1000000))
      (\<lparr>addrs = [], addr_done = False\<rparr>, os2\<lparr>env := e3\<rparr>) = Some x"
    using getaddr_loop_ends [OF assms] by blast
  then have "\<exists>y. \<forall>fuel \<ge> F. get_addresses fuel api h i os = Some y"
    using fd by (cases "err = NO_ERROR"; cases x) (simp_all add: get_addresses_def Inr call t Let_def)
  then show ?thesis by blast
qed (simp add: get_addresses_def)

subsection \<open>The outcome of a resolve\<close>

text \<open>
  A resolve that succeeds made these calls and no others: it asked for the instance on its interface,
  was dispatched some replies once, and gave the reference back.
\<close>

lemma do_resolve_run:
  assumes "do_resolve api n t d i os = (Inr (h, p, tr), os')"
  obtains sd rs where "calls os' = calls os @ [Resolve (n, t, d, i) NO_ERROR sd, RefSockFD sd,
      ResolveReplies sd NO_ERROR rs, RefDeallocate sd]"
    and "rs \<noteq> []" and "rr_error_code (last rs) = NO_ERROR"
    and "h = cstr_to_string (rr_host_target (last rs))" and "p = u16_from_be (rr_port (last rs))"
    and "tr = last_txt rs"
proof -
  obtain sd rs where run: "calls os' = calls os @ [Resolve (n, t, d, i) NO_ERROR sd, RefSockFD sd,
      ResolveReplies sd NO_ERROR rs, RefDeallocate sd]"
    and res: "res_got (fold resolve_callback rs ResolveResult_default)"
      "res_error (fold resolve_callback rs ResolveResult_default) = NO_ERROR"
    and h: "h = (case res_host (fold resolve_callback rs ResolveResult_default) of
        Some h \<Rightarrow> h | None \<Rightarrow> [])"
    and p: "p = res_port (fold resolve_callback rs ResolveResult_default)"
    and tr: "tr = res_txt (fold resolve_callback rs ResolveResult_default)"
    using assms
    by (auto simp: do_resolve_def process_once_def ref_sock_fd_def ref_deallocate_def Let_def cstring_Inr
        split: sum.splits prod.splits if_splits)
  from resolve_replies_last [OF res] run show ?thesis
    by (intro that [of sd rs]) (simp_all add: h p tr resolve_replies_txt)
qed

text \<open>
  A resolve that fails has a reason, which its calls show: an argument is no C string, the daemon
  refused the request, no reply came in time, or what came was an error or nothing.
\<close>

definition resolve_fails ::
  "('e, 'x) dns_resolver_scheme \<Rightarrow> bytes \<Rightarrow> bytes \<Rightarrow> bytes \<Rightarrow> u32 \<Rightarrow> ffi_call list \<Rightarrow> bool" where
  "resolve_fails api n t d i cs \<longleftrightarrow>
     cs = [] \<and> NUL \<in> set (n @ t @ d) \<or>
     (\<exists>err sd. cs = [Resolve (n, t, d, i) err sd] \<and> err \<noteq> NO_ERROR) \<or>
     (\<exists>sd fd e. cs = [Resolve (n, t, d, i) NO_ERROR sd, RefSockFD sd, RefDeallocate sd] \<and>
        sint (fst (fst (poll api fd POLLIN RESOLVE_TIMEOUT_MS e))) \<le> 0) \<or>
     (\<exists>sd err rs. cs = [Resolve (n, t, d, i) NO_ERROR sd, RefSockFD sd, ResolveReplies sd err rs,
        RefDeallocate sd] \<and> (err \<noteq> NO_ERROR \<or> rs = [] \<or> rr_error_code (last rs) \<noteq> NO_ERROR))"

lemma resolve_replies_end:
  assumes "rs \<noteq> []"
  shows "res_got (fold resolve_callback rs s) \<and> res_error (fold resolve_callback rs s) = rr_error_code (last rs)"
proof -
  from assms obtain ys y where "rs = ys @ [y]" by (cases rs rule: rev_cases) auto
  then show ?thesis by (simp add: resolve_callback_last)
qed

lemma process_once_run:
  assumes "process_once api fd sd timeout result os = (p, result', os')"
  obtains (quiet) msg where "p = Inl msg" and "sint (fst (fst (poll api fd POLLIN timeout (env os)))) \<le> 0"
      and "calls os' = calls os"
  | (dispatched) err rs where "calls os' = calls os @ [ResolveReplies sd err rs]"
      and "result' = fold resolve_callback rs result" and "p = Inr () \<Longrightarrow> err = NO_ERROR"
      and "\<And>msg. p = Inl msg \<Longrightarrow> err \<noteq> NO_ERROR"
  using assms by (fastforce simp: process_once_def Let_def split: prod.splits if_splits)

lemma do_resolve_fails:
  assumes "do_resolve api n t d i os = (Inl m, os')"
  shows "\<exists>cs. calls os' = calls os @ cs \<and> resolve_fails api n t d i cs"
proof (cases "NUL \<in> set (n @ t @ d)")
  case True
  with assms have "calls os' = calls os"
    by (auto simp: do_resolve_def Let_def cstring_Inr split: sum.splits prod.splits if_splits)
  with True show ?thesis by (intro exI [of _ "[]"]) (simp add: resolve_fails_def)
next
  case False
  then have c: "cstring n = Inr n" "cstring t = Inr t" "cstring d = Inr d" by (simp_all add: cstring_Inr)
  obtain err sd e where call: "DNSServiceResolve api 0 i n t d (env os) = ((err, sd), e)" by (metis surj_pair)
  define os1 where "os1 = log_call (Resolve (n, t, d, i) err sd) e os"
  obtain fd os2 where fd: "ref_sock_fd api sd os1 = (fd, os2)" by fastforce
  have cs: "calls os2 = calls os @ [Resolve (n, t, d, i) err sd, RefSockFD sd]"
    using fd by (auto simp: ref_sock_fd_def os1_def split: prod.splits)
  obtain p res os3 where run: "process_once api fd sd RESOLVE_TIMEOUT_MS ResolveResult_default os2 = (p, res, os3)"
    by (metis surj_pair)
  show ?thesis
  proof (cases "err = NO_ERROR")
    case False
    with assms c call have "os' = os1" by (simp add: do_resolve_def Let_def flip: os1_def)
    with False show ?thesis by (simp add: os1_def resolve_fails_def)
  next
    case True
    have os': "calls os' = calls os3 @ [RefDeallocate sd]"
      and bad: "p = Inr () \<Longrightarrow> \<not> res_got res \<or> res_error res \<noteq> NO_ERROR"
      using assms c call fd run unfolding os1_def True
      by (auto simp: do_resolve_def Let_def ref_deallocate_def split: sum.splits if_splits)
    from run show ?thesis
    proof (cases rule: process_once_run)
      case (quiet msg)
      with os' cs True show ?thesis by (auto simp: resolve_fails_def)
    next
      case (dispatched e2 rs)
      have "e2 \<noteq> NO_ERROR \<or> rs = [] \<or> rr_error_code (last rs) \<noteq> NO_ERROR"
        using dispatched bad resolve_replies_end [of rs ResolveResult_default] by (cases p) auto
      with dispatched os' cs True show ?thesis by (auto simp: resolve_fails_def)
    qed
  qed
qed

lemma do_resolve_ok:
  assumes "do_resolve api n t d i os = (Inr (h, p, tr), os')"
  shows "utf8_valid h" and "\<forall>r \<in> set tr. utf8_valid (txt_key r)"
proof -
  obtain sd rs where "h = cstr_to_string (rr_host_target (last rs))" and tr: "tr = last_txt rs"
    using assms by (rule do_resolve_run)
  then show "utf8_valid h" by simp
  show "\<forall>r \<in> set tr. utf8_valid (txt_key r)"
    using parse_txt_buffer_keys [OF parse_txt_records_eq]
    by (auto simp: tr last_txt_def split: list.splits)
qed

lemma resolved_service_ok:
  "utf8_valid n \<Longrightarrow> utf8_valid t \<Longrightarrow> utf8_valid d \<Longrightarrow> utf8_valid h \<Longrightarrow>
   \<forall>r \<in> set tr. utf8_valid (txt_key r) \<Longrightarrow>
   service_ok (resolved_service n t d i (h, p, tr) a)"
  by (simp add: resolved_service_def service_ok_def trim_dot_valid)

lemma resolve_service_message:
  assumes "resolve_service fuel api (n, t, d, i) os = Some (m, os')"
  obtains (failed) err where "m = Inl (ResolveFailed n err)"
  | (found) h p tr a where "m = Inr (Found (resolved_service n t d i (h, p, tr) a))"
      and "utf8_valid h" and "\<forall>r \<in> set tr. utf8_valid (txt_key r)"
proof -
  show ?thesis
  proof (cases "do_resolve api n t d i os")
    case (Pair r os1)
    show ?thesis
    proof (cases r)
      case (Inl err)
      with Pair assms have "m = Inl (ResolveFailed n err)" by (simp add: resolve_service_def)
      then show ?thesis by (rule failed)
    next
      case (Inr x)
      obtain h p tr where x: "x = (h, p, tr)" by (cases x)
      note ok = do_resolve_ok(1,2) [of api n t d i os h p tr os1]
      from Pair Inr x assms ok show ?thesis
        by (auto simp: resolve_service_def intro: found)
    qed
  qed
qed

lemma resolve_service_reports:
  assumes "clock_runs api"
  shows "\<exists>F m os'. \<forall>fuel \<ge> F. resolve_service fuel api (n, t, d, i) os = Some (m, os') \<and>
    (case do_resolve api n t d i os of
       (Inl err, os1) \<Rightarrow> m = Inl (ResolveFailed n err) \<and> os' = os1
     | (Inr (h, p, tr), os1) \<Rightarrow>
         (\<exists>a. get_addresses fuel api h i os1 = Some (a, os') \<and>
            m = Inr (Found (resolved_service n t d i (h, p, tr) a))))"
proof -
  obtain r os1 where run: "do_resolve api n t d i os = (r, os1)" by fastforce
  show ?thesis
  proof (cases r)
    case (Inl err)
    then show ?thesis by (simp add: resolve_service_def run)
  next
    case (Inr x)
    obtain h p tr where x: "x = (h, p, tr)" by (cases x)
    obtain a os' F where "\<forall>fuel \<ge> F. get_addresses fuel api h i os1 = Some (a, os')"
      using get_addresses_returns [OF assms, of h i os1] by auto
    then show ?thesis
      by (intro exI [of _ F] exI [of _ "Inr (Found (resolved_service n t d i (h, p, tr) a))"] exI [of _ os'])
         (simp add: resolve_service_def run Inr x)
  qed
qed

lemma resolve_service_event_ok:
  "job_ok job \<Longrightarrow> resolve_service fuel api job os = Some (m, os') \<Longrightarrow> event_ok m"
  by (cases job) (auto elim!: resolve_service_message simp: resolved_service_ok)

text \<open>
  The calls of a lookup of a host and the addresses it gives: those of all the replies, in order, or
  none when the host is no C string or the daemon refused the request.
\<close>

definition host_lookup :: "bytes \<Rightarrow> u32 \<Rightarrow> ffi_call list \<Rightarrow> IpAddr list \<Rightarrow> bool" where
  "host_lookup h i cs as \<longleftrightarrow>
     cs = [] \<and> NUL \<in> set h \<and> as = [] \<or>
     (\<exists>err sd. cs = [GetAddrInfo (h, i) err sd] \<and> err \<noteq> NO_ERROR \<and> as = []) \<or>
     (\<exists>sd batches. cs = [GetAddrInfo (h, i) NO_ERROR sd, RefSockFD sd] @
        map (\<lambda>(err, rs). AddrReplies sd err rs) batches @ [RefDeallocate sd] \<and>
      as = concat (map (\<lambda>(err, rs). List.map_filter reply_address rs) batches))"

lemma get_addresses_lookup:
  assumes "get_addresses fuel api h i os = Some (a, os')"
  obtains cs where "calls os' = calls os @ cs" and "host_lookup h i cs (case a of Some as \<Rightarrow> as | None \<Rightarrow> [])"
  using assms by (cases rule: get_addresses_run) (auto simp: host_lookup_def)

text \<open>
  A one-shot resolve that succeeds asked the daemon for that instance, on the requested interface or
  on all, and for the addresses of its host; the service has the data of the replies. One that
  fails names the instance, and its calls show that the resolve failed; or its blocking task did not
  run, and it made no call.
\<close>

definition mac_answers ::
  "('e, 'x) dns_resolver_scheme \<Rightarrow> bytes \<Rightarrow> bytes \<Rightarrow> bytes \<Rightarrow> u32 option \<Rightarrow> 'e os \<Rightarrow>
   resolve_result \<Rightarrow> 'e os \<Rightarrow> bool" where
  "mac_answers api n t d index os r os' \<longleftrightarrow>
     (let i = (case index of Some i \<Rightarrow> i | None \<Rightarrow> 0) in
      case r of
        Inl err \<Rightarrow>
          (\<exists>m cs. err = ResolveFailed n m \<and> calls os' = calls os @ cs \<and> resolve_fails api n t d i cs) \<or>
          (\<exists>m. err = ResolveFailed [] (''resolve task failed: '' @ m) \<and>
             fst (join_error api (env os)) = Some m \<and> calls os' = calls os)
      | Inr s \<Rightarrow>
          \<exists>sd rs host cs. calls os' = calls os @ [Resolve (n, t, d, i) NO_ERROR sd, RefSockFD sd,
             ResolveReplies sd NO_ERROR rs, RefDeallocate sd] @ cs \<and>
           rs \<noteq> [] \<and> rr_error_code (last rs) = NO_ERROR \<and> host = cstr_to_string (rr_host_target (last rs)) \<and>
           ds_name s = n \<and> ds_service_type s = trim_dot t \<and> ds_domain s = trim_dot d \<and>
           ds_host_name s = trim_dot host \<and> ds_port s = u16_from_be (rr_port (last rs)) \<and>
           ds_txt_records s = last_txt rs \<and> ds_interface_index s = NonZeroU32_new i \<and>
           host_lookup host i cs (ds_addresses s))"

lemma mac_resolve_once_answers:
  assumes "mac_resolve_once fuel api n t d index os = Some (r, os')"
  shows "mac_answers api n t d index os r os'"
proof -
  define i where "i = (case index of Some i \<Rightarrow> i | None \<Rightarrow> 0)"
  obtain je e where je: "join_error api (env os) = (je, e)" by fastforce
  obtain q os1 where q: "do_resolve api n t d i (os\<lparr>env := e\<rparr>) = (q, os1)" by fastforce
  show ?thesis
  proof (cases je)
    case (Some m)
    with assms je show ?thesis by (auto simp: mac_resolve_once_def mac_answers_def Let_def)
  next
    case None
    show ?thesis
    proof (cases q)
      case (Inl m)
      with assms je q None have r: "r = Inl (ResolveFailed n m)" "os' = os1"
        by (simp_all add: mac_resolve_once_def Let_def flip: i_def)
      from do_resolve_fails [OF q [unfolded Inl]] show ?thesis
        by (simp add: mac_answers_def Let_def r flip: i_def)
    next
      case (Inr x)
      obtain host p tr where x: "x = (host, p, tr)" by (cases x)
      obtain a where a: "get_addresses fuel api host i os1 = Some (a, os')"
        and r: "r = Inr (resolved_service n t d i (host, p, tr) a)"
        using assms je q x None Inr by (auto simp: mac_resolve_once_def Let_def simp flip: i_def)
      obtain sd rs where run: "calls os1 = calls os @ [Resolve (n, t, d, i) NO_ERROR sd, RefSockFD sd,
          ResolveReplies sd NO_ERROR rs, RefDeallocate sd]"
        and rs: "rs \<noteq> []" "rr_error_code (last rs) = NO_ERROR"
          "host = cstr_to_string (rr_host_target (last rs))" "p = u16_from_be (rr_port (last rs))" "tr = last_txt rs"
        using q [unfolded Inr x] by (rule do_resolve_run) auto
      from a obtain cs where cs: "calls os' = calls os1 @ cs"
        "host_lookup host i cs (case a of Some as \<Rightarrow> as | None \<Rightarrow> [])"
        by (rule get_addresses_lookup)
      show ?thesis
        unfolding mac_answers_def Let_def i_def [symmetric] r sum.case
        by (intro exI [of _ sd] exI [of _ rs] exI [of _ host] exI [of _ cs])
           (use run rs cs in \<open>simp add: resolved_service_def\<close>)
    qed
  qed
qed

interpretation mac_backend: resolve_backend "mac_resolve_once fuel api" "mac_answers api" for fuel api
  by unfold_locales (rule mac_resolve_once_answers)

end
