(* ===== verification/Mac_Samples.thy ===== *)
theory Mac_Samples
  imports Mac_Resolve
begin

text \<open>
  A concrete daemon, to run the macOS model on. Its environment counts the rounds: the first
  dispatches one service type twice, the second finds an instance, removes another and reports an
  error, and the stop flag is set before the third.
\<close>

definition c_lit :: "bytes \<Rightarrow> c_str" where
  "c_lit s = Some (s @ [NUL])"

definition sample_reply :: "bool \<Rightarrow> u32 \<Rightarrow> i32 \<Rightarrow> bytes \<Rightarrow> bytes \<Rightarrow> bytes \<Rightarrow> browse_reply" where
  "sample_reply meta flags err n t d =
     \<lparr>br_flags = flags, br_interface_index = 4, br_error_code = err,
      br_service_name = c_lit n, br_regtype = c_lit t,
      br_reply_domain = c_lit d, br_context = \<lparr>is_meta = meta\<rparr>\<rparr>"

definition sample_replies :: "nat \<Rightarrow> browse_reply list" where
  "sample_replies n =
     (if n = 1 then
        [sample_reply True 3 0 ''_http'' ''_tcp.local.'' ''.'',
         sample_reply True 2 0 ''_http'' ''_tcp.local.'' ''.'']
      else
        [sample_reply False 3 0 ''Printer'' ''_http._tcp.'' ''local.'',
         sample_reply False 1 0 ''Scanner'' ''_http._tcp.'' ''local.'',
         sample_reply False 0 5 '''' '''' ''''])"

definition sample_daemon :: "nat dns_sd" where
  "sample_daemon =
     \<lparr>DNSServiceCreateConnection = \<lambda>e. ((0, 100), e),
      DNSServiceRefSockFD = \<lambda>r e. (7, e),
      DNSServiceProcessResult = \<lambda>r e. ((0, sample_replies e), e),
      DNSServiceBrowse = \<lambda>r fl i t d c e. ((0, 200 + e), e),
      DNSServiceRefDeallocate = \<lambda>r e. e,
      poll = \<lambda>fd ev ms e. ((1, POLLIN, 0), e),
      stop_load = \<lambda>e. (e = 2, e + 1),
      strerror = \<lambda>n. show_i32 n\<rparr>"

definition sample_end :: PumpState where
  "sample_end =
     \<lparr>ps_interface = 0, seen = {(''_http._tcp'', ''local'')}, pending = [],
      sent = [Inr (Removed \<lparr>rs_name = ''Scanner'', rs_service_type = ''_http._tcp'',
                rs_domain = ''local'', rs_interface_index = Some 4\<rparr>),
              Inl (BrowseFailed ''browse callback error: 5'')],
      spawned = [(''Printer'', ''_http._tcp.'', ''local.'', 4)],
      traced = [(''_http._tcp'', ''local'')]\<rparr>"

definition sample_calls :: "ffi_call list" where
  "sample_calls =
     [CreateConnection 0 100, RefSockFD 100,
      Browse 100 META_QUERY_TYPE None \<lparr>is_meta = True\<rparr> 0 200,
      BrowseReplies 100 0 (sample_replies 1),
      Browse 100 ''_http._tcp'' (Some ''local'') \<lparr>is_meta = False\<rparr> 0 201,
      BrowseReplies 100 0 (sample_replies 2),
      RefDeallocate 200, RefDeallocate 201, RefDeallocate 100]"

lemma sample_names:
  "cstr_to_string (c_lit ''_http'') = ''_http''"
  "cstr_to_string (c_lit ''_tcp.local.'') = ''_tcp.local.''"
  "cstr_to_string (c_lit ''.'') = ''.''"
  "cstr_to_string (c_lit ''_http._tcp.'') = ''_http._tcp.''"
  "cstr_to_string (c_lit ''local.'') = ''local.''"
  "cstr_to_string (c_lit ''Printer'') = ''Printer''"
  "cstr_to_string (c_lit ''Scanner'') = ''Scanner''"
  by (simp_all add: c_lit_def cstr_to_string_def NUL_def from_utf8_lossy_id)

lemma sample_type: "meta_reply_to_type_and_domain ''_http'' ''_tcp.local.'' ''.'' = (''_http._tcp'', ''local'')"
  by code_simp

lemma sample_cstrings:
  "cstring META_QUERY_TYPE = Inr META_QUERY_TYPE" "cstring ''_http._tcp'' = Inr ''_http._tcp''"
  "cstring ''local'' = Inr ''local''" "trim_dot ''_http._tcp.'' = ''_http._tcp''"
  "trim_dot ''local.'' = ''local''" "show_i32 5 = ''5''"
  by (simp_all add: cstring_no_nul META_QUERY_TYPE_def NUL_def trim_dot_def trim_end_matches_def
      number_eval)

lemma sample_callbacks:
  "browse_callback (sample_reply True 3 0 ''_http'' ''_tcp.local.'' ''.'') st =
   offer_type (''_http._tcp'', ''local'') st"
  "browse_callback (sample_reply True 2 0 ''_http'' ''_tcp.local.'' ''.'') st =
   offer_type (''_http._tcp'', ''local'') st"
  "browse_callback (sample_reply False 3 0 ''Printer'' ''_http._tcp.'' ''local.'') st =
   st\<lparr>spawned := spawned st @ [(''Printer'', ''_http._tcp.'', ''local.'', 4)]\<rparr>"
  "browse_callback (sample_reply False 1 0 ''Scanner'' ''_http._tcp.'' ''local.'') st =
   send (hd (sent sample_end)) st"
  "browse_callback (sample_reply False 0 5 '''' '''' '''') st = send (sent sample_end ! 1) st"
  by (simp_all add: browse_callback_def sample_reply_def NO_ERROR_def FLAGS_ADD_def Let_def
      sample_names sample_type sample_cstrings sample_end_def NonZeroU32_new_def)

text \<open>The state between the rounds: after the meta reply and after the instance replies.\<close>

definition sample_mid :: PumpState where
  "sample_mid = (offer_type (''_http._tcp'', ''local'') (PumpState_new 0))\<lparr>pending := []\<rparr>"

lemma sample_round1:
  "pump_iter sample_daemon 7 \<lparr>pump_conn = \<lparr>shared = 100, ops = [200]\<rparr>,
     pump_state = PumpState_new 0, pump_os = \<lparr>env = 0, calls = take 3 sample_calls\<rparr>\<rparr> =
   (None, \<lparr>pump_conn = \<lparr>shared = 100, ops = [200, 201]\<rparr>, pump_state = sample_mid,
     pump_os = \<lparr>env = Suc 0, calls = take 5 sample_calls\<rparr>\<rparr>)"
  by (simp add: pump_iter_def sample_daemon_def conn_process_result_def sample_replies_def
      sample_callbacks Let_def NO_ERROR_def POLLIN_def log_call_def)
     (simp add: start_pending_browses_def offer_type_def PumpState_new_def conn_browse_def
      sample_cstrings NO_ERROR_def sample_calls_def sample_replies_def sample_mid_def log_call_def numeral_eq_Suc)

lemma sample_round2:
  "pump_iter sample_daemon 7 \<lparr>pump_conn = \<lparr>shared = 100, ops = [200, 201]\<rparr>,
     pump_state = sample_mid, pump_os = \<lparr>env = Suc 0, calls = take 5 sample_calls\<rparr>\<rparr> =
   (None, \<lparr>pump_conn = \<lparr>shared = 100, ops = [200, 201]\<rparr>, pump_state = sample_end,
     pump_os = \<lparr>env = 2, calls = take 6 sample_calls\<rparr>\<rparr>)"
  by (simp add: pump_iter_def sample_daemon_def conn_process_result_def sample_replies_def
      sample_callbacks Let_def NO_ERROR_def POLLIN_def log_call_def)
     (simp add: start_pending_browses_def offer_type_def PumpState_new_def send_def
      sample_calls_def sample_replies_def sample_mid_def sample_end_def numeral_eq_Suc)

lemma sample_round3:
  "pump_iter sample_daemon 7 \<lparr>pump_conn = c, pump_state = st, pump_os = \<lparr>env = 2, calls = cs\<rparr>\<rparr> =
   (Some (Inr ()), \<lparr>pump_conn = c, pump_state = st, pump_os = \<lparr>env = 3, calls = cs\<rparr>\<rparr>)"
  by (simp add: pump_iter_def sample_daemon_def)

lemma sample_setup:
  "conn_create sample_daemon \<lparr>env = 0, calls = []\<rparr> =
   (Inr \<lparr>shared = 100, ops = []\<rparr>, \<lparr>env = 0, calls = [CreateConnection 0 100]\<rparr>)"
  "conn_socket_fd sample_daemon \<lparr>shared = 100, ops = []\<rparr> \<lparr>env = 0, calls = [CreateConnection 0 100]\<rparr> =
   (Inr 7, \<lparr>env = 0, calls = take 2 sample_calls\<rparr>)"
  "conn_browse sample_daemon META_QUERY_TYPE [] 0 \<lparr>is_meta = True\<rparr> \<lparr>shared = 100, ops = []\<rparr>
     \<lparr>env = 0, calls = take 2 sample_calls\<rparr> =
   (Inr (), \<lparr>shared = 100, ops = [200]\<rparr>, \<lparr>env = 0, calls = take 3 sample_calls\<rparr>)"
  "conn_drop sample_daemon \<lparr>shared = 100, ops = [200, 201]\<rparr>
     \<lparr>env = 3, calls = take 6 sample_calls\<rparr> = \<lparr>env = 3, calls = sample_calls\<rparr>"
  by (simp_all add: conn_create_def conn_socket_fd_def conn_browse_def conn_drop_def
      sample_daemon_def sample_calls_def sample_cstrings log_call_def NO_ERROR_def Let_def
      numeral_eq_Suc)

lemma sample_run:
  "run_pump 3 sample_daemon META_QUERY_TYPE [] 0 True \<lparr>env = 0, calls = []\<rparr> =
   Some (Inr (), sample_end, \<lparr>env = 3, calls = sample_calls\<rparr>)"
  by (simp add: run_pump_def sample_setup pump_loop_def sample_round1
      sample_round2 sample_round3 Let_def)

text \<open>
  A concrete resolver: its clock advances with every poll and dispatch; it resolves to port 80 of
  \<open>host.local.\<close> with one TXT entry, and the host to 192.168.0.1.
\<close>

definition sample_resolve_replies :: "resolve_reply list" where
  "sample_resolve_replies =
     [\<lparr>rr_error_code = 0, rr_host_target = c_lit ''host.local.'', rr_port = 0x5000, rr_txt_len = 7,
       rr_txt_record = Some (CHR 0x06 # ''path=/'')\<rparr>]"

definition sample_addr_replies :: "addr_reply list" where
  "sample_addr_replies =
     [\<lparr>ar_flags = 2, ar_error_code = 0,
       ar_address = Some \<lparr>sa_family = AF_INET, s_addr = 0x0100A8C0, s6_addr = []\<rparr>\<rparr>]"

definition sample_resolver :: "nat dns_resolver" where
  "sample_resolver =
     \<lparr>DNSServiceCreateConnection = \<lambda>e. ((0, 100), e),
      DNSServiceRefSockFD = \<lambda>r e. (7, e),
      DNSServiceProcessResult = \<lambda>r e. ((0, []), e),
      DNSServiceBrowse = \<lambda>r fl i t d c e. ((0, 200 + e), e),
      DNSServiceRefDeallocate = \<lambda>r e. e,
      poll = \<lambda>fd ev ms e. ((1, POLLIN, 0), e + 1),
      stop_load = \<lambda>e. (e = 2, e + 1),
      strerror = \<lambda>n. show_i32 n,
      DNSServiceResolve = \<lambda>fl i n t d e. ((0, 300), e),
      process_resolve = \<lambda>r e. ((0, sample_resolve_replies), e + 1),
      DNSServiceGetAddrInfo = \<lambda>fl i p h e. ((0, 301), e),
      process_addrinfo = \<lambda>r e. ((0, sample_addr_replies), e + 1),
      now = \<lambda>e. (e, e), join_error = \<lambda>e. (None, e),
      str_debug = \<lambda>s. CHR 0x22 # s @ [CHR 0x22]\<rparr>"

definition sample_service :: DiscoveredService where
  "sample_service =
     \<lparr>ds_name = ''Printer'', ds_service_type = ''_http._tcp'', ds_domain = ''local'',
      ds_host_name = ''host.local'', ds_port = 80, ds_addresses = [V4 0xC0A80001],
      ds_txt_records = [\<lparr>txt_key = ''path'', txt_value = Some ''/''\<rparr>],
      ds_interface_index = Some 4\<rparr>"

definition sample_resolve_calls :: "ffi_call list" where
  "sample_resolve_calls =
     [Resolve (''Printer'', ''_http._tcp.'', ''local.'', 4) 0 300, RefSockFD 300,
      ResolveReplies 300 0 sample_resolve_replies, RefDeallocate 300,
      GetAddrInfo (''host.local.'', 4) 0 301, RefSockFD 301,
      AddrReplies 301 0 sample_addr_replies, RefDeallocate 301]"

lemma sample_clock: "clock_runs sample_resolver"
  unfolding clock_runs_def
proof (intro allI)
  fix fd sd waits e bound
  have "after_waits sample_resolver fd sd waits k e = e + 2 * k" for k
    by (induction k) (simp_all add: sample_resolver_def)
  then show "\<exists>k. bound \<le> fst (now sample_resolver (after_waits sample_resolver fd sd waits k e))"
    by (intro exI [of _ bound]) (simp add: sample_resolver_def)
qed

lemma sample_txt:
  "parse_txt_records (CHR 0x06 # ''path=/'') = [\<lparr>txt_key = ''path'', txt_value = Some ''/''\<rparr>]"
  by (simp add: parse_txt_records_def parse_txt_buffer_spec framed_entries.simps
      parse_txt_entry_def from_utf8_lossy_id)

lemma sample_resolve_strings:
  "cstr_to_string (c_lit ''host.local.'') = ''host.local.''"
  "cstring ''Printer'' = Inr ''Printer''" "cstring ''_http._tcp.'' = Inr ''_http._tcp.''"
  "cstring ''local.'' = Inr ''local.''" "cstring ''host.local.'' = Inr ''host.local.''"
  "trim_dot ''host.local.'' = ''host.local''"
  by (simp_all add: c_lit_def cstr_to_string_def cstring_no_nul NUL_def from_utf8_lossy_id
      trim_dot_def trim_end_matches_def)

lemma sample_numbers: "u16_from_be 0x5000 = 80" "u32_from_be 0x0100A8C0 = 0xC0A80001"
  by (simp_all add: u16_from_be_def u32_from_be_def)

lemma sample_do_resolve:
  "do_resolve sample_resolver ''Printer'' ''_http._tcp.'' ''local.'' 4 \<lparr>env = n, calls = cs\<rparr> =
   (Inr (''host.local.'', 80, [\<lparr>txt_key = ''path'', txt_value = Some ''/''\<rparr>]),
    \<lparr>env = n + 2, calls = cs @ take 4 sample_resolve_calls\<rparr>)"
  by (simp add: do_resolve_def sample_resolve_strings sample_resolver_def ref_sock_fd_def
      ref_deallocate_def process_once_def sample_resolve_replies_def resolve_callback_def ResolveResult_default_def
      NO_ERROR_def sample_txt sample_numbers log_call_def sample_resolve_calls_def Let_def)

lemma sample_get_addresses:
  "get_addresses 2000000001 sample_resolver ''host.local.'' 4 \<lparr>env = n, calls = cs\<rparr> =
   Some (Some [V4 0xC0A80001], \<lparr>env = n + 2, calls = cs @ drop 4 sample_resolve_calls\<rparr>)"
  by (simp add: get_addresses_def sample_resolve_strings sample_resolver_def ref_sock_fd_def
      ref_deallocate_def getaddr_round_def sample_addr_replies_def getaddr_callback_def sockaddr_to_ip_def
      GETADDR_TIMEOUT_MS_def FLAGS_MORE_COMING_def AF_INET_def
      NO_ERROR_def sample_numbers log_call_def sample_resolve_calls_def Let_def)

lemma sample_resolved:
  "resolved_service ''Printer'' ''_http._tcp.'' ''local.'' 4
     (''host.local.'', 80, [\<lparr>txt_key = ''path'', txt_value = Some ''/''\<rparr>])
     (Some [V4 0xC0A80001]) = sample_service"
  by (simp add: resolved_service_def sample_service_def sample_cstrings sample_resolve_strings
      NonZeroU32_new_def)

lemma sample_resolve_service:
  "resolve_service 2000000001 sample_resolver (''Printer'', ''_http._tcp.'', ''local.'', 4)
     \<lparr>env = 0, calls = []\<rparr> =
   Some (Inr (Found sample_service), \<lparr>env = 4, calls = sample_resolve_calls\<rparr>)"
  by (simp add: resolve_service_def sample_do_resolve sample_get_addresses sample_resolved)

lemma sample_resolve_once:
  "mac_resolve_once 2000000001 sample_resolver ''Printer'' ''_http._tcp.'' ''local.'' (Some 4)
     \<lparr>env = 0, calls = []\<rparr> =
   Some (Inr sample_service, \<lparr>env = 4, calls = sample_resolve_calls\<rparr>)"
proof -
  have "join_error sample_resolver 0 = (None, 0)" by (simp add: sample_resolver_def)
  then show ?thesis
    by (simp add: mac_resolve_once_def sample_do_resolve sample_get_addresses sample_resolved)
qed

end
