(* ===== verification/Mac_Properties.thy ===== *)
theory Mac_Properties
  imports Mac_Samples
begin

text \<open>
  The properties of the macOS back-end, each with a run of the sample daemon or resolver that
  meets its hypotheses.
\<close>

subsection \<open>The browse pump\<close>

text \<open>
  C1: Every run of the pump that ends keeps the ordering rules of \<open>dns_sd.h\<close>: operations are
  started and dispatched on the open connection only, each is released exactly once and before the
  connection, the connection exactly once, and nothing is called afterwards. Only when the
  connection could not be opened is there nothing to release.
\<close>

theorem pump_ffi_order:
  assumes "run_pump fuel api t d i m \<lparr>env = e, calls = []\<rparr> = Some (r, st, os)"
  shows "monitor (calls os) Unopened = Some Released \<or>
    (\<exists>err ref. calls os = [CreateConnection err ref] \<and> err \<noteq> NO_ERROR)"
  using assms by (rule run_pump_monitor)

theorem pump_ffi_order_witness:
  "monitor sample_calls Unopened = Some Released \<or>
   (\<exists>err ref. sample_calls = [CreateConnection err ref] \<and> err \<noteq> NO_ERROR)"
  using pump_ffi_order [OF sample_run] by simp

text \<open>
  C7: Browsing all types asks the daemon for each discovered type exactly once, in the order of
  discovery, however often the meta-query reports it; the types asked for and still queued are the
  ones in \<open>seen\<close>, and after a run that was stopped none is left in the queue.
\<close>

theorem pump_browses_each_type_once:
  assumes "run_pump fuel api t d i True \<lparr>env = e, calls = []\<rparr> = Some (r, st, os)"
  shows "browsed_types (calls os) @ pending st = traced st \<and> distinct (traced st) \<and>
    set (traced st) = seen st \<and> (r = Inr () \<longrightarrow> pending st = [])"
  using run_pump_types [OF assms] by blast

theorem pump_browses_each_type_once_witness:
  "browsed_types sample_calls @ pending sample_end = traced sample_end \<and>
   distinct (traced sample_end) \<and> set (traced sample_end) = seen sample_end \<and>
   pending sample_end = []"
  using pump_browses_each_type_once [OF sample_run] unfolding os.select_convs by blast

text \<open>
  C23: One type that cannot be browsed does not stop the others: draining the queue tries every type in
  order, and each has its own outcome. A type that is no C string is not asked for, and its error is
  reported; any other is asked for by one call on the connection, on the pump's interface, and gains
  the operation when the daemon accepts it, or else its own error message with the daemon's code. No
  other call is made, no other message is sent, and the queue is empty afterwards.
\<close>

theorem pump_isolates_bad_types:
  "let p' = start_pending_browses api p; ts = pending (pump_state p); c = shared (pump_conn p) in
   \<exists>outs.
     list_all2 (outcome_of api c (ps_interface (pump_state p))) ts outs \<and>
     calls (pump_os p') = calls (pump_os p) @ concat (map2 (outcome_calls c) ts outs) \<and>
     pump_conn p' = (pump_conn p)\<lparr>ops := ops (pump_conn p) @ concat (map outcome_ops outs)\<rparr> \<and>
     sent (pump_state p') = sent (pump_state p) @ concat (map2 outcome_errors ts outs) \<and>
     pending (pump_state p') = []"
  unfolding Let_def by (rule start_pending_isolates)

text \<open>
  C24: Dispatching a sequence of replies refines its abstract view: the messages of the replies are
  sent in order, the found instances are handed to resolve jobs in order, and the types it mentions
  are recorded, each new one once.
\<close>

theorem pump_dispatch_refines:
  "sent (fold browse_callback rs st) = sent st @ List.map_filter reply_message rs \<and>
   spawned (fold browse_callback rs st) = spawned st @ List.map_filter reply_job rs \<and>
   seen (fold browse_callback rs st) = seen st \<union> set (List.map_filter reply_type rs) \<and>
   pending (fold browse_callback rs st) =
     pending st @ fresh (seen st) (List.map_filter reply_type rs)"
  by (rule fold_replies_refine)

text \<open>
  Everything the pump thread produces is well formed: each event it sends, the error that ended
  it included, and each job it hands to the resolver holds valid UTF-8 strings and a non-zero
  interface.
\<close>

theorem pump_output_well_formed:
  assumes "pump_thread fuel api args os = Some (st, os')"
  shows "list_all event_ok (sent st) \<and> list_all job_ok (spawned st)"
  using pump_thread_output [OF assms] by (simp add: output_ok_def list_all_iff)

theorem pump_output_well_formed_witness:
  "list_all event_ok (sent sample_end) \<and> list_all job_ok (spawned sample_end)"
proof -
  have "pump_thread 3 sample_daemon (META_QUERY_TYPE, [], 0, True) \<lparr>env = 0, calls = []\<rparr> =
      Some (sample_end, \<lparr>env = 3, calls = sample_calls\<rparr>)"
    by (simp add: pump_thread_def sample_run)
  then show ?thesis by (rule pump_output_well_formed)
qed

text \<open>
  The pump stops when told to: if the stop flag is set after some number of rounds, the loop
  returns, at the latest in the next one.
\<close>

theorem pump_stops_when_told:
  assumes "fst (stop_load api (env (pump_os (rounds k api fd p))))"
  shows "\<exists>r p'. pump_loop (Suc k) api fd p = Some (r, p')"
  using assms by (rule pump_loop_stops)

theorem pump_stops_when_told_witness:
  "\<exists>r p'. pump_loop (Suc 1) sample_daemon 7 \<lparr>pump_conn = \<lparr>shared = 100, ops = [200, 201]\<rparr>,
     pump_state = sample_mid, pump_os = \<lparr>env = Suc 0, calls = take 5 sample_calls\<rparr>\<rparr> = Some (r, p')"
  by (rule pump_stops_when_told) (simp add: rounds_def sample_round2, simp add: sample_daemon_def)

subsection \<open>Names\<close>

text \<open>
  C8: The type and the domain of a meta-query reply are the ones advertised: for a type of any two
  labels in a domain of any labels, the root included, the parts the daemon reports are put
  together again without loss.
\<close>

theorem meta_reply_recovers:
  assumes "\<forall>l \<in> set (l1 # l2 # ds). dns_label l"
  shows "meta_reply_to_type_and_domain l1 (reported_regtype (l1 # l2 # ds))
     (reported_domain (l1 # l2 # ds)) = (join ''.'' [l1, l2], join ''.'' ds)"
  using assms by (rule meta_reply_full)

theorem meta_reply_recovers_witness:
  "meta_reply_to_type_and_domain ''_http'' ''_tcp.example.'' ''com.'' = (''_http._tcp'', ''example.com'')"
proof -
  have "meta_reply_to_type_and_domain ''_http'' (reported_regtype (''_http'' # ''_tcp'' # [''example'', ''com'']))
      (reported_domain (''_http'' # ''_tcp'' # [''example'', ''com''])) =
    (join ''.'' [''_http'', ''_tcp''], join ''.'' [''example'', ''com''])"
    by (rule meta_reply_recovers) (simp add: dns_label_def)
  then show ?thesis by (simp add: reported_regtype_def reported_domain_def)
qed

text \<open>
  C36: The parts of a meta-query reply can be browsed: from three strings of the daemon the type and
  the domain are valid UTF-8 without a NUL, so that they convert to C strings, and the domain does
  not end in a dot, so that it is not the root.
\<close>

theorem meta_reply_browsable:
  "case meta_reply_to_type_and_domain (cstr_to_string n) (cstr_to_string r) (cstr_to_string d) of
     (t, dm) \<Rightarrow> cstring t = Inr t \<and> cstring dm = Inr dm \<and> utf8_valid t \<and> utf8_valid dm \<and>
       \<not> ends_with dm CHR ''.''"
  by (rule meta_reply_usable)

text \<open>
  Conversion to a C string is exact: it succeeds on the strings without a NUL, whose bytes it
  keeps, and otherwise names the position of the first NUL.
\<close>

theorem cstring_exact:
  "(cstring s = Inr t \<longleftrightarrow> t = s \<and> NUL \<notin> set s) \<and>
   (cstring s = Inl e \<longleftrightarrow>
    (\<exists>n < length s. e = ParameterContainsInteriorNulByte s n \<and> s ! n = NUL \<and> NUL \<notin> set (take n s)))"
  by (intro conjI cstring_Inr cstring_Inl)

text \<open>
  What is passed to the C library as a C string is read back from it unchanged, whatever memory
  follows its terminator.
\<close>

theorem cstring_survives:
  assumes "cstring s = Inr t" and "utf8_valid s"
  shows "cstr_to_string (Some (t @ NUL # junk)) = s"
  using assms by (rule cstring_round_trip)

theorem cstring_survives_witness:
  "cstr_to_string (Some (''_http._tcp'' @ NUL # ''rest'')) = ''_http._tcp''"
  by (rule cstring_survives) (simp_all add: sample_cstrings)

subsection \<open>Resolving\<close>

text \<open>
  C22: Resolving a found instance uses the references of the two operations only while they are
  live and releases each exactly once, on every path, errors and timeouts included.
\<close>

theorem resolve_releases_references:
  assumes "resolve_service fuel api job \<lparr>env = e, calls = []\<rparr> = Some (m, os)"
  shows "ref_monitor (calls os) None = Some None"
  using resolve_service_live [OF _ assms] by (simp add: live_ref_def)

theorem resolve_releases_references_witness: "ref_monitor sample_resolve_calls None = Some None"
  using resolve_releases_references [OF sample_resolve_service] by simp

text \<open>
  C21: Resolving a found instance ends, with exactly one message. If the resolve fails, it is that
  error for the instance. Otherwise the lookup of the host ends too, and the message is the instance
  found, with its host, port and TXT records, the addresses the lookup answers (none if it fails),
  and the names without their trailing dots. The loop of the lookup is bounded by its deadline: all
  it needs is that the clock passes it at some time, and with the fuel for that many rounds any
  greater fuel gives the same message.
\<close>

theorem resolve_always_reports:
  assumes "clock_runs api"
  shows "\<exists>F m os'. \<forall>fuel \<ge> F. resolve_service fuel api (n, t, d, i) os = Some (m, os') \<and>
    (case do_resolve api n t d i os of
       (Inl err, os1) \<Rightarrow> m = Inl (ResolveFailed n err) \<and> os' = os1
     | (Inr (host, port, txt), os1) \<Rightarrow>
         (\<exists>addresses. get_addresses fuel api host i os1 = Some (addresses, os') \<and>
            m = Inr (Found
              \<lparr>ds_name = n, ds_service_type = trim_dot t, ds_domain = trim_dot d,
               ds_host_name = trim_dot host, ds_port = port,
               ds_addresses = (case addresses of Some a \<Rightarrow> a | None \<Rightarrow> []),
               ds_txt_records = txt, ds_interface_index = NonZeroU32_new i\<rparr>)))"
  using resolve_service_reports [OF assms, of n t d i os] unfolding resolved_service_def prod.case .

theorem resolve_always_reports_witness:
  "\<exists>fuel addresses os'. resolve_service fuel sample_resolver (''Printer'', ''_http._tcp.'', ''local.'', 4)
       \<lparr>env = 0, calls = []\<rparr> =
     Some (Inr (Found (sample_service\<lparr>ds_addresses := addresses\<rparr>)), os')"
proof -
  define p where "p = ''Printer''"
  define t where "t = ''_http._tcp.''"
  define l where "l = ''local.''"
  define h where "h = ''host.local.''"
  define tr where "tr = [\<lparr>txt_key = ''path'', txt_value = Some ''/''\<rparr>]"
  have run: "do_resolve sample_resolver p t l 4 \<lparr>env = 0, calls = []\<rparr> =
      (Inr (h, 80, tr), \<lparr>env = 0 + 2, calls = [] @ take 4 sample_resolve_calls\<rparr>)"
    unfolding p_def t_def l_def h_def tr_def by (rule sample_do_resolve)
  have service: "\<lparr>ds_name = p, ds_service_type = trim_dot t, ds_domain = trim_dot l,
      ds_host_name = trim_dot h, ds_port = 80, ds_addresses = as, ds_txt_records = tr,
      ds_interface_index = NonZeroU32_new 4\<rparr> = sample_service\<lparr>ds_addresses := as\<rparr>" for as
    by (simp add: p_def t_def l_def h_def tr_def sample_service_def sample_cstrings
        sample_resolve_strings NonZeroU32_new_def)
  note found = resolve_always_reports [OF sample_clock, of p t l 4 "\<lparr>env = 0, calls = []\<rparr>",
    unfolded run sum.case prod.case service]
  show ?thesis unfolding p_def [symmetric] t_def [symmetric] l_def [symmetric] using found by blast
qed

text \<open>
  C31: A resolve that succeeds asked the daemon for that instance on that interface, once, and reports
  what it was answered: the last of the replies dispatched carried no error, and the host and the
  port, in host byte order, are its own; the TXT records are decoded from the last reply that has a
  TXT record. The reference is given back.
\<close>

theorem resolve_reports_last_reply:
  assumes "do_resolve api n t d i os = (Inr (h, p, tr), os')"
  shows "\<exists>sd rs. calls os' = calls os @ [Resolve (n, t, d, i) NO_ERROR sd, RefSockFD sd,
      ResolveReplies sd NO_ERROR rs, RefDeallocate sd] \<and>
    rs \<noteq> [] \<and> rr_error_code (last rs) = NO_ERROR \<and> h = cstr_to_string (rr_host_target (last rs)) \<and>
    p = u16_from_be (rr_port (last rs)) \<and>
    tr = (case rev (List.map_filter reply_txt rs) of [] \<Rightarrow> [] | buf # _ \<Rightarrow> parse_txt_records buf)"
  using assms by (rule do_resolve_run) (auto simp: last_txt_def)

theorem resolve_reports_last_reply_witness:
  "\<exists>sd rs. take 4 sample_resolve_calls = [Resolve (''Printer'', ''_http._tcp.'', ''local.'', 4) NO_ERROR sd,
      RefSockFD sd, ResolveReplies sd NO_ERROR rs, RefDeallocate sd] \<and>
    80 = u16_from_be (rr_port (last rs))"
  using resolve_reports_last_reply [OF sample_do_resolve [of 0 "[]"]] by auto

text \<open>
  C32: The address lookup of a host asks for that host on that interface and keeps every address it is
  told, in the order of the replies: failed replies and families it does not know are skipped, no
  batch of replies is left out or counted twice, and it goes on after a batch only if the dispatch
  succeeded and more were announced. The reference is given back.
\<close>

theorem addresses_collected:
  assumes "get_addresses fuel api h i os = Some (Some addresses, os')"
  shows "\<exists>sd batches.
    calls os' = calls os @ [GetAddrInfo (h, i) NO_ERROR sd, RefSockFD sd] @
      map (\<lambda>(err, rs). AddrReplies sd err rs) batches @ [RefDeallocate sd] \<and>
    addresses = concat (map (\<lambda>(err, rs). List.map_filter (\<lambda>r. if ar_error_code r = NO_ERROR
      then Option.bind (ar_address r) sockaddr_to_ip else None) rs) batches) \<and>
    list_all (\<lambda>(err, rs). err = NO_ERROR \<and>
      \<not> list_ex (\<lambda>r. and (ar_flags r) FLAGS_MORE_COMING = 0) rs) (butlast batches)"
  using assms
  by (cases rule: get_addresses_run) (auto simp: reply_address_def [abs_def] last_coming_def [abs_def])

theorem addresses_collected_witness:
  "\<exists>sd batches.
    drop 4 sample_resolve_calls = [GetAddrInfo (''host.local.'', 4) NO_ERROR sd, RefSockFD sd] @
      map (\<lambda>(err, rs). AddrReplies sd err rs) batches @ [RefDeallocate sd]"
  using addresses_collected [OF sample_get_addresses [of 0 "[]"]] by auto

text \<open>
  The address of a \<open>sockaddr\<close> has the octets of its memory in network order, for both families.
\<close>

theorem sockaddr_octets_kept:
  assumes "sockaddr_octets a bs"
  shows "\<exists>ip. sockaddr_to_ip a = Some ip \<and> ip_octets ip = bs"
  using assms by (rule sockaddr_to_ip_octets)

theorem sockaddr_octets_kept_witness:
  "\<exists>ip. sockaddr_to_ip \<lparr>sa_family = AF_INET, s_addr = 0x0100A8C0, s6_addr = []\<rparr> = Some ip \<and>
    ip_octets ip = [CHR 0xC0, CHR 0xA8, CHR 0x00, CHR 0x01]"
  by (rule sockaddr_octets_kept) (simp add: sockaddr_octets_def u32_from_le_bytes_def)

text \<open>
  C15: The builder's resolve over this back-end answers the request. A service it reports carries the
  name, type and domain that were asked for; the daemon was asked for exactly that instance, on the
  requested interface or on all; the host, port and TXT records are those of its replies, and the
  addresses all those of a lookup of that host, or none if the lookup was refused. A failure names
  the instance, and the calls show it: an argument was no C string, the request was refused, no reply
  came in time, or an error or nothing came. Apart from that the blocking task may not have run, and
  then nothing was asked, or the time set for the resolve elapsed.
\<close>

theorem mac_resolve_answers:
  assumes "timeout_faithful tmo" and "resolve tmo (mac_resolve_once fuel api) b os = Some (r, os')"
  shows "mac_answers api (rb_name b) (rb_service_type b) (rb_domain b) (rb_interface_index b) os r os' \<or>
    (\<exists>d. rb_timeout b = Some d \<and> r = Inl (ResolveFailed (rb_name b) (''timed out after '' @ duration_debug d)))"
  using mac_backend.resolve_answers [OF assms] by (simp add: timed_out_def)

theorem mac_resolve_answers_witness:
  "mac_answers sample_resolver ''Printer'' ''_http._tcp.'' ''local.'' (Some 4) \<lparr>env = 0 :: nat, calls = []\<rparr> (Inr sample_service)
    \<lparr>env = 4, calls = sample_resolve_calls\<rparr>"
proof -
  let ?b = "set_resolver_interface_index 4 (ServiceResolverBuilder_new ''Printer'' ''_http._tcp.'' ''local.'')"
  have b: "rb_name ?b = ''Printer''" "rb_service_type ?b = ''_http._tcp.''" "rb_domain ?b = ''local.''"
    "rb_interface_index ?b = Some 4" "rb_timeout ?b = None"
    by (simp_all add: set_resolver_interface_index_def ServiceResolverBuilder_new_def)
  have "timeout_faithful (\<lambda>d fut (e :: nat os). (None, e))" by (simp add: timeout_faithful_def)
  from mac_resolve_answers [OF this, of 2000000001 sample_resolver ?b "\<lparr>env = 0, calls = []\<rparr>" "Inr sample_service" "\<lparr>env = 4, calls = sample_resolve_calls\<rparr>"]
  show ?thesis by (simp add: b resolve_def sample_resolve_once)
qed

end
