(* ===== verification/Mac_System.thy ===== *)
theory Mac_System
  imports Mac_Properties "HOL-Library.Multiset"
begin

text \<open>
  The macOS back-end as a system of threads: the pump on its own thread, the resolve jobs it hands
  to the blocking pool, and the guard, whose drop sets the stop flag. The pump is cut before each
  round of its loop; a job, which has a connection of its own, is one step.
\<close>

subsection \<open>The pump thread in pieces\<close>

text \<open>\<open>run_pump\<close> up to its loop; every early return drops the connection.\<close>

definition open_pump ::
  "'e dns_sd \<Rightarrow> pump_args \<Rightarrow> 'e os \<Rightarrow> (ServiceBrowseError + (i32 \<times> SharedConnection)) \<times> 'e os" where
  "open_pump api args os =
     (case args of (regtype, domain, interface, meta) \<Rightarrow>
      case conn_create api os of
        (Inl err, os) \<Rightarrow> (Inl err, os)
      | (Inr conn, os) \<Rightarrow>
          (case conn_socket_fd api conn os of
             (Inl err, os) \<Rightarrow> (Inl err, conn_drop api conn os)
           | (Inr fd, os) \<Rightarrow>
               (case conn_browse api regtype domain interface \<lparr>is_meta = meta\<rparr> conn os of
                  (Inl err, conn, os) \<Rightarrow> (Inl err, conn_drop api conn os)
                | (Inr _, conn, os) \<Rightarrow> (Inr (fd, conn), os))))"

text \<open>The closure of the thread reports the error that ended the pump.\<close>

definition report :: "ServiceBrowseError + unit \<Rightarrow> PumpState \<Rightarrow> PumpState" where
  "report r st = (case r of Inl err \<Rightarrow> send (Inl err) st | Inr _ \<Rightarrow> st)"

definition args_interface :: "pump_args \<Rightarrow> u32" where
  "args_interface args = fst (snd (snd args))"

lemma pump_thread_pieces:
  "pump_thread fuel api args os =
     (case open_pump api args os of
        (Inl err, os) \<Rightarrow> Some (report (Inl err) (PumpState_new (args_interface args)), os)
      | (Inr (fd, conn), os) \<Rightarrow>
          map_option (\<lambda>(r, p). (report r (pump_state p), conn_drop api (pump_conn p) (pump_os p)))
            (pump_loop fuel api fd
               \<lparr>pump_conn = conn, pump_state = PumpState_new (args_interface args), pump_os = os\<rparr>))"
  by (auto simp: pump_thread_def run_pump_def open_pump_def report_def args_interface_def Let_def
      option.map_comp o_def case_prod_unfold split: prod.split sum.split intro!: option.map_cong)

subsection \<open>The system\<close>

datatype 'e pump_phase =
    PumpReady pump_args "'e os"
  | PumpLooping i32 "'e pump"
  | PumpDone PumpState "'e os"

text \<open>
  \<open>ms_stop\<close> is the flag the guard shares with the pump; \<open>ms_jobs\<close> are the jobs that were spawned and
  have not run, \<open>ms_resolved\<close> those that have with the message each sent; \<open>ms_channel\<close> holds what
  went through the channel, from the pump and from the jobs.
\<close>

record ('e, 'f) mac_system =
  ms_pump :: "'e pump_phase"
  ms_stop :: bool
  ms_jobs :: "resolve_job list"
  ms_resolver :: "'f os"
  ms_resolved :: "(resolve_job \<times> event_result) list"
  ms_channel :: "event_result list"

text \<open>\<open>stop.load\<close> reads the shared flag.\<close>

definition load_flag :: "bool \<Rightarrow> 'e dns_sd \<Rightarrow> 'e dns_sd" where
  "load_flag b api = api\<lparr>stop_load := \<lambda>e. (b, e)\<rparr>"

definition guard_stop :: "('e, 'f) mac_system \<Rightarrow> ('e, 'f) mac_system" where
  "guard_stop s = s\<lparr>ms_stop := True\<rparr>"

definition pump_turn :: "'e dns_sd \<Rightarrow> bool \<Rightarrow> 'e pump_phase \<Rightarrow> 'e pump_phase" where
  "pump_turn api stop ph =
     (case ph of
        PumpReady args os \<Rightarrow>
          (case open_pump api args os of
             (Inl err, os) \<Rightarrow> PumpDone (report (Inl err) (PumpState_new (args_interface args))) os
           | (Inr (fd, conn), os) \<Rightarrow>
               PumpLooping fd \<lparr>pump_conn = conn, pump_state = PumpState_new (args_interface args), pump_os = os\<rparr>)
      | PumpLooping fd p \<Rightarrow>
          (case pump_iter (load_flag stop api) fd p of
             (None, p) \<Rightarrow> PumpLooping fd p
           | (Some r, p) \<Rightarrow>
               PumpDone (report r (pump_state p)) (conn_drop api (pump_conn p) (pump_os p)))
      | PumpDone st os \<Rightarrow> ph)"

definition phase_state :: "'e pump_phase \<Rightarrow> PumpState" where
  "phase_state ph =
     (case ph of
        PumpReady args os \<Rightarrow> PumpState_new (args_interface args)
      | PumpLooping fd p \<Rightarrow> pump_state p
      | PumpDone st os \<Rightarrow> st)"

text \<open>
  How the pump's state is part of the system's: the messages and jobs a turn adds to it arrive in the
  channel, which the jobs share, and in the pool.
\<close>

definition take_turn :: "'e dns_sd \<Rightarrow> ('e, 'f) mac_system \<Rightarrow> ('e, 'f) mac_system" where
  "take_turn api s =
     (let ph = pump_turn api (ms_stop s) (ms_pump s);
          st = phase_state (ms_pump s);
          st' = phase_state ph
      in s\<lparr>ms_pump := ph, ms_channel := ms_channel s @ drop (length (sent st)) (sent st'),
           ms_jobs := ms_jobs s @ drop (length (spawned st)) (spawned st')\<rparr>)"

datatype mac_action = PumpTurns | JobRuns nat | StopIsSet

inductive mac_step ::
  "'e dns_sd \<Rightarrow> nat \<Rightarrow> ('f, 'x) dns_resolver_scheme \<Rightarrow>
   ('e, 'f) mac_system \<Rightarrow> mac_action \<Rightarrow> ('e, 'f) mac_system \<Rightarrow> bool" for api fuel rapi where
  turn: "\<nexists>st os. ms_pump s = PumpDone st os \<Longrightarrow> mac_step api fuel rapi s PumpTurns (take_turn api s)"
| job: "\<lbrakk> i < length (ms_jobs s);
     resolve_service fuel rapi (ms_jobs s ! i) (ms_resolver s) = Some (m, os) \<rbrakk> \<Longrightarrow>
   mac_step api fuel rapi s (JobRuns i)
     (s\<lparr>ms_jobs := take i (ms_jobs s) @ drop (Suc i) (ms_jobs s), ms_resolver := os,
        ms_resolved := ms_resolved s @ [(ms_jobs s ! i, m)], ms_channel := ms_channel s @ [m]\<rparr>)"
| stop: "mac_step api fuel rapi s StopIsSet (guard_stop s)"

text \<open>The system starts with what \<open>browse_start\<close> spawns.\<close>

definition mac_init :: "('e, 'f) mac_system \<Rightarrow> bool" where
  "mac_init s \<longleftrightarrow>
     (\<exists>ty d i args e f. mac_browse_start ty d i = Inr args \<and>
        s = \<lparr>ms_pump = PumpReady args \<lparr>env = e, calls = []\<rparr>, ms_stop = False, ms_jobs = [],
             ms_resolver = \<lparr>env = f, calls = []\<rparr>, ms_resolved = [], ms_channel = []\<rparr>)"

subsection \<open>The invariant\<close>

text \<open>The connection and its operations are tracked while the pump runs and released at its end.\<close>

definition released :: "ffi_call list \<Rightarrow> bool" where
  "released cs \<longleftrightarrow> monitor cs Unopened = Some Released \<or>
     (\<exists>err ref. cs = [CreateConnection err ref] \<and> err \<noteq> NO_ERROR)"

definition phase_ok :: "'e pump_phase \<Rightarrow> bool" where
  "phase_ok ph \<longleftrightarrow>
     (case ph of
        PumpReady args os \<Rightarrow> calls os = []
      | PumpLooping fd p \<Rightarrow> tracks (pump_conn p) (pump_os p)
      | PumpDone st os \<Rightarrow> released (calls os))"

text \<open>
  What the calls of the pump stand for: the replies that were dispatched are messages or jobs, and a
  browse that was refused is an error message.
\<close>

fun call_messages :: "ffi_call \<Rightarrow> event_result list" where
  "call_messages (BrowseReplies c err rs) = List.map_filter reply_message rs"
| "call_messages (Browse c t d ctx err op) =
     (if err = NO_ERROR then []
      else [Inl (BrowseFailed (''DNSServiceBrowse failed for '' @ t @ '': '' @ show_i32 err))])"
| "call_messages c = []"

fun call_jobs :: "ffi_call \<Rightarrow> resolve_job list" where
  "call_jobs (BrowseReplies c err rs) = List.map_filter reply_job rs"
| "call_jobs c = []"

definition log_messages :: "ffi_call list \<Rightarrow> event_result list" where
  "log_messages cs = concat (map call_messages cs)"

definition log_jobs :: "ffi_call list \<Rightarrow> resolve_job list" where
  "log_jobs cs = concat (map call_jobs cs)"

lemma log_messages_simps [simp]:
  "log_messages [] = []" "log_jobs [] = []"
  "log_messages (cs @ ds) = log_messages cs @ log_messages ds" "log_jobs (cs @ ds) = log_jobs cs @ log_jobs ds"
  "log_messages [c] = call_messages c" "log_jobs [c] = call_jobs c"
  by (simp_all add: log_messages_def log_jobs_def)

definition phase_calls :: "'e pump_phase \<Rightarrow> ffi_call list" where
  "phase_calls ph =
     (case ph of
        PumpReady args os \<Rightarrow> calls os
      | PumpLooping fd p \<Rightarrow> calls (pump_os p)
      | PumpDone st os \<Rightarrow> calls os)"

definition accounted :: "PumpState \<Rightarrow> ffi_call list \<Rightarrow> bool" where
  "accounted st cs \<longleftrightarrow>
     sent st = log_messages cs \<and> spawned st = log_jobs cs \<and>
     (\<forall>k \<in> set (pending st). nul_free k)"

text \<open>A pump that ended may have sent one more error, the one that ended it.\<close>

definition phase_accounted :: "'e pump_phase \<Rightarrow> bool" where
  "phase_accounted ph \<longleftrightarrow>
     (case ph of
        PumpDone st os \<Rightarrow>
          spawned st = log_jobs (calls os) \<and>
          (sent st = log_messages (calls os) \<or>
           (\<exists>err. sent st = log_messages (calls os) @ [Inl err]))
      | _ \<Rightarrow> accounted (phase_state ph) (phase_calls ph))"

text \<open>What a job sends is about its own instance.\<close>

fun about_job :: "resolve_job \<Rightarrow> event_result \<Rightarrow> bool" where
  "about_job (n, t, d, i) (Inl (ResolveFailed n' err)) \<longleftrightarrow> n' = n"
| "about_job (n, t, d, i) (Inr (Found s)) \<longleftrightarrow>
     ds_name s = n \<and> ds_service_type s = trim_dot t \<and> ds_domain s = trim_dot d \<and>
     ds_interface_index s = NonZeroU32_new i"
| "about_job job m \<longleftrightarrow> False"

lemma resolve_service_about: "resolve_service fuel api job os = Some (m, os') \<Longrightarrow> about_job job m"
  by (cases job) (auto elim!: resolve_service_message simp: resolved_service_def)

definition mac_inv :: "nat \<Rightarrow> ('f, 'x) dns_resolver_scheme \<Rightarrow> ('e, 'f) mac_system \<Rightarrow> bool" where
  "mac_inv fuel rapi s \<longleftrightarrow>
     phase_accounted (ms_pump s) \<and>
     (\<forall>(j, m) \<in> set (ms_resolved s). \<exists>os os'. resolve_service fuel rapi j os = Some (m, os')) \<and>
     phase_ok (ms_pump s) \<and> output_ok (phase_state (ms_pump s)) \<and>
     (\<forall>j \<in> set (ms_jobs s). job_ok j) \<and> (\<forall>m \<in> set (ms_channel s). event_ok m) \<and>
     mset (spawned (phase_state (ms_pump s))) = mset (ms_jobs s) + mset (map fst (ms_resolved s)) \<and>
     mset (ms_channel s) = mset (sent (phase_state (ms_pump s))) + mset (map snd (ms_resolved s)) \<and>
     live_ref (ms_resolver s) None"

definition grows :: "PumpState \<Rightarrow> PumpState \<Rightarrow> bool" where
  "grows st st' \<longleftrightarrow> prefix (sent st) (sent st') \<and> prefix (spawned st) (spawned st')"

lemma grows_refl [simp]: "grows st st"
  by (simp add: grows_def)

lemma grows_trans: "grows a b \<Longrightarrow> grows b c \<Longrightarrow> grows a c"
  by (auto simp: grows_def)

lemma grows_send [simp]: "grows st (send m st)"
  by (simp add: grows_def send_def)

lemma grows_report [simp]: "grows st (report r st)"
  by (cases r) (simp_all add: report_def)

lemma grows_replies: "grows st (fold browse_callback rs st)"
  by (simp add: grows_def fold_replies_sent fold_replies_spawned)

lemma grows_browses: "grows (pump_state p) (pump_state (start_browses api ts p))"
proof (induction api ts p rule: start_browses.induct)
  case (2 api t d rest p)
  obtain r c os where br: "conn_browse api t d (ps_interface (pump_state p)) \<lparr>is_meta = False\<rparr>
      (pump_conn p) (pump_os p) = (r, c, os)"
    by (rule prod_cases3)
  show ?case
  proof (cases r)
    case (Inl err)
    with 2(1) br have "grows (send (Inl err) (pump_state p)) (pump_state (start_browses api rest
        (p\<lparr>pump_conn := c, pump_os := os, pump_state := send (Inl err) (pump_state p)\<rparr>)))"
      by fastforce
    with br Inl show ?thesis by (simp add: grows_trans [OF grows_send])
  next
    case (Inr u)
    with 2(2) br show ?thesis by fastforce
  qed
qed simp

lemma grows_pending: "grows (pump_state p) (pump_state (start_pending_browses api p))"
  using grows_browses [of "p\<lparr>pump_state := (pump_state p)\<lparr>pending := []\<rparr>\<rparr>" api "pending (pump_state p)"]
  by (simp add: start_pending_browses_def grows_def)

lemma conn_process_result_grows:
  "conn_process_result api c st os = (r, st', os') \<Longrightarrow> grows st st'"
  by (auto simp: conn_process_result_def grows_replies split: prod.splits)

lemma pump_iter_grows: "pump_iter api fd p = (r, p') \<Longrightarrow> grows (pump_state p) (pump_state p')"
proof -
  have step: "grows st0 (pump_state (start_pending_browses api (q\<lparr>pump_state := st, pump_os := os\<rparr>)))"
    if "grows st0 st" for st0 st os and q :: "'a pump"
    using grows_trans [OF that] grows_pending [of "q\<lparr>pump_state := st, pump_os := os\<rparr>" api] by simp
  show "pump_iter api fd p = (r, p') \<Longrightarrow> grows (pump_state p) (pump_state p')"
    by (auto simp: pump_iter_def Let_def split: prod.splits if_splits sum.splits
        dest!: conn_process_result_grows intro!: step)
qed

lemma pump_turn_grows: "grows (phase_state ph) (phase_state (pump_turn api b ph))"
proof (cases ph)
  case (PumpReady args os)
  then show ?thesis
    by (simp add: pump_turn_def phase_state_def split: prod.split sum.split)
next
  case (PumpLooping fd p)
  obtain r p' where run: "pump_iter (load_flag b api) fd p = (r, p')" by fastforce
  from pump_iter_grows [OF this] PumpLooping run show ?thesis
    by (auto simp: pump_turn_def phase_state_def split: option.split intro: grows_trans [OF _ grows_report])
next
  case (PumpDone st os)
  then show ?thesis by (simp add: pump_turn_def)
qed

lemma report_output [simp]: "output_ok st \<Longrightarrow> output_ok (report r st)"
  by (cases r) (simp_all add: report_def)

lemma pump_turn_output: "output_ok (phase_state ph) \<Longrightarrow> output_ok (phase_state (pump_turn api b ph))"
proof (cases ph)
  case (PumpReady args os)
  then show ?thesis by (simp add: pump_turn_def phase_state_def split: prod.split sum.split)
next
  case (PumpLooping fd p)
  assume ok: "output_ok (phase_state ph)"
  obtain r p' where run: "pump_iter (load_flag b api) fd p = (r, p')" by fastforce
  from pump_iter_output [OF _ this] ok PumpLooping run show ?thesis
    by (auto simp: pump_turn_def phase_state_def split: option.split)
next
  case (PumpDone st os)
  assume "output_ok (phase_state ph)"
  with PumpDone show ?thesis by (simp add: pump_turn_def)
qed

lemma open_pump_outcome:
  assumes "calls os = []"
  shows "case open_pump api args os of
      (Inl err, os') \<Rightarrow> released (calls os')
    | (Inr (fd, c), os') \<Rightarrow> tracks c os'"
proof -
  obtain ty d i m where args: "args = (ty, d, i, m)" by (cases args)
  obtain rc os1 where create: "conn_create api os = (rc, os1)" by fastforce
  show ?thesis
  proof (cases rc)
    case (Inl err)
    with create assms show ?thesis
      by (auto simp: args open_pump_def released_def conn_create_def split: prod.splits if_splits)
  next
    case (Inr c)
    have t1: "tracks c os1"
      by (rule conn_create_tracks [OF _ create [unfolded Inr]]) (simp add: assms)
    obtain rf os2 where fd: "conn_socket_fd api c os1 = (rf, os2)" by fastforce
    have t2: "tracks c os2" using t1 fd by (rule conn_socket_fd_tracks)
    obtain rb c' os3 where br: "conn_browse api ty d i \<lparr>is_meta = m\<rparr> c os2 = (rb, c', os3)"
      by (cases "conn_browse api ty d i \<lparr>is_meta = m\<rparr> c os2") auto
    have t3: "tracks c' os3" using t2 br by (rule conn_browse_tracks)
    show ?thesis
      using t2 t3 by (auto simp: args open_pump_def create Inr fd br released_def conn_drop_monitor
          split: sum.split)
  qed
qed

lemma pump_turn_phase: "phase_ok ph \<Longrightarrow> phase_ok (pump_turn api b ph)"
proof (cases ph)
  case (PumpReady args os)
  assume "phase_ok ph"
  with PumpReady have "calls os = []" by (simp add: phase_ok_def)
  from open_pump_outcome [OF this, of api args] PumpReady show ?thesis
    by (auto simp: pump_turn_def phase_ok_def split: prod.splits sum.splits)
next
  case (PumpLooping fd p)
  assume ok: "phase_ok ph"
  obtain r p' where run: "pump_iter (load_flag b api) fd p = (r, p')" by fastforce
  from pump_iter_tracks [OF _ this] ok PumpLooping run show ?thesis
    by (auto simp: pump_turn_def phase_ok_def released_def conn_drop_monitor split: option.split)
next
  case (PumpDone st os)
  assume "phase_ok ph"
  with PumpDone show ?thesis by (simp add: pump_turn_def)
qed

subsection \<open>The calls of a turn\<close>

lemma accounted_env [simp]: "accounted (st\<lparr>traced := x\<rparr>) cs = accounted st cs"
  by (simp add: accounted_def)

lemma dispatch_accounted:
  assumes "accounted st (calls os)" and "conn_process_result api c st os = (r, st', os')"
  shows "accounted st' (calls os')"
proof -
  obtain err rs e where st': "st' = fold browse_callback rs st"
    and os': "os' = log_call (BrowseReplies (shared c) err rs) e os"
    using assms(2) by (auto simp: conn_process_result_def split: prod.splits)
  have "\<forall>k \<in> set (List.map_filter reply_type rs). nul_free k"
    by (auto simp: set_map_filter reply_type_nul_free)
  with assms(1) fold_replies_refine [of rs st] set_fresh [of "seen st" "List.map_filter reply_type rs"]
  show ?thesis by (auto simp: accounted_def st' os')
qed

lemma outcomes_accounted:
  "list_all2 (outcome_of api c i) ts outs \<Longrightarrow> \<forall>k \<in> set ts. nul_free k \<Longrightarrow>
   log_messages (concat (map2 (outcome_calls c) ts outs)) = concat (map2 outcome_errors ts outs) \<and>
   log_jobs (concat (map2 (outcome_calls c) ts outs)) = []"
proof (induction ts outs rule: list_all2_induct)
  case (Cons k ts out outs)
  obtain t d where k: "k = (t, d)" by (cases k)
  have "\<not> outcome_of api c i (t, d) (NotCString err)" for err
    using Cons.prems k by (simp add: nul_free_def cstring_no_nul)
  with Cons.hyps(1) k obtain err op where "out = Asked err op" by (cases out) auto
  with Cons k show ?case by (simp add: log_messages_def log_jobs_def)
qed simp

lemma browses_accounted:
  assumes "accounted (pump_state p) (calls (pump_os p))"
  shows "accounted (pump_state (start_pending_browses api p)) (calls (pump_os (start_pending_browses api p)))"
proof -
  obtain outs where outs: "list_all2 (outcome_of api (shared (pump_conn p)) (ps_interface (pump_state p)))
      (pending (pump_state p)) outs"
    and run: "calls (pump_os (start_pending_browses api p)) =
       calls (pump_os p) @ concat (map2 (outcome_calls (shared (pump_conn p))) (pending (pump_state p)) outs)"
      "sent (pump_state (start_pending_browses api p)) =
       sent (pump_state p) @ concat (map2 outcome_errors (pending (pump_state p)) outs)"
      "pending (pump_state (start_pending_browses api p)) = []"
    using start_pending_isolates [of api p] by blast
  have "spawned (pump_state (start_pending_browses api p)) = spawned (pump_state p)"
    by (simp add: start_pending_browses_def start_browses_state)
  with assms run outcomes_accounted [OF outs] show ?thesis by (simp add: accounted_def)
qed

lemma pump_iter_accounted:
  assumes "accounted (pump_state p) (calls (pump_os p))" and "pump_iter api fd p = (r, p')"
  shows "accounted (pump_state p') (calls (pump_os p'))"
proof -
  have browses: "accounted (pump_state (start_pending_browses api (q\<lparr>pump_state := st, pump_os := os\<rparr>)))
      (calls (pump_os (start_pending_browses api (q\<lparr>pump_state := st, pump_os := os\<rparr>))))"
    if "accounted st (calls os)" for st os and q :: "'a pump"
    using browses_accounted [of "q\<lparr>pump_state := st, pump_os := os\<rparr>" api] that by simp
  from assms show ?thesis
    by (auto simp: pump_iter_def Let_def split: prod.splits if_splits sum.splits
        dest!: dispatch_accounted [rotated] intro!: browses)
qed

lemma dealloc_messages [simp]:
  "log_messages (calls (conn_drop api c os)) = log_messages (calls os)"
  "log_jobs (calls (conn_drop api c os)) = log_jobs (calls os)"
proof -
  have "log_messages (calls (dealloc_all api rs os)) = log_messages (calls os) \<and>
      log_jobs (calls (dealloc_all api rs os)) = log_jobs (calls os)" for rs
    by (induction rs arbitrary: os) simp_all
  then show "log_messages (calls (conn_drop api c os)) = log_messages (calls os)"
    "log_jobs (calls (conn_drop api c os)) = log_jobs (calls os)"
    by (simp_all add: conn_drop_def)
qed

lemma conn_browse_messages:
  assumes "conn_browse api t d i ctx c os = (r, c', os')"
  shows "log_jobs (calls os') = log_jobs (calls os) \<and>
    (log_messages (calls os') = log_messages (calls os) \<or>
     (\<exists>err. r = Inl err \<and> log_messages (calls os') = log_messages (calls os) @ [Inl err]))"
  using assms by (auto simp: conn_browse_def cstring_Inr Let_def split: prod.splits sum.splits if_splits)

lemma open_pump_messages:
  assumes "calls os = []" and "open_pump api args os = (r, os')"
  shows "log_jobs (calls os') = []"
    and "isl r \<or> log_messages (calls os') = []"
    and "r = Inl err \<Longrightarrow> log_messages (calls os') \<in> {[], [Inl err]}"
proof -
  have fd: "conn_create api os = (rc, os1) \<Longrightarrow> log_messages (calls os1) = [] \<and> log_jobs (calls os1) = []"
    "conn_socket_fd api c os1 = (rf, os2) \<Longrightarrow> log_messages (calls os2) = log_messages (calls os1) \<and>
      log_jobs (calls os2) = log_jobs (calls os1)" for rc os1 rf os2 c
    using assms(1) by (auto simp: conn_create_def conn_socket_fd_def split: prod.splits)
  have "log_jobs (calls os') = [] \<and> (isl r \<or> log_messages (calls os') = []) \<and>
      (\<forall>err. r = Inl err \<longrightarrow> log_messages (calls os') \<in> {[], [Inl err]})"
    using assms(2)
    by (cases args)
       (auto simp: open_pump_def split: prod.splits sum.splits dest!: fd conn_browse_messages)
  then show "log_jobs (calls os') = []" "isl r \<or> log_messages (calls os') = []"
    "r = Inl err \<Longrightarrow> log_messages (calls os') \<in> {[], [Inl err]}"
    by blast+
qed

lemma pump_turn_accounted:
  assumes "phase_accounted ph" and "phase_ok ph"
  shows "phase_accounted (pump_turn api b ph)"
proof (cases ph)
  case (PumpReady args os)
  obtain r os' where op: "open_pump api args os = (r, os')" by fastforce
  have "calls os = []" using assms(2) PumpReady by (simp add: phase_ok_def)
  note msgs = open_pump_messages [OF this op]
  show ?thesis
  proof (cases r)
    case (Inl err)
    with msgs(1) msgs(3) [of err] op PumpReady show ?thesis
      by (auto simp: pump_turn_def phase_accounted_def report_def send_def PumpState_new_def)
  next
    case (Inr x)
    with msgs(1,2) op PumpReady show ?thesis
      by (cases x) (auto simp: pump_turn_def phase_accounted_def accounted_def PumpState_new_def
          phase_state_def phase_calls_def)
  qed
next
  case (PumpLooping fd p)
  obtain r p' where run: "pump_iter (load_flag b api) fd p = (r, p')" by fastforce
  have "accounted (pump_state p) (calls (pump_os p))"
    using assms(1) PumpLooping by (simp add: phase_accounted_def phase_state_def phase_calls_def)
  from pump_iter_accounted [OF this run] PumpLooping run show ?thesis
    by (auto simp: pump_turn_def phase_accounted_def accounted_def phase_state_def phase_calls_def
        report_def send_def split: option.split sum.split)
next
  case (PumpDone st os)
  with assms show ?thesis by (simp add: pump_turn_def)
qed

subsection \<open>Every step keeps it\<close>

lemma take_turn_inv: "mac_inv fuel rapi s \<Longrightarrow> mac_inv fuel rapi (take_turn api s)"
proof -
  assume inv: "mac_inv fuel rapi s"
  define ph where "ph = pump_turn api (ms_stop s) (ms_pump s)"
  let ?st = "phase_state (ms_pump s)" and ?st' = "phase_state ph"
  have phase: "phase_ok ph" and out: "output_ok ?st'" and acc: "phase_accounted ph"
    using inv pump_turn_phase pump_turn_output pump_turn_accounted by (auto simp: mac_inv_def ph_def)
  have "grows ?st ?st'" unfolding ph_def by (rule pump_turn_grows)
  then obtain ms js where g: "sent ?st' = sent ?st @ ms" "spawned ?st' = spawned ?st @ js"
    by (auto simp: grows_def prefix_def)
  then have "\<forall>m \<in> set ms. event_ok m" "\<forall>j \<in> set js. job_ok j"
    using out by (auto simp: output_ok_def)
  with inv phase out acc g show ?thesis
    by (auto simp: mac_inv_def take_turn_def Let_def ball_Un simp flip: ph_def)
qed

lemma mset_remove_nth: "i < length xs \<Longrightarrow> mset xs = add_mset (xs ! i) (mset (take i xs @ drop (Suc i) xs))"
  by (metis (no_types, lifting) id_take_nth_drop mset_append union_mset_add_mset_right mset.simps(2))

lemma mac_step_inv: "mac_inv fuel rapi s \<Longrightarrow> mac_step api fuel rapi s x s' \<Longrightarrow> mac_inv fuel rapi s'"
proof -
  assume inv: "mac_inv fuel rapi s" and "mac_step api fuel rapi s x s'"
  from this(2) show "mac_inv fuel rapi s'"
  proof cases
    case turn
    with inv show ?thesis by (simp add: take_turn_inv)
  next
    case (job i m os)
    have "ms_jobs s ! i \<in> set (ms_jobs s)" using job(3) by simp
    with inv have ok: "job_ok (ms_jobs s ! i)" by (simp add: mac_inv_def)
    have live: "live_ref os None"
      using inv job(4) by (auto simp: mac_inv_def intro: resolve_service_live)
    have "event_ok m" using resolve_service_event_ok [OF ok job(4)] .
    with inv live mset_remove_nth [OF job(3)] job(4) show ?thesis
      by (auto simp: job(2) mac_inv_def dest: in_set_takeD in_set_dropD)
  next
    case stop
    with inv show ?thesis by (simp add: mac_inv_def guard_stop_def)
  qed
qed

lemma mac_init_inv: "mac_init s \<Longrightarrow> mac_inv fuel rapi s"
  by (auto simp: mac_init_def mac_inv_def phase_ok_def phase_state_def output_ok_def live_ref_def
      phase_accounted_def phase_calls_def accounted_def PumpState_new_def)

interpretation mac_threads: transition_system mac_init "mac_step api fuel rapi" "\<lambda>_ _. True" "mac_inv fuel rapi" for api fuel rapi
  by unfold_locales (auto intro: mac_init_inv mac_step_inv)

lemma stopped_turn:
  assumes "ms_stop s" and "ms_pump s = PumpLooping fd p"
  shows "\<exists>os. ms_pump (take_turn api s) = PumpDone (pump_state p) os"
  using assms pump_iter_stop [of "load_flag True api" p fd]
  by (simp add: take_turn_def pump_turn_def load_flag_def report_def Let_def)

lemma turns_end:
  fixes s :: "('a, 'b) mac_system" and api :: "'a dns_sd"
  assumes "mac_inv fuel rapi s" and "ms_stop s"
  shows "\<exists>st os. ms_pump (take_turn api (take_turn api s)) = PumpDone st os \<and> released (calls os)"
proof -
  have stop: "ms_stop (take_turn api s) = ms_stop s" for s :: "('a, 'b) mac_system"
    by (simp add: take_turn_def Let_def)
  have ended: "ms_pump s = PumpDone st os \<Longrightarrow> ms_pump (take_turn api s) = PumpDone st os"
    for s :: "('a, 'b) mac_system" and st os
    by (simp add: take_turn_def pump_turn_def Let_def)
  have "\<exists>st os. ms_pump (take_turn api (take_turn api s)) = PumpDone st os"
  proof (cases "ms_pump (take_turn api s)")
    case (PumpReady args os)
    then show ?thesis
      by (cases "ms_pump s")
         (auto simp: take_turn_def pump_turn_def Let_def split: prod.splits sum.splits option.splits)
  next
    case (PumpLooping fd p)
    with stopped_turn [of "take_turn api s" fd p api] assms(2) stop show ?thesis by blast
  next
    case (PumpDone st os)
    with ended show ?thesis by blast
  qed
  then obtain st os where "ms_pump (take_turn api (take_turn api s)) = PumpDone st os" by blast
  moreover have "mac_inv fuel rapi (take_turn api (take_turn api s))" using assms(1) by (intro take_turn_inv)
  ultimately show ?thesis by (auto simp: mac_inv_def phase_ok_def)
qed

end
