(* ===== verification/Mac_System_Properties.thy ===== *)
theory Mac_System_Properties
  imports Mac_System
begin

text \<open>
  The properties of the macOS threads, each with an instance on a sample daemon whose clock advances
  with every poll.
\<close>

subsection \<open>A sample run\<close>

definition sample_ticking :: "nat dns_sd" where
  "sample_ticking = sample_daemon\<lparr>poll := \<lambda>fd ev ms e. ((1, POLLIN, 0), e + 1)\<rparr>"

definition sample_job :: resolve_job where
  "sample_job = (''Printer'', ''_http._tcp.'', ''local.'', 4)"

definition sample_ready :: "nat pump_phase" where
  "sample_ready = PumpReady (META_QUERY_TYPE, [], 0, True) \<lparr>env = 0, calls = []\<rparr>"

definition sample_looping :: "sdref list \<Rightarrow> PumpState \<Rightarrow> nat \<Rightarrow> nat \<Rightarrow> nat pump_phase" where
  "sample_looping refs st e n =
     PumpLooping 7 \<lparr>pump_conn = \<lparr>shared = 100, ops = refs\<rparr>, pump_state = st,
       pump_os = \<lparr>env = e, calls = take n sample_calls\<rparr>\<rparr>"

definition sample_mac ::
  "nat pump_phase \<Rightarrow> resolve_job list \<Rightarrow> event_result list \<Rightarrow> (nat, nat) mac_system" where
  "sample_mac ph js ms =
     \<lparr>ms_pump = ph, ms_stop = False, ms_jobs = js, ms_resolver = \<lparr>env = 0, calls = []\<rparr>,
      ms_resolved = [], ms_channel = ms\<rparr>"

text \<open>
  The pump opens its connection, finds a type, then an instance, a removal and an error; at last the
  instance is resolved.
\<close>

definition sample_mac0 :: "(nat, nat) mac_system" where
  "sample_mac0 = sample_mac sample_ready [] []"

definition sample_mac1 :: "(nat, nat) mac_system" where
  "sample_mac1 = sample_mac (sample_looping [200] (PumpState_new 0) 0 3) [] []"

definition sample_mac2 :: "(nat, nat) mac_system" where
  "sample_mac2 = sample_mac (sample_looping [200, 201] sample_mid 1 5) [] []"

definition sample_mac3 :: "(nat, nat) mac_system" where
  "sample_mac3 = sample_mac (sample_looping [200, 201] sample_end 2 6) [sample_job] (sent sample_end)"

definition sample_mac4 :: "(nat, nat) mac_system" where
  "sample_mac4 = sample_mac3
     \<lparr>ms_jobs := [], ms_resolver := \<lparr>env = 4, calls = sample_resolve_calls\<rparr>,
      ms_resolved := [(sample_job, Inr (Found sample_service))],
      ms_channel := sent sample_end @ [Inr (Found sample_service)]\<rparr>"

text \<open>Only the loop polls and reads the flag.\<close>

lemma operations_without_poll [simp]:
  fixes api :: "'e dns_sd" and f g
  defines "api' \<equiv> api\<lparr>poll := f, stop_load := g\<rparr>"
  shows "conn_create api' = conn_create api" and "conn_socket_fd api' = conn_socket_fd api"
    and "conn_browse api' = conn_browse api" and "conn_process_result api' = conn_process_result api"
    and "dealloc_all api' = dealloc_all api" and "conn_drop api' = conn_drop api"
    and "start_browses api' = start_browses api" and "start_pending_browses api' = start_pending_browses api"
proof -
  show "conn_create api' = conn_create api" "conn_socket_fd api' = conn_socket_fd api"
    "conn_process_result api' = conn_process_result api"
    by (intro ext; simp add: conn_create_def conn_socket_fd_def conn_process_result_def api'_def)+
  show browse: "conn_browse api' = conn_browse api"
    by (intro ext) (simp add: conn_browse_def api'_def split: sum.split)
  have "dealloc_all api' rs os = dealloc_all api rs os" for rs os
    by (induction rs arbitrary: os) (simp_all add: api'_def)
  then show dealloc: "dealloc_all api' = dealloc_all api" by (intro ext)
  then show "conn_drop api' = conn_drop api" by (intro ext) (simp add: conn_drop_def)
  have "start_browses api' ts p = start_browses api ts p" for ts p
  proof (induction ts arbitrary: p)
    case (Cons t ts)
    then show ?case by (cases t) (simp add: browse split: prod.split sum.split)
  qed simp
  then have "start_browses api' = start_browses api" by (intro ext)
  then show "start_browses api' = start_browses api" "start_pending_browses api' = start_pending_browses api"
    by (simp_all add: start_pending_browses_def fun_eq_iff)
qed

lemma ticking_iter:
  assumes "env (pump_os p) \<noteq> 2"
  shows "pump_iter (load_flag False sample_ticking) fd p = pump_iter sample_daemon fd p"
proof -
  have "load_flag False sample_ticking =
      sample_daemon\<lparr>poll := \<lambda>fd ev ms e. ((1, POLLIN, 0), e + 1), stop_load := \<lambda>e. (False, e)\<rparr>"
    by (simp add: load_flag_def sample_ticking_def)
  moreover have "stop_load sample_daemon e = (e = 2, e + 1)" "poll sample_daemon fd ev ms e = ((1, POLLIN, 0), e)"
    for fd ev ms e by (simp_all add: sample_daemon_def)
  ultimately show ?thesis using assms by (simp add: pump_iter_def Let_def split: sum.split prod.split)
qed

lemma sample_opens:
  "open_pump sample_ticking (META_QUERY_TYPE, [], 0, True) \<lparr>env = 0, calls = []\<rparr> =
   (Inr (7, \<lparr>shared = 100, ops = [200]\<rparr>), \<lparr>env = 0, calls = take 3 sample_calls\<rparr>)"
  using operations_without_poll
    [where api = sample_daemon and f = "\<lambda>fd ev ms e. ((1, POLLIN, 0), e + 1)" and
      g = "stop_load sample_daemon"]
  by (simp add: open_pump_def sample_setup sample_ticking_def)

lemma sample_turns:
  "take_turn sample_ticking sample_mac0 = sample_mac1"
  "take_turn sample_ticking sample_mac1 = sample_mac2"
  "take_turn sample_ticking sample_mac2 = sample_mac3"
proof -
  show "take_turn sample_ticking sample_mac0 = sample_mac1"
    by (simp add: take_turn_def pump_turn_def phase_state_def sample_mac0_def sample_mac1_def sample_mac_def
        sample_ready_def sample_looping_def sample_opens args_interface_def)
  show "take_turn sample_ticking sample_mac1 = sample_mac2"
    by (simp add: take_turn_def pump_turn_def phase_state_def sample_mac1_def sample_mac2_def sample_mac_def
        sample_looping_def ticking_iter sample_round1)
       (simp add: sample_mid_def offer_type_def PumpState_new_def)
  show "take_turn sample_ticking sample_mac2 = sample_mac3"
    by (simp add: take_turn_def pump_turn_def phase_state_def sample_mac2_def sample_mac3_def sample_mac_def
        sample_looping_def ticking_iter sample_round2)
       (simp add: sample_mid_def sample_end_def sample_job_def offer_type_def PumpState_new_def)
qed

abbreviation sample_mac_step :: "(nat, nat) mac_system \<Rightarrow> mac_action \<Rightarrow> (nat, nat) mac_system \<Rightarrow> bool" where
  "sample_mac_step \<equiv> mac_step sample_ticking 2000000001 sample_resolver"

lemma sample_job_runs: "sample_mac_step sample_mac3 (JobRuns 0) sample_mac4"
proof -
  have "sample_mac_step sample_mac3 (JobRuns 0)
    (sample_mac3\<lparr>ms_jobs := take 0 (ms_jobs sample_mac3) @ drop (Suc 0) (ms_jobs sample_mac3),
       ms_resolver := \<lparr>env = 4, calls = sample_resolve_calls\<rparr>,
       ms_resolved := ms_resolved sample_mac3 @ [(ms_jobs sample_mac3 ! 0, Inr (Found sample_service))],
       ms_channel := ms_channel sample_mac3 @ [Inr (Found sample_service)]\<rparr>)"
    by (rule mac_step.job) (simp_all add: sample_mac3_def sample_mac_def sample_job_def sample_resolve_service)
  then show ?thesis by (simp add: sample_mac4_def sample_mac3_def sample_mac_def)
qed

lemma sample_mac_turn:
  "\<nexists>st os. ms_pump s = PumpDone st os \<Longrightarrow> take_turn sample_ticking s = s' \<Longrightarrow> sample_mac_step s PumpTurns s'"
  using mac_step.turn [of s sample_ticking] by auto

lemma sample_mac_reached:
  "reachable mac_init sample_mac_step (\<lambda>_ _. True) sample_mac3"
proof -
  have "mac_init sample_mac0"
    by (auto simp: mac_init_def sample_mac0_def sample_mac_def sample_ready_def mac_browse_start_def
        intro!: exI [of _ "None :: bytes option"] exI [of _ "None :: u32 option"])
  then have "reachable mac_init sample_mac_step (\<lambda>_ _. True) sample_mac0" by (rule reachable.start)
  moreover have "sample_mac_step sample_mac0 PumpTurns sample_mac1"
    by (rule sample_mac_turn [OF _ sample_turns(1)]) (simp add: sample_mac0_def sample_mac_def sample_ready_def)
  ultimately have "reachable mac_init sample_mac_step (\<lambda>_ _. True) sample_mac1"
    by (rule reachable_any)
  moreover have "sample_mac_step sample_mac1 PumpTurns sample_mac2"
    by (rule sample_mac_turn [OF _ sample_turns(2)]) (simp add: sample_mac1_def sample_mac_def sample_looping_def)
  ultimately have "reachable mac_init sample_mac_step (\<lambda>_ _. True) sample_mac2"
    by (rule reachable_any)
  moreover have "sample_mac_step sample_mac2 PumpTurns sample_mac3"
    by (rule sample_mac_turn [OF _ sample_turns(3)]) (simp add: sample_mac2_def sample_mac_def sample_looping_def)
  ultimately show ?thesis by (rule reachable_any)
qed

lemma sample_mac_resolves: "reachable (\<lambda>x. x = sample_mac3) sample_mac_step (\<lambda>_ _. True) sample_mac4"
proof -
  have "reachable (\<lambda>x. x = sample_mac3) sample_mac_step (\<lambda>_ _. True) sample_mac3"
    by (rule reachable.start) (rule refl)
  from this TrueI sample_job_runs show ?thesis by (rule reachable.move)
qed

subsection \<open>Properties\<close>

text \<open>
  C6: Every reply of the daemon is accounted for, in any interleaving of the pump, the resolve jobs and
  the guard. Read off the calls to \<open>dns_sd.h\<close> so far: each instance that was announced in a reply
  has a resolve job, which waits or has run, and there are no other jobs; each job that has run sent
  what resolving its instance gave, a message about that instance. The channel holds exactly these
  messages, one for each removal and each error among the replies, one for each browse that the
  daemon refused, and, once the pump has ended, at most the error that ended it; and every message
  is well formed.
\<close>

theorem mac_messages_accounted:
  assumes "reachable mac_init (mac_step api fuel rapi) (\<lambda>_ _. True) s"
  shows "\<exists>ended.
    mset (ms_channel s) = mset (log_messages (phase_calls (ms_pump s))) + mset ended +
      mset (map snd (ms_resolved s)) \<and>
    (ended = [] \<or> (\<exists>err st os. ended = [Inl err] \<and> ms_pump s = PumpDone st os)) \<and>
    mset (ms_jobs s) + mset (map fst (ms_resolved s)) = mset (log_jobs (phase_calls (ms_pump s))) \<and>
    list_all (\<lambda>(job, m). about_job job m \<and>
      (\<exists>os os'. resolve_service fuel rapi job os = Some (m, os'))) (ms_resolved s) \<and>
    list_all event_ok (ms_channel s)"
proof -
  have inv: "mac_inv fuel rapi s" using assms by (rule mac_threads.reachable_invar)
  have "\<exists>ended. sent (phase_state (ms_pump s)) = log_messages (phase_calls (ms_pump s)) @ ended \<and>
      (ended = [] \<or> (\<exists>err st os. ended = [Inl err] \<and> ms_pump s = PumpDone st os)) \<and>
      spawned (phase_state (ms_pump s)) = log_jobs (phase_calls (ms_pump s))"
    using inv by (cases "ms_pump s")
      (auto simp: mac_inv_def phase_accounted_def accounted_def phase_state_def phase_calls_def)
  then obtain ended where ended: "sent (phase_state (ms_pump s)) = log_messages (phase_calls (ms_pump s)) @ ended"
    "ended = [] \<or> (\<exists>err st os. ended = [Inl err] \<and> ms_pump s = PumpDone st os)"
    "spawned (phase_state (ms_pump s)) = log_jobs (phase_calls (ms_pump s))" by blast
  have "mset (ms_channel s) = mset (log_messages (phase_calls (ms_pump s))) + mset ended +
      mset (map snd (ms_resolved s))"
    using inv ended(1) by (simp add: mac_inv_def)
  moreover have "mset (ms_jobs s) + mset (map fst (ms_resolved s)) = mset (log_jobs (phase_calls (ms_pump s)))"
    using inv ended(3) by (simp add: mac_inv_def)
  moreover have "list_all event_ok (ms_channel s)" using inv by (simp add: mac_inv_def list_all_iff)
  moreover have "list_all (\<lambda>(job, m). about_job job m \<and>
      (\<exists>os os'. resolve_service fuel rapi job os = Some (m, os'))) (ms_resolved s)"
    using inv by (fastforce simp: mac_inv_def list_all_iff dest: resolve_service_about)
  ultimately show ?thesis using ended(2) by blast
qed

theorem mac_messages_accounted_witness:
  "mset (ms_channel sample_mac4) = mset (sent sample_end) + {#Inr (Found sample_service)#} \<and>
   log_jobs (take 6 sample_calls) = [sample_job]"
proof -
  have first: "fold browse_callback (sample_replies 1) st = offer_type (''_http._tcp'', ''local'') st"
    if "st = PumpState_new 0" for st
    by (simp add: sample_replies_def sample_callbacks that) (simp add: offer_type_def PumpState_new_def)
  have second: "fold browse_callback (sample_replies 2) st =
      send (sent sample_end ! 1) (send (hd (sent sample_end)) (st\<lparr>spawned := spawned st @ [sample_job]\<rparr>))" for st
    by (simp add: sample_replies_def sample_callbacks sample_job_def)
  have r1: "List.map_filter reply_message (sample_replies 1) = []" "List.map_filter reply_job (sample_replies 1) = []"
    using fold_replies_sent [of "sample_replies 1" "PumpState_new 0"]
      fold_replies_spawned [of "sample_replies 1" "PumpState_new 0"]
    unfolding first [OF refl] by (simp_all add: offer_type_def PumpState_new_def)
  have r2: "List.map_filter reply_message (sample_replies 2) = sent sample_end"
    "List.map_filter reply_job (sample_replies 2) = [sample_job]"
    using fold_replies_sent [of "sample_replies 2" "PumpState_new 0"]
      fold_replies_spawned [of "sample_replies 2" "PumpState_new 0"]
    unfolding second by (simp_all add: send_def PumpState_new_def sample_end_def)
  have "log_messages (take 6 sample_calls) = sent sample_end" and jobs: "log_jobs (take 6 sample_calls) = [sample_job]"
    using r1 r2 by (simp_all add: sample_calls_def log_messages_def log_jobs_def NO_ERROR_def)
  then show ?thesis
    using mac_messages_accounted [OF reachable_trans [OF sample_mac_resolves sample_mac_reached]]
    by (auto simp: sample_mac4_def sample_mac3_def sample_mac_def sample_looping_def phase_calls_def)
qed

text \<open>
  C11: Dropping the guard ends the pump: from every reachable state with the flag set, the pump is done
  after at most two more turns, one when its loop was running, and by then every operation and the
  connection have been released, each once and the connection last.
\<close>

theorem mac_guard_ends_pump:
  assumes "reachable mac_init (mac_step api fuel rapi) (\<lambda>_ _. True) s" and "ms_stop s"
  shows "(\<exists>st os. ms_pump (take_turn api (take_turn api s)) = PumpDone st os \<and> released (calls os)) \<and>
    \<not> (\<exists>fd p fd' p'. ms_pump s = PumpLooping fd p \<and> ms_pump (take_turn api s) = PumpLooping fd' p')"
proof -
  have "mac_inv fuel rapi s" using assms(1) by (rule mac_threads.reachable_invar)
  from turns_end [OF this assms(2)] stopped_turn [OF assms(2), of _ _ api] show ?thesis by fastforce
qed

theorem mac_guard_ends_pump_witness:
  "\<exists>st os. ms_pump (take_turn sample_ticking (take_turn sample_ticking (guard_stop sample_mac3))) = PumpDone st os \<and>
    released (calls os)"
  using mac_guard_ends_pump [OF reachable.move [OF sample_mac_reached TrueI mac_step.stop]]
  by (simp add: guard_stop_def)

subsection \<open>A removal before its appearance\<close>

text \<open>A daemon that announces an instance and takes it back in one batch of replies.\<close>

definition fleeting_replies :: "browse_reply list" where
  "fleeting_replies =
     [sample_reply False 3 0 ''Printer'' ''_http._tcp.'' ''local.'',
      sample_reply False 0 0 ''Printer'' ''_http._tcp.'' ''local.'']"

definition fleeting_daemon :: "nat dns_sd" where
  "fleeting_daemon = sample_ticking\<lparr>DNSServiceProcessResult := \<lambda>r e. ((0, fleeting_replies), e)\<rparr>"

definition fleeting_start :: "(nat, nat) mac_system" where
  "fleeting_start = sample_mac (PumpReady (''_http._tcp'', ''local'', 0, False) \<lparr>env = 0, calls = []\<rparr>) [] []"

definition printer_gone :: RemovedService where
  "printer_gone = \<lparr>rs_name = ''Printer'', rs_service_type = ''_http._tcp'', rs_domain = ''local'',
     rs_interface_index = Some 4\<rparr>"

lemma fleeting_callbacks:
  "fold browse_callback fleeting_replies st =
   send (Inr (Removed printer_gone)) (st\<lparr>spawned := spawned st @ [sample_job]\<rparr>)"
  by (simp add: fleeting_replies_def sample_callbacks sample_job_def)
     (simp add: browse_callback_def sample_reply_def NO_ERROR_def FLAGS_ADD_def Let_def sample_names
      sample_cstrings NonZeroU32_new_def printer_gone_def)

lemma fleeting_turns:
  "ms_channel (take_turn fleeting_daemon (take_turn fleeting_daemon fleeting_start)) = [Inr (Removed printer_gone)]"
  "ms_jobs (take_turn fleeting_daemon (take_turn fleeting_daemon fleeting_start)) = [sample_job]"
  "ms_resolver (take_turn fleeting_daemon (take_turn fleeting_daemon fleeting_start)) = \<lparr>env = 0, calls = []\<rparr>"
  "\<nexists>st os. ms_pump (take_turn fleeting_daemon fleeting_start) = PumpDone st os"
  by (simp_all add: take_turn_def pump_turn_def phase_state_def fleeting_start_def sample_mac_def open_pump_def
      fleeting_daemon_def sample_ticking_def sample_daemon_def load_flag_def conn_create_def conn_socket_fd_def
      conn_browse_def sample_cstrings NO_ERROR_def POLLIN_def pump_iter_def conn_process_result_def fleeting_callbacks
      start_pending_browses_def PumpState_new_def send_def log_call_def args_interface_def Let_def)

text \<open>
  On macOS, too, a removal can overtake the appearance it belongs to, which a resolve job reports:
  the browser is told that the instance is gone before it is told that it was found.
\<close>

theorem mac_removal_overtakes_found:
  "\<exists>s f r. reachable mac_init (mac_step fleeting_daemon 2000000001 sample_resolver) (\<lambda>_ _. True) s \<and>
     ms_channel s = [Inr (Removed r), Inr (Found f)] \<and> ms_jobs s = [] \<and>
     (ds_name f, ds_service_type f, ds_domain f, ds_interface_index f) =
       (rs_name r, rs_service_type r, rs_domain r, rs_interface_index r)"
proof -
  let ?step = "mac_step fleeting_daemon 2000000001 sample_resolver"
  define s1 where "s1 = take_turn fleeting_daemon fleeting_start"
  define s2 where "s2 = take_turn fleeting_daemon s1"
  have "mac_browse_start (Some ''_http._tcp'') (Some ''local'') None = Inr (''_http._tcp'', ''local'', 0, False)"
    by (simp add: mac_browse_start_def)
  then have "mac_init fleeting_start" unfolding mac_init_def fleeting_start_def sample_mac_def by blast
  then have "reachable mac_init ?step (\<lambda>_ _. True) fleeting_start" by (rule reachable.start)
  moreover have "?step fleeting_start PumpTurns s1" unfolding s1_def
    by (rule mac_step.turn) (simp add: fleeting_start_def sample_mac_def)
  ultimately have "reachable mac_init ?step (\<lambda>_ _. True) s1" by (rule reachable_any)
  moreover have "?step s1 PumpTurns s2" unfolding s2_def
    by (rule mac_step.turn) (use fleeting_turns(4) in \<open>simp add: s1_def\<close>)
  ultimately have "reachable mac_init ?step (\<lambda>_ _. True) s2" by (rule reachable_any)
  moreover have "?step s2 (JobRuns 0) (s2\<lparr>ms_jobs := take 0 (ms_jobs s2) @ drop (Suc 0) (ms_jobs s2),
      ms_resolver := \<lparr>env = 4, calls = sample_resolve_calls\<rparr>,
      ms_resolved := ms_resolved s2 @ [(ms_jobs s2 ! 0, Inr (Found sample_service))],
      ms_channel := ms_channel s2 @ [Inr (Found sample_service)]\<rparr>)" (is "mac_step _ _ _ _ _ ?s3")
    by (rule mac_step.job) (use fleeting_turns(2,3) in \<open>simp_all add: s1_def s2_def sample_job_def sample_resolve_service\<close>)
  ultimately have "reachable mac_init ?step (\<lambda>_ _. True) ?s3" by (rule reachable_any)
  moreover have "ms_channel ?s3 = [Inr (Removed printer_gone), Inr (Found sample_service)]" "ms_jobs ?s3 = []"
    using fleeting_turns(1,2) by (simp_all add: s1_def s2_def)
  moreover have "(ds_name sample_service, ds_service_type sample_service, ds_domain sample_service,
      ds_interface_index sample_service) = (rs_name printer_gone, rs_service_type printer_gone, rs_domain printer_gone,
      rs_interface_index printer_gone)"
    by (simp add: sample_service_def printer_gone_def)
  ultimately show ?thesis by blast
qed

end
