(* ===== verification/Rust_Ip.thy ===== *)
theory Rust_Ip
  imports Browse
begin

text \<open>
  \<open>IpAddr::from_str\<close> of Rust's standard library: the recursive-descent parser over bytes, where
  \<open>None\<close> leaves the input where it was.
\<close>

type_synonym 'a parser = "bytes \<Rightarrow> ('a \<times> bytes) option"

definition to_digit :: "nat \<Rightarrow> byte \<Rightarrow> nat option" where
  "to_digit radix b =
     (let n = byte_val b;
          d = (if 48 \<le> n \<and> n < 58 then Some (n - 48)
               else if 97 \<le> n \<and> n < 123 then Some (n - 87)
               else if 65 \<le> n \<and> n < 91 then Some (n - 55)
               else None)
      in Option.bind d (\<lambda>d. if d < radix then Some d else None))"

fun read_digits :: "nat \<Rightarrow> nat \<Rightarrow> nat \<Rightarrow> nat \<Rightarrow> bytes \<Rightarrow> (nat \<times> nat \<times> bytes) option" where
  "read_digits radix max_digits result count [] = Some (result, count, [])"
| "read_digits radix max_digits result count (b # s) =
     (case to_digit radix b of
        None \<Rightarrow> Some (result, count, b # s)
      | Some d \<Rightarrow>
          if max_digits < Suc count then None
          else read_digits radix max_digits (result * radix + d) (Suc count) s)"

text \<open>\<open>bound\<close> is one more than the largest value of the integer type the number is read into.\<close>

definition read_number :: "nat \<Rightarrow> nat \<Rightarrow> bool \<Rightarrow> nat \<Rightarrow> nat parser" where
  "read_number radix max_digits allow_zero_prefix bound s =
     (case read_digits radix max_digits 0 0 s of
        None \<Rightarrow> None
      | Some (n, count, rest) \<Rightarrow>
          if count = 0 then None
          else if \<not> allow_zero_prefix \<and> hd s = CHR ''0'' \<and> 1 < count then None
          else if n < bound then Some (n, rest) else None)"

definition read_separator :: "byte \<Rightarrow> nat \<Rightarrow> 'a parser \<Rightarrow> 'a parser" where
  "read_separator sep index inner s =
     (if 0 < index
      then (case s of [] \<Rightarrow> None | c # s' \<Rightarrow> if c = sep then inner s' else None)
      else inner s)"

definition read_octet :: "nat \<Rightarrow> nat parser" where
  "read_octet i = read_separator (CHR ''.'') i (read_number 10 3 False 256)"

definition read_ipv4_addr :: "(nat \<times> nat \<times> nat \<times> nat) parser" where
  "read_ipv4_addr s =
     Option.bind (read_octet 0 s) (\<lambda>(a, s).
     Option.bind (read_octet 1 s) (\<lambda>(b, s).
     Option.bind (read_octet 2 s) (\<lambda>(c, s).
     Option.bind (read_octet 3 s) (\<lambda>(d, s). Some ((a, b, c, d), s)))))"

text \<open>\<open>read_groups k i\<close>: the groups from index \<open>i\<close> on, with \<open>k\<close> slots left.\<close>

fun read_groups :: "nat \<Rightarrow> nat \<Rightarrow> bytes \<Rightarrow> nat list \<times> bool \<times> bytes" where
  "read_groups 0 i s = ([], False, s)"
| "read_groups (Suc k) i s =
     (case (if 0 < k then read_separator (CHR '':'') i read_ipv4_addr s else None) of
        Some ((a, b, c, d), rest) \<Rightarrow> ([256 * a + b, 256 * c + d], True, rest)
      | None \<Rightarrow>
          (case read_separator (CHR '':'') i (read_number 16 4 True 65536) s of
             Some (g, rest) \<Rightarrow>
               (case read_groups k (Suc i) rest of (gs, v4, rest') \<Rightarrow> (g # gs, v4, rest'))
           | None \<Rightarrow> ([], False, s)))"

definition read_ipv6_addr :: "nat list parser" where
  "read_ipv6_addr s =
     (case read_groups 8 0 s of (head, head_ipv4, s) \<Rightarrow>
        if length head = 8 then Some (head, s)
        else if head_ipv4 then None
        else
          (case s of
             c1 # c2 # s \<Rightarrow>
               (if c1 = CHR '':'' \<and> c2 = CHR '':'' then
                  (case read_groups (7 - length head) 0 s of (tail, _, s) \<Rightarrow>
                     Some (head @ replicate (8 - length head - length tail) 0 @ tail, s))
                else None)
           | _ \<Rightarrow> None))"

definition ipv4_of :: "nat \<times> nat \<times> nat \<times> nat \<Rightarrow> IpAddr" where
  "ipv4_of q = (case q of (a, b, c, d) \<Rightarrow>
     V4 (word_of_nat (16777216 * a + 65536 * b + 256 * c + d)))"

definition ipv6_of :: "nat list \<Rightarrow> IpAddr" where
  "ipv6_of gs = V6 (foldl (\<lambda>w g. 65536 * w + word_of_nat g) 0 gs)"

definition ip_from_str :: "bytes \<Rightarrow> IpAddr option" where
  "ip_from_str s =
     (case (case read_ipv4_addr s of
              Some (q, rest) \<Rightarrow> Some (ipv4_of q, rest)
            | None \<Rightarrow> map_option (\<lambda>(gs, rest). (ipv6_of gs, rest)) (read_ipv6_addr s)) of
        Some (ip, []) \<Rightarrow> Some ip
      | _ \<Rightarrow> None)"

subsection \<open>The dotted form is read back\<close>

definition show_ipv4 :: "u32 \<Rightarrow> bytes" where
  "show_ipv4 w = join ''.'' (map (\<lambda>b. show_nat (byte_val b)) (u32_to_be_bytes w))"

lemma to_digit_digit [simp]: "n < 10 \<Longrightarrow> to_digit 10 (digit n) = Some n"
  by (simp add: to_digit_def byte_val_digit)

lemma digit_zero: "n < 10 \<Longrightarrow> digit n = CHR ''0'' \<longleftrightarrow> n = 0"
proof
  assume "n < 10" and "digit n = CHR ''0''"
  then have "48 + n = byte_val (CHR ''0'')" using byte_val_digit [of n] by simp
  then show "n = 0" by simp
qed (simp add: digit_def char_of_def bit_0)

text \<open>A number ends where no digit follows.\<close>

definition number_end :: "bytes \<Rightarrow> bool" where
  "number_end s \<longleftrightarrow> s = [] \<or> to_digit 10 (hd s) = None"

lemma number_end_simps [simp]: "number_end []" "number_end (CHR ''.'' # s)"
  by (simp_all add: number_end_def to_digit_def)

lemma read_digits_end: "number_end s \<Longrightarrow> read_digits 10 m r c s = Some (r, c, s)"
  by (cases s) (auto simp: number_end_def)

lemma show_nat_digit: "n < 10 \<Longrightarrow> show_nat n = [digit n]"
  by (simp add: show_nat.simps)

lemma show_nat_more: "10 \<le> n \<Longrightarrow> show_nat n = show_nat (n div 10) @ [digit (n mod 10)]"
  by (subst show_nat.simps) simp

lemma read_show_1:
  "n < 10 \<Longrightarrow> number_end s \<Longrightarrow> read_number 10 3 False 256 (show_nat n @ s) = Some (n, s)"
  by (simp add: show_nat_digit read_number_def read_digits_end)

lemma read_digits_2:
  "a < 10 \<Longrightarrow> b < 10 \<Longrightarrow> a \<noteq> 0 \<Longrightarrow> number_end s \<Longrightarrow>
   read_number 10 3 False 256 (digit a # digit b # s) = Some (a * 10 + b, s)"
  by (simp add: read_number_def read_digits_end digit_zero)

lemma read_digits_3:
  "a < 10 \<Longrightarrow> b < 10 \<Longrightarrow> c < 10 \<Longrightarrow> a \<noteq> 0 \<Longrightarrow> number_end s \<Longrightarrow> (a * 10 + b) * 10 + c < 256 \<Longrightarrow>
   read_number 10 3 False 256 (digit a # digit b # digit c # s) = Some ((a * 10 + b) * 10 + c, s)"
  by (simp add: read_number_def read_digits_end digit_zero)

lemma read_show_2:
  assumes "10 \<le> n" and "n < 100" and "number_end s"
  shows "read_number 10 3 False 256 (show_nat n @ s) = Some (n, s)"
proof -
  have "show_nat n = [digit (n div 10), digit (n mod 10)]"
    using assms by (simp add: show_nat_more show_nat_digit)
  moreover have "n div 10 < 10" "n mod 10 < 10" "n div 10 \<noteq> 0" using assms by auto
  ultimately show ?thesis using read_digits_2 [of "n div 10" "n mod 10" s] assms(3) by simp
qed

lemma read_show_3:
  assumes "100 \<le> n" and "n < 256" and "number_end s"
  shows "read_number 10 3 False 256 (show_nat n @ s) = Some (n, s)"
proof -
  define q where "q = n div 10"
  have q: "10 \<le> q" "q < 100" "q * 10 + n mod 10 = n" using assms by (auto simp: q_def)
  have "show_nat n = show_nat q @ [digit (n mod 10)]"
    using assms by (simp add: show_nat_more q_def)
  also have "show_nat q = [digit (q div 10), digit (q mod 10)]"
    using q by (simp add: show_nat_more show_nat_digit)
  finally have s: "show_nat n = [digit (q div 10), digit (q mod 10), digit (n mod 10)]" by simp
  have d: "q div 10 < 10" "q mod 10 < 10" "n mod 10 < 10" "q div 10 \<noteq> 0" using q by auto
  have e: "(q div 10 * 10 + q mod 10) * 10 + n mod 10 = n" using q(3) by simp
  show ?thesis
    using read_digits_3 [OF d(1,2,3,4) assms(3)] assms(2) unfolding e s by simp
qed

lemma read_show_octet:
  "n < 256 \<Longrightarrow> number_end s \<Longrightarrow> read_number 10 3 False 256 (show_nat n @ s) = Some (n, s)"
  by (cases "n < 10"; cases "n < 100") (simp_all add: read_show_1 read_show_2 read_show_3)

lemma ipv4_of_bytes:
  "ipv4_of (byte_val a, byte_val b, byte_val c, byte_val d) = V4 (word_of_nat (be_nat [a, b, c, d]))"
  by (simp add: ipv4_of_def be_nat_def)

lemma be_nat_u32: "word_of_nat (be_nat (u32_to_be_bytes w)) = w"
proof -
  define n where "n = unat w"
  have n: "n < 4294967296" using unsigned_less [of w] by (simp add: n_def)
  have "be_nat (u32_to_be_bytes w) =
      256 * (256 * (256 * (n div 16777216 mod 256) + n div 65536 mod 256) + n div 256 mod 256) + n mod 256"
    by (simp add: be_nat_def u32_to_be_bytes_def n_def)
  also have "\<dots> = n"
  proof -
    have "n div 65536 = n div 256 div 256" "n div 16777216 = n div 256 div 256 div 256"
      by (simp_all flip: div_mult2_eq)
    moreover have "n div 256 div 256 div 256 mod 256 = n div 256 div 256 div 256"
      using n by (simp flip: div_mult2_eq)
    ultimately show ?thesis by simp
  qed
  finally show ?thesis by (simp add: n_def)
qed

lemma ip_from_str_show_ipv4: "ip_from_str (show_ipv4 w) = Some (V4 w)"
proof -
  obtain a b c d where bs: "u32_to_be_bytes w = [a, b, c, d]"
    by (simp add: u32_to_be_bytes_def)
  have less: "byte_val x < 256" for x by (rule byte_val_less)
  have "read_ipv4_addr (show_ipv4 w) = Some ((byte_val a, byte_val b, byte_val c, byte_val d), [])"
    by (simp add: show_ipv4_def bs read_ipv4_addr_def read_octet_def read_separator_def
        read_show_octet [OF less] read_show_octet [OF less, of "[]", simplified])
  then show ?thesis
    by (simp add: ip_from_str_def ipv4_of_bytes be_nat_u32 flip: bs)
qed

end
