(* ===== verification/Linux.thy ===== *)
theory Linux
  imports Rust_Ip Contracts
begin

text \<open>
  The Linux back-end (\<open>src/linux/browse.rs\<close>, \<open>src/linux/dbus.rs\<close>): Avahi over D-Bus. The zbus
  library and the daemon behind it are the fields of a \<open>dbus\<close> record over an environment of any
  type; every call to the bus is logged. A failed call answers with the text of its error.
\<close>

subsection \<open>Interfaces\<close>

definition AVAHI_PROTO_UNSPEC :: i32 where "AVAHI_PROTO_UNSPEC = -1"

definition AVAHI_IF_UNSPEC :: i32 where "AVAHI_IF_UNSPEC = -1"

text \<open>\<open>as i32\<close> keeps the bits of a \<open>u32\<close>; the comparison with \<open>i32::MAX\<close> is unsigned.\<close>

definition interface_to_avahi :: "u32 option \<Rightarrow> ServiceBrowseError + i32" where
  "interface_to_avahi interface_index =
     (case interface_index of
        Some idx \<Rightarrow>
          if (0x7FFFFFFF :: u32) < idx then Inl (InvalidInterfaceIndex idx) else Inr idx
      | None \<Rightarrow> Inr AVAHI_IF_UNSPEC)"

definition avahi_interface_to_index :: "i32 \<Rightarrow> u32 option" where
  "avahi_interface_to_index interface =
     (if sint interface \<le> 0 then None else NonZeroU32_new interface)"

subsection \<open>The bus\<close>

text \<open>\<open>(interface, protocol, name, type, domain, host, aprotocol, address, port, txt, flags)\<close>\<close>

type_synonym resolved_tuple =
  "i32 \<times> i32 \<times> bytes \<times> bytes \<times> bytes \<times> bytes \<times> i32 \<times> bytes \<times> u16 \<times> bytes list \<times> u32"

type_synonym type_item = "i32 \<times> i32 \<times> bytes \<times> bytes \<times> u32"

type_synonym instance_item = "i32 \<times> i32 \<times> bytes \<times> bytes \<times> bytes \<times> u32"

text \<open>
  A signal: its member, and what its body deserialises to at each of the three types the crate
  asks for. A stream item is a message or an error; with it, what the task observes of its
  surroundings while it handles the item: whether the receiver is still there and which of the
  resolvers it spawned (counted from 0) have finished.
\<close>

record dbus_message =
  msg_member :: "bytes option"
  body_type_item :: "bytes + type_item"
  body_instance_item :: "bytes + instance_item"
  body_string :: "bytes + bytes"

record stream_item =
  it_message :: "bytes + dbus_message"
  it_open :: bool
  it_finished :: "nat \<Rightarrow> bool"

type_synonym bus_conn = nat

datatype bus_call =
    SystemBus
  | AvahiServer bus_conn
  | Subscribe bus_conn bytes bytes
  | ServiceTypeBrowserNew bus_conn i32 i32 bytes u32
  | ServiceBrowserNew bus_conn i32 i32 bytes bytes u32
  | ResolveService bus_conn i32 i32 bytes bytes bytes i32 u32
  | FreeBrowser bus_conn bytes

text \<open>
  \<open>for_match_rule\<close> answers with every item the stream yields until it ends; the \<open>browser_new\<close>
  methods with the path of the new object.
\<close>

record 'e dbus =
  system_bus :: "'e \<Rightarrow> (bytes + bus_conn) \<times> 'e"
  avahi_new :: "bus_conn \<Rightarrow> 'e \<Rightarrow> (bytes + unit) \<times> 'e"
  build_rule :: "bytes \<Rightarrow> bytes \<Rightarrow> bytes + bytes \<times> bytes"
  for_match_rule :: "bytes \<times> bytes \<Rightarrow> bus_conn \<Rightarrow> 'e \<Rightarrow> (bytes + stream_item list) \<times> 'e"
  service_type_browser_new :: "bus_conn \<Rightarrow> i32 \<Rightarrow> i32 \<Rightarrow> bytes \<Rightarrow> u32 \<Rightarrow> 'e \<Rightarrow> (bytes + bytes) \<times> 'e"
  service_browser_new ::
    "bus_conn \<Rightarrow> i32 \<Rightarrow> i32 \<Rightarrow> bytes \<Rightarrow> bytes \<Rightarrow> u32 \<Rightarrow> 'e \<Rightarrow> (bytes + bytes) \<times> 'e"
  server_resolve ::
    "bus_conn \<Rightarrow> i32 \<Rightarrow> i32 \<Rightarrow> bytes \<Rightarrow> bytes \<Rightarrow> bytes \<Rightarrow> i32 \<Rightarrow> u32 \<Rightarrow> 'e \<Rightarrow>
     (bytes + resolved_tuple) \<times> 'e"
  browser_free :: "bus_conn \<Rightarrow> bytes \<Rightarrow> 'e \<Rightarrow> (bytes + unit) \<times> 'e"

record 'e bus =
  bus_env :: 'e
  bus_calls :: "bus_call list"

definition invoke ::
  "bus_call \<Rightarrow> ('e \<Rightarrow> (bytes + 'a) \<times> 'e) \<Rightarrow> 'e bus \<Rightarrow> (bytes + 'a) \<times> 'e bus" where
  "invoke c f os =
     (case f (bus_env os) of (r, e) \<Rightarrow> (r, \<lparr>bus_env = e, bus_calls = bus_calls os @ [c]\<rparr>))"

text \<open>A step that cannot be logged: it reads the environment only.\<close>

definition pure_result :: "'err + 'a \<Rightarrow> 's \<Rightarrow> ('err + 'a) \<times> 's" where
  "pure_result r s = (r, s)"

definition connect_system :: "'e dbus \<Rightarrow> 'e bus \<Rightarrow> (ServiceBrowseError + bus_conn) \<times> 'e bus" where
  "connect_system api =
     map_err (\<lambda>err. DnsSdUnavailable (''failed to connect to system D-Bus: '' @ err))
       (invoke SystemBus (system_bus api))"

definition connect_avahi :: "'e dbus \<Rightarrow> bus_conn \<Rightarrow> 'e bus \<Rightarrow> (ServiceBrowseError + unit) \<times> 'e bus" where
  "connect_avahi api conn =
     map_err (\<lambda>err. DnsSdUnavailable (''failed to connect to Avahi via D-Bus: '' @ err))
       (invoke (AvahiServer conn) (avahi_new api conn))"

subsection \<open>Resolving\<close>

definition resolved_to_service :: "resolved_tuple \<Rightarrow> DiscoveredService" where
  "resolved_to_service resolved =
     (case resolved of
        (iface, proto, name, service_type, domain, host, aproto, address, port, txt_entries, flags) \<Rightarrow>
          \<lparr>ds_name = name, ds_service_type = service_type, ds_domain = domain, ds_host_name = host,
           ds_port = port,
           ds_addresses = (case ip_from_str address of Some ip \<Rightarrow> [ip] | None \<Rightarrow> []),
           ds_txt_records = map parse_txt_entry txt_entries,
           ds_interface_index = avahi_interface_to_index iface\<rparr>)"

definition linux_resolve_once :: "'e dbus \<Rightarrow> ('e bus) resolve_once" where
  "linux_resolve_once api name service_type domain interface_index os =
     Some (try_then (pure_result (interface_to_avahi interface_index)) (\<lambda>interface.
           try_then (connect_system api) (\<lambda>conn.
           try_then (connect_avahi api conn) (\<lambda>_.
           try_then (map_err (\<lambda>err. ResolveFailed name err)
             (invoke (ResolveService conn interface AVAHI_PROTO_UNSPEC name service_type domain
                        AVAHI_PROTO_UNSPEC 0)
                (server_resolve api conn interface AVAHI_PROTO_UNSPEC name service_type domain
                   AVAHI_PROTO_UNSPEC 0))) (\<lambda>resolved.
           return_ok (resolved_to_service resolved))))) os)"

text \<open>A found instance as \<open>ItemNew\<close> announced it, and the task that resolves it: one message.\<close>

type_synonym linux_job = "i32 \<times> i32 \<times> bytes \<times> bytes \<times> bytes"

definition resolve_and_emit ::
  "'e dbus \<Rightarrow> bus_conn \<Rightarrow> linux_job \<Rightarrow> 'e bus \<Rightarrow> event_result \<times> 'e bus" where
  "resolve_and_emit api conn job os =
     (case job of (interface, protocol, name, service_type, domain) \<Rightarrow>
     (case invoke (AvahiServer conn) (avahi_new api conn) os of
        (Inl err, os) \<Rightarrow> (Inl (ResolveFailed name err), os)
      | (Inr _, os) \<Rightarrow>
          (case invoke (ResolveService conn interface protocol name service_type domain
                          AVAHI_PROTO_UNSPEC 0)
                  (server_resolve api conn interface protocol name service_type domain
                     AVAHI_PROTO_UNSPEC 0) os of
             (Inr resolved, os) \<Rightarrow> (Inr (Found (resolved_to_service resolved)), os)
           | (Inl err, os) \<Rightarrow> (Inl (ResolveFailed name err), os))))"

subsection \<open>Subscribing\<close>

definition SERVICE_BROWSER_INTERFACE :: bytes where
  "SERVICE_BROWSER_INTERFACE = ''org.freedesktop.Avahi.ServiceBrowser''"

definition SERVICE_TYPE_BROWSER_INTERFACE :: bytes where
  "SERVICE_TYPE_BROWSER_INTERFACE = ''org.freedesktop.Avahi.ServiceTypeBrowser''"

definition connect_and_subscribe ::
  "'e dbus \<Rightarrow> bytes \<Rightarrow> 'e bus \<Rightarrow> (ServiceBrowseError + (bus_conn \<times> stream_item list)) \<times> 'e bus" where
  "connect_and_subscribe api interface =
     try_then (connect_system api) (\<lambda>conn.
     try_then (map_err BrowseFailed (pure_result (build_rule api ''org.freedesktop.Avahi'' interface))) (\<lambda>rule.
     try_then (map_err BrowseFailed
       (invoke (Subscribe conn (fst rule) (snd rule)) (for_match_rule api rule conn))) (\<lambda>messages.
     try_then (map_err DnsSdUnavailable (invoke (AvahiServer conn) (avahi_new api conn))) (\<lambda>_.
     return_ok (conn, messages)))))"

subsection \<open>Browsing all types\<close>

text \<open>
  The locals of the task; \<open>child_browsers\<close> holds the arguments of the instance browses it
  spawned. A message to a receiver that is gone is lost.
\<close>

record TypeBrowse =
  tb_seen :: "(bytes \<times> bytes) set"
  child_browsers :: "(bytes \<times> bytes) list"
  tb_sent :: "event_result list"
  tb_warned :: "bytes list"

definition TypeBrowse_new :: TypeBrowse where
  "TypeBrowse_new = \<lparr>tb_seen = {}, child_browsers = [], tb_sent = [], tb_warned = []\<rparr>"

definition tb_send :: "bool \<Rightarrow> event_result \<Rightarrow> TypeBrowse \<Rightarrow> TypeBrowse" where
  "tb_send is_open m st = (if is_open then st\<lparr>tb_sent := tb_sent st @ [m]\<rparr> else st)"

definition tb_warn :: "bytes \<Rightarrow> TypeBrowse \<Rightarrow> TypeBrowse" where
  "tb_warn w st = st\<lparr>tb_warned := tb_warned st @ [w]\<rparr>"

definition spawn_browse :: "bytes \<times> bytes \<Rightarrow> TypeBrowse \<Rightarrow> TypeBrowse" where
  "spawn_browse key st =
     (if key \<in> tb_seen st then st
      else st\<lparr>tb_seen := insert key (tb_seen st), child_browsers := child_browsers st @ [key]\<rparr>)"

definition unwrap_or_default :: "bytes + bytes \<Rightarrow> bytes" where
  "unwrap_or_default r = (case r of Inr s \<Rightarrow> s | Inl _ \<Rightarrow> [])"

definition type_step :: "stream_item \<Rightarrow> TypeBrowse \<Rightarrow> control \<times> TypeBrowse" where
  "type_step it st =
     (Continue,
      case it_message it of
        Inl err \<Rightarrow> tb_warn (''service type browser message error: '' @ err) st
      | Inr msg \<Rightarrow>
          (if msg_member msg = Some ''ItemNew'' then
             (case body_type_item msg of
                Inl err \<Rightarrow> tb_warn (''malformed service type ItemNew: '' @ err) st
              | Inr (iface, proto, service_type, item_domain, flags) \<Rightarrow>
                  spawn_browse (service_type, item_domain) st)
           else if msg_member msg = Some ''Failure'' then
             tb_send (it_open it) (Inl (BrowseFailed
               (''service type browser failure: '' @ unwrap_or_default (body_string msg)))) st
           else st))"

text \<open>
  The task as a whole: the final locals, or the ones at an early return. An error before the loop
  is sent; the receiver is still there when \<open>is_open\<close>.
\<close>

definition browse_all_types ::
  "'e dbus \<Rightarrow> bool \<Rightarrow> i32 \<Rightarrow> bytes \<Rightarrow> 'e bus \<Rightarrow> TypeBrowse \<times> 'e bus" where
  "browse_all_types api is_open interface domain os =
     (case connect_and_subscribe api SERVICE_TYPE_BROWSER_INTERFACE os of
        (Inl err, os) \<Rightarrow> (tb_send is_open (Inl err) TypeBrowse_new, os)
      | (Inr (conn, messages), os) \<Rightarrow>
          (case invoke (ServiceTypeBrowserNew conn interface AVAHI_PROTO_UNSPEC domain 0)
                  (service_type_browser_new api conn interface AVAHI_PROTO_UNSPEC domain 0) os of
             (Inl err, os) \<Rightarrow>
               (tb_send is_open (Inl (BrowseFailed (''ServiceTypeBrowserNew failed: '' @ err)))
                  TypeBrowse_new, os)
           | (Inr type_browser, os) \<Rightarrow>
               (loop type_step messages TypeBrowse_new,
                snd (invoke (FreeBrowser conn type_browser) (browser_free api conn type_browser) os))))"

subsection \<open>Browsing one type\<close>

text \<open>
  The locals of the task. Its resolver tasks are numbered in the order it spawned them, and
  \<open>resolvers\<close> holds the handles it owns; \<open>aborted\<close> are the ones it dropped so far, each of which
  aborts its task.
\<close>

record InstanceBrowse =
  ib_spawned :: "linux_job list"
  resolvers :: "nat list"
  aborted :: "nat list"
  ib_sent :: "event_result list"
  ib_warned :: "bytes list"

definition InstanceBrowse_new :: InstanceBrowse where
  "InstanceBrowse_new =
     \<lparr>ib_spawned = [], resolvers = [], aborted = [], ib_sent = [], ib_warned = []\<rparr>"

definition ib_send :: "bool \<Rightarrow> event_result \<Rightarrow> InstanceBrowse \<Rightarrow> InstanceBrowse" where
  "ib_send is_open m st = (if is_open then st\<lparr>ib_sent := ib_sent st @ [m]\<rparr> else st)"

definition ib_warn :: "bytes \<Rightarrow> InstanceBrowse \<Rightarrow> InstanceBrowse" where
  "ib_warn w st = st\<lparr>ib_warned := ib_warned st @ [w]\<rparr>"

definition spawn_resolver :: "(nat \<Rightarrow> bool) \<Rightarrow> linux_job \<Rightarrow> InstanceBrowse \<Rightarrow> InstanceBrowse" where
  "spawn_resolver is_finished job st =
     st\<lparr>aborted := aborted st @ filter is_finished (resolvers st),
        resolvers := filter (\<lambda>r. \<not> is_finished r) (resolvers st) @ [length (ib_spawned st)],
        ib_spawned := ib_spawned st @ [job]\<rparr>"

definition instance_step ::
  "bytes \<Rightarrow> stream_item \<Rightarrow> InstanceBrowse \<Rightarrow> control \<times> InstanceBrowse" where
  "instance_step service_type it st =
     (case it_message it of
        Inl err \<Rightarrow> (Continue, ib_warn (''service browser message error: '' @ err) st)
      | Inr msg \<Rightarrow>
          (if msg_member msg = Some ''ItemNew'' then
             (case body_instance_item msg of
                Inl err \<Rightarrow> (Continue, ib_warn (''malformed ItemNew: '' @ err) st)
              | Inr (iface, protocol, name, item_type, item_domain, flags) \<Rightarrow>
                  (Continue,
                   spawn_resolver (it_finished it) (iface, protocol, name, item_type, item_domain) st))
           else if msg_member msg = Some ''ItemRemove'' then
             (case body_instance_item msg of
                Inl err \<Rightarrow> (Continue, ib_warn (''malformed ItemRemove: '' @ err) st)
              | Inr (iface, protocol, name, item_type, item_domain, flags) \<Rightarrow>
                  (if it_open it then Continue else Break,
                   ib_send (it_open it) (Inr (Removed
                     \<lparr>rs_name = name, rs_service_type = item_type, rs_domain = item_domain,
                      rs_interface_index = avahi_interface_to_index iface\<rparr>)) st))
           else if msg_member msg = Some ''Failure'' then
             (Continue, ib_send (it_open it) (Inl (BrowseFailed
               (''service browser failure for '' @ service_type @ '': '' @
                unwrap_or_default (body_string msg)))) st)
           else (Continue, st)))"

definition end_of_task :: "InstanceBrowse \<Rightarrow> InstanceBrowse" where
  "end_of_task st = st\<lparr>aborted := aborted st @ resolvers st, resolvers := []\<rparr>"

definition browse_one_type ::
  "'e dbus \<Rightarrow> bool \<Rightarrow> i32 \<Rightarrow> bytes \<Rightarrow> bytes \<Rightarrow> 'e bus \<Rightarrow> InstanceBrowse \<times> 'e bus" where
  "browse_one_type api is_open interface service_type domain os =
     (case connect_and_subscribe api SERVICE_BROWSER_INTERFACE os of
        (Inl err, os) \<Rightarrow> (ib_send is_open (Inl err) InstanceBrowse_new, os)
      | (Inr (conn, messages), os) \<Rightarrow>
          (case invoke (ServiceBrowserNew conn interface AVAHI_PROTO_UNSPEC service_type domain 0)
                  (service_browser_new api conn interface AVAHI_PROTO_UNSPEC service_type domain 0) os of
             (Inl err, os) \<Rightarrow>
               (ib_send is_open (Inl (BrowseFailed
                  (''ServiceBrowserNew failed for '' @ service_type @ '': '' @ err)))
                  InstanceBrowse_new, os)
           | (Inr browser, os) \<Rightarrow>
               (end_of_task (loop (instance_step service_type) messages InstanceBrowse_new),
                snd (invoke (FreeBrowser conn browser) (browser_free api conn browser) os))))"

subsection \<open>Starting\<close>

text \<open>The root task that the guard aborts when it is dropped.\<close>

datatype root_task = BrowseOneType i32 bytes bytes | BrowseAllTypes i32 bytes

definition linux_browse_start ::
  "'e dbus \<Rightarrow> bytes option \<Rightarrow> bytes option \<Rightarrow> u32 option \<Rightarrow> 'e bus \<Rightarrow>
   (ServiceBrowseError + root_task) \<times> 'e bus" where
  "linux_browse_start api service_type domain interface_index =
     try_then (connect_system api) (\<lambda>conn.
     try_then (connect_avahi api conn) (\<lambda>_.
     try_then (pure_result (interface_to_avahi interface_index)) (\<lambda>interface.
     (let domain = (case domain of Some d \<Rightarrow> d | None \<Rightarrow> [])
      in return_ok (case service_type of
           Some service_type \<Rightarrow> BrowseOneType interface service_type domain
         | None \<Rightarrow> BrowseAllTypes interface domain)))))"

end
