(* ===== verification/Linux_Tasks.thy ===== *)
theory Linux_Tasks
  imports Linux_Safety
begin

text \<open>
  The tasks of the Linux back-end as wholes: the order of their bus calls, the well-formedness of
  what they send, and the one-shot resolve against its contract.
\<close>

subsection \<open>What the crate relies on\<close>

text \<open>zbus: a built rule matches what was asked, and a D-Bus string is valid UTF-8.\<close>

definition rule_faithful :: "'e dbus \<Rightarrow> bool" where
  "rule_faithful api \<longleftrightarrow> (\<forall>s i r. build_rule api s i = Inr r \<longrightarrow> r = (s, i))"

definition item_valid :: "stream_item \<Rightarrow> bool" where
  "item_valid it \<longleftrightarrow>
     (case it_message it of
        Inl _ \<Rightarrow> True
      | Inr msg \<Rightarrow>
          (case body_instance_item msg of
             Inl _ \<Rightarrow> True
           | Inr (i, p, n, t, d, f) \<Rightarrow> utf8_valid n \<and> utf8_valid t \<and> utf8_valid d))"

definition resolved_valid :: "resolved_tuple \<Rightarrow> bool" where
  "resolved_valid r =
     (case r of (i, p, n, t, d, h, ap, a, port, txt_entries, f) \<Rightarrow>
        utf8_valid n \<and> utf8_valid t \<and> utf8_valid d \<and> utf8_valid h)"

definition bus_strings_valid :: "'e dbus \<Rightarrow> bool" where
  "bus_strings_valid api \<longleftrightarrow>
     (\<forall>r c e its e'. for_match_rule api r c e = (Inr its, e') \<longrightarrow> list_all item_valid its) \<and>
     (\<forall>c i p n t d a f e x e'. server_resolve api c i p n t d a f e = (Inr x, e') \<longrightarrow> resolved_valid x)"

lemma bus_strings_items:
  "bus_strings_valid api \<Longrightarrow> for_match_rule api r c e = (Inr its, e') \<Longrightarrow> list_all item_valid its"
  unfolding bus_strings_valid_def by blast

lemma bus_strings_resolved:
  "bus_strings_valid api \<Longrightarrow> server_resolve api c i p n t d a f e = (Inr x, e') \<Longrightarrow> resolved_valid x"
  unfolding bus_strings_valid_def by blast

subsection \<open>Resolving\<close>

lemma resolved_to_service_ok: "resolved_valid r \<Longrightarrow> service_ok (resolved_to_service r)"
  by (auto simp: resolved_valid_def resolved_to_service_def service_ok_def parse_txt_entry_key_valid
      split: prod.splits)

lemma invoke_Inr: "invoke c f os = (Inr x, os') \<Longrightarrow> \<exists>e'. f (bus_env os) = (Inr x, e')"
  by (auto simp: invoke_def split: prod.splits)

text \<open>A resolver task sends one message, about its own instance.\<close>

lemma resolve_and_emit_message:
  assumes "resolve_and_emit api c (i, p, n, t, d) os = (m, os')"
  obtains (failed) err where "m = Inl (ResolveFailed n err)"
  | (found) r e e' where "m = Inr (Found (resolved_to_service r))"
      and "server_resolve api c i p n t d AVAHI_PROTO_UNSPEC 0 e = (Inr r, e')"
  using assms
  by (auto simp: resolve_and_emit_def split: prod.splits sum.splits dest: invoke_Inr)

lemma resolve_and_emit_ok:
  assumes "bus_strings_valid api" and "resolve_and_emit api c job os = (m, os')"
  shows "event_ok m"
proof -
  obtain i p n t d where "job = (i, p, n, t, d)" by (cases job)
  with assms show ?thesis
    by (auto elim!: resolve_and_emit_message dest: bus_strings_resolved
        intro!: resolved_to_service_ok)
qed

lemma resolve_and_emit_outcome:
  assumes "bus_strings_valid api" and "resolve_and_emit api c (i, p, n, t, d) os = (m, os')"
  shows "event_ok m \<and> ((\<exists>err. m = Inl (ResolveFailed n err)) \<or>
    (\<exists>r e e'. m = Inr (Found (resolved_to_service r)) \<and>
       server_resolve api c i p n t d AVAHI_PROTO_UNSPEC 0 e = (Inr r, e')))"
  using resolve_and_emit_ok [OF assms] assms(2)
  by (cases rule: resolve_and_emit_message [OF assms(2)]) blast+

lemma resolved_to_service_fields:
  assumes "\<forall>r \<in> set rs. CHR ''='' \<notin> set (txt_key r) \<and> utf8_valid (txt_key r)"
  shows "let s = resolved_to_service (i, p, n, t, d, h, ap, show_ipv4 w, port, map unparse_txt_entry rs, f) in
     ds_name s = n \<and> ds_service_type s = t \<and> ds_domain s = d \<and> ds_host_name s = h \<and>
     ds_port s = port \<and> ds_addresses s = [V4 w] \<and>
     ds_txt_records s = rs \<and> socket_addrs s = [SocketAddrV4 w port]"
proof -
  have "map (\<lambda>r. parse_txt_entry (unparse_txt_entry r)) rs = rs"
    using assms by (intro map_idI) (simp add: parse_unparse_txt_entry)
  then show ?thesis
    by (simp add: Let_def resolved_to_service_def ip_from_str_show_ipv4 socket_addrs_def o_def)
qed

text \<open>
  How far a one-shot resolve gets, and what it then reports: an interface that Avahi cannot name is
  refused before the bus is used; without the bus or without Avahi resolving is not possible; and
  Avahi's answer to the request, on that interface and for any protocol, is the service or the
  failure of that instance.
\<close>

definition linux_answers ::
  "'e dbus \<Rightarrow> bytes \<Rightarrow> bytes \<Rightarrow> bytes \<Rightarrow> u32 option \<Rightarrow> 'e bus \<Rightarrow> resolve_result \<Rightarrow> 'e bus \<Rightarrow> bool" where
  "linux_answers api n t d i os r os' \<longleftrightarrow>
     (\<exists>c w e0 e e'.
        let request = ResolveService c w AVAHI_PROTO_UNSPEC n t d AVAHI_PROTO_UNSPEC 0;
            answer = server_resolve api c w AVAHI_PROTO_UNSPEC n t d AVAHI_PROTO_UNSPEC 0 e;
            asked = (interface_to_avahi i = Inr w \<and> system_bus api (bus_env os) = (Inr c, e0) \<and>
              avahi_new api c e0 = (Inr (), e) \<and>
              bus_calls os' = bus_calls os @ [SystemBus, AvahiServer c, request])
        in case r of
             Inl (InvalidInterfaceIndex j) \<Rightarrow> i = Some j \<and> 2147483647 < unat j \<and> bus_calls os' = bus_calls os
           | Inl (DnsSdUnavailable m) \<Rightarrow>
               (\<exists>err. system_bus api (bus_env os) = (Inl err, e0) \<and>
                  m = ''failed to connect to system D-Bus: '' @ err \<and>
                  bus_calls os' = bus_calls os @ [SystemBus]) \<or>
               (\<exists>err. system_bus api (bus_env os) = (Inr c, e0) \<and> avahi_new api c e0 = (Inl err, e) \<and>
                  m = ''failed to connect to Avahi via D-Bus: '' @ err \<and>
                  bus_calls os' = bus_calls os @ [SystemBus, AvahiServer c])
           | Inl (ResolveFailed n' err) \<Rightarrow> asked \<and> n' = n \<and> answer = (Inl err, e')
           | Inr s \<Rightarrow> asked \<and> (\<exists>x. answer = (Inr x, e') \<and> s = resolved_to_service x)
           | _ \<Rightarrow> False)"

lemma linux_resolve_once_answers:
  assumes "linux_resolve_once api n t d i os = Some (r, os')"
  shows "linux_answers api n t d i os r os'"
proof (cases "interface_to_avahi i")
  case (Inl err)
  then obtain j where "i = Some j" "2147483647 < unat j" "err = InvalidInterfaceIndex j"
    by (auto simp: interface_to_avahi_Inl)
  with Inl assms show ?thesis
    by (auto simp: linux_resolve_once_def try_then_def pure_result_def linux_answers_def)
next
  case (Inr w)
  obtain rc e1 where conn: "system_bus api (bus_env os) = (rc, e1)" by fastforce
  show ?thesis
  proof (cases rc)
    case (Inl err)
    with Inr conn assms show ?thesis
      by (auto simp: linux_resolve_once_def try_then_def pure_result_def map_err_def connect_system_def
          invoke_def linux_answers_def)
  next
    case rc: (Inr c)
    obtain ra e2 where avahi: "avahi_new api c e1 = (ra, e2)" by fastforce
    obtain rs e3 where answer:
      "server_resolve api c w AVAHI_PROTO_UNSPEC n t d AVAHI_PROTO_UNSPEC 0 e2 = (rs, e3)" by fastforce
    note run = assms [symmetric, unfolded linux_resolve_once_def try_then_def pure_result_def map_err_def
        connect_system_def connect_avahi_def invoke_def return_ok_def]
    show ?thesis
      using run Inr conn rc avahi answer
      by (cases ra; cases rs) (force simp: linux_answers_def Let_def)+
  qed
qed

interpretation linux_backend: resolve_backend "linux_resolve_once api" "linux_answers api" for api
  by unfold_locales (rule linux_resolve_once_answers)

subsection \<open>Subscription before creation\<close>

definition subscribe_calls :: "bus_conn \<Rightarrow> bytes \<Rightarrow> bus_call list" where
  "subscribe_calls c interface =
     [SystemBus, Subscribe c ''org.freedesktop.Avahi'' interface, AvahiServer c]"

lemma connect_and_subscribe_cases:
  assumes "rule_faithful api" and "connect_and_subscribe api interface os = (r, os')"
  obtains (failed) err c where "r = Inl err"
      and "prefix (bus_calls os') (bus_calls os @ subscribe_calls c interface)"
  | (ok) c its e e' where "r = Inr (c, its)"
      and "bus_calls os' = bus_calls os @ subscribe_calls c interface"
      and "for_match_rule api (''org.freedesktop.Avahi'', interface) c e = (Inr its, e')"
  using assms
proof -
  have rule: "build_rule api s i = Inr q \<Longrightarrow> q = (s, i)" for s i q
    using assms(1) unfolding rule_faithful_def by blast
  show ?thesis
    using assms(2) failed ok
    by (auto simp: connect_and_subscribe_def connect_system_def try_then_def map_err_def
        pure_result_def return_ok_def invoke_def subscribe_calls_def
        split: prod.splits sum.splits dest!: rule)
qed

definition one_type_calls :: "bus_conn \<Rightarrow> i32 \<Rightarrow> bytes \<Rightarrow> bytes \<Rightarrow> bytes \<Rightarrow> bus_call list" where
  "one_type_calls c i t d path =
     subscribe_calls c SERVICE_BROWSER_INTERFACE @
     [ServiceBrowserNew c i AVAHI_PROTO_UNSPEC t d 0, FreeBrowser c path]"

definition all_types_calls :: "bus_conn \<Rightarrow> i32 \<Rightarrow> bytes \<Rightarrow> bytes \<Rightarrow> bus_call list" where
  "all_types_calls c i d path =
     subscribe_calls c SERVICE_TYPE_BROWSER_INTERFACE @
     [ServiceTypeBrowserNew c i AVAHI_PROTO_UNSPEC d 0, FreeBrowser c path]"

lemma prefix_strict_prefix: "prefix xs ys \<Longrightarrow> strict_prefix xs (ys @ z # zs)"
  by (auto simp: strict_prefix_def prefix_def)

lemma browse_one_type_cases:
  assumes "rule_faithful api" and "browse_one_type api is_open i t d os = (st, os')"
  obtains (failed) err c path where "st = ib_send is_open (Inl err) InstanceBrowse_new"
      and "strict_prefix (bus_calls os') (bus_calls os @ one_type_calls c i t d path)"
  | (ran) c path r its e e' where "for_match_rule api r c e = (Inr its, e')"
      and "st = end_of_task (loop (instance_step t) its InstanceBrowse_new)"
      and "bus_calls os' = bus_calls os @ one_type_calls c i t d path"
proof -
  obtain r os1 where sub: "connect_and_subscribe api SERVICE_BROWSER_INTERFACE os = (r, os1)"
    by fastforce
  with assms(1) show ?thesis
  proof (cases rule: connect_and_subscribe_cases)
    case (failed err c)
    with sub assms(2) have "st = ib_send is_open (Inl err) InstanceBrowse_new" "os' = os1"
      by (auto simp: browse_one_type_def)
    with failed(2) show ?thesis
      by (intro that(1)) (auto simp: one_type_calls_def intro: prefix_strict_prefix simp flip: append_assoc)
  next
    case (ok c its e e')
    show ?thesis
    proof (cases "invoke (ServiceBrowserNew c i AVAHI_PROTO_UNSPEC t d 0)
        (service_browser_new api c i AVAHI_PROTO_UNSPEC t d 0) os1")
      case (Pair q os2)
      then have calls: "bus_calls os2 = bus_calls os1 @ [ServiceBrowserNew c i AVAHI_PROTO_UNSPEC t d 0]"
        by (auto simp: invoke_def split: prod.splits)
      show ?thesis
      proof (cases q)
        case (Inl err)
        with Pair sub ok assms(2) calls show ?thesis
          by (intro that(1)) (auto simp: browse_one_type_def one_type_calls_def
              intro!: strict_prefixI')
      next
        case (Inr path)
        with Pair sub ok assms(2) calls show ?thesis
          by (intro that(2)) (auto simp: browse_one_type_def one_type_calls_def invoke_def split: prod.splits)
      qed
    qed
  qed
qed

lemma browse_all_types_cases:
  assumes "rule_faithful api" and "browse_all_types api is_open i d os = (st, os')"
  obtains (failed) err c path where "st = tb_send is_open (Inl err) TypeBrowse_new"
      and "strict_prefix (bus_calls os') (bus_calls os @ all_types_calls c i d path)"
  | (ran) c path r its e e' where "for_match_rule api r c e = (Inr its, e')"
      and "st = loop type_step its TypeBrowse_new"
      and "bus_calls os' = bus_calls os @ all_types_calls c i d path"
proof -
  obtain r os1 where sub: "connect_and_subscribe api SERVICE_TYPE_BROWSER_INTERFACE os = (r, os1)"
    by fastforce
  with assms(1) show ?thesis
  proof (cases rule: connect_and_subscribe_cases)
    case (failed err c)
    with sub assms(2) have "st = tb_send is_open (Inl err) TypeBrowse_new" "os' = os1"
      by (auto simp: browse_all_types_def)
    with failed(2) show ?thesis
      by (intro that(1)) (auto simp: all_types_calls_def intro: prefix_strict_prefix simp flip: append_assoc)
  next
    case (ok c its e e')
    obtain q os2 where new: "invoke (ServiceTypeBrowserNew c i AVAHI_PROTO_UNSPEC d 0)
        (service_type_browser_new api c i AVAHI_PROTO_UNSPEC d 0) os1 = (q, os2)" by fastforce
    then have calls: "bus_calls os2 = bus_calls os1 @ [ServiceTypeBrowserNew c i AVAHI_PROTO_UNSPEC d 0]"
      by (auto simp: invoke_def split: prod.splits)
    show ?thesis
    proof (cases q)
      case (Inl err)
      with new sub ok assms(2) calls show ?thesis
        by (intro that(1)) (auto simp: browse_all_types_def all_types_calls_def intro!: strict_prefixI')
    next
      case (Inr path)
      with new sub ok assms(2) calls show ?thesis
        by (intro that(2)) (auto simp: browse_all_types_def all_types_calls_def invoke_def split: prod.splits)
    qed
  qed
qed

lemma browse_one_type_order:
  assumes "rule_faithful api"
    and "browse_one_type api is_open i t d \<lparr>bus_env = e, bus_calls = []\<rparr> = (st, os')"
  shows "\<exists>c path. bus_calls os' = one_type_calls c i t d path \<or>
    strict_prefix (bus_calls os') (one_type_calls c i t d path) \<and>
    (\<exists>err. st = ib_send is_open (Inl err) InstanceBrowse_new)"
  using assms by (cases rule: browse_one_type_cases) auto

lemma browse_all_types_order:
  assumes "rule_faithful api"
    and "browse_all_types api is_open i d \<lparr>bus_env = e, bus_calls = []\<rparr> = (st, os')"
  shows "\<exists>c path. bus_calls os' = all_types_calls c i d path \<or>
    strict_prefix (bus_calls os') (all_types_calls c i d path) \<and>
    (\<exists>err. st = tb_send is_open (Inl err) TypeBrowse_new)"
  using assms by (cases rule: browse_all_types_cases) auto

subsection \<open>What the tasks send\<close>

lemma instance_signal_valid:
  "item_valid it \<Longrightarrow> instance_signal member it = Some (i, p, n, t, d, f) \<Longrightarrow>
   utf8_valid n \<and> utf8_valid t \<and> utf8_valid d"
  by (auto simp: item_valid_def instance_signal_def split: sum.splits if_splits)

lemma instance_message_ok:
  "item_valid it \<Longrightarrow> instance_message ty it = Some m \<Longrightarrow> event_ok m"
  by (auto simp: instance_message_def item_removal_def item_failure_def removed_ok_def
      dest!: instance_signal_valid split: option.splits sum.splits if_splits)

lemma browse_one_type_ok:
  assumes "rule_faithful api" and "bus_strings_valid api"
    and "browse_one_type api is_open i t d os = (st, os')"
  shows "list_all event_ok (ib_sent st)"
  using assms(1,3)
proof (cases rule: browse_one_type_cases)
  case (failed err c path)
  then show ?thesis by (simp add: ib_send_def InstanceBrowse_new_def)
next
  case (ran c path r its e e')
  have "list_all item_valid its" using assms(2) ran(1) by (rule bus_strings_items)
  then have "\<forall>m \<in> set (List.map_filter (instance_message t) (handled its)). event_ok m"
    by (auto simp: set_map_filter list_all_iff dest: instance_message_ok set_takeWhileD)
  then show ?thesis
    by (simp add: ran(2) end_of_task_def instance_loop_refines InstanceBrowse_new_def list_all_iff)
qed

text \<open>
  When a task ends it has dropped every resolver it spawned, each once; the ones it dropped before
  its loop ended had been seen finished.
\<close>

lemma loop_resolvers:
  "let st = loop (instance_step ty) its InstanceBrowse_new in
     distinct (aborted st @ resolvers st) \<and>
     set (aborted st) \<union> set (resolvers st) = {..<length (ib_spawned st)} \<and>
     (\<forall>r \<in> set (aborted st). \<exists>it \<in> set its. it_finished it r)"
proof -
  have "resolvers_inv (loop (instance_step ty) its InstanceBrowse_new)"
    by (rule instance_loop.loop_invar) (simp add: resolvers_inv_def InstanceBrowse_new_def)
  moreover have "\<exists>it \<in> set its. it_finished it r"
    if "r \<in> set (aborted (loop (instance_step ty) its InstanceBrowse_new))" for r
    using dropped_resolver_finished [OF that] by (simp add: InstanceBrowse_new_def)
  ultimately show ?thesis by (simp add: resolvers_inv_def Let_def)
qed

lemma browse_start_cases:
  "case fst (linux_browse_start api ty dmn x os) of
     Inl err \<Rightarrow> resolve_error err
   | Inr task \<Rightarrow> \<exists>w. interface_to_avahi x = Inr w \<and>
       task = (case ty of Some t \<Rightarrow> BrowseOneType w t (case dmn of Some d \<Rightarrow> d | None \<Rightarrow> [])
                        | None \<Rightarrow> BrowseAllTypes w (case dmn of Some d \<Rightarrow> d | None \<Rightarrow> []))"
  by (auto simp: linux_browse_start_def try_then_def map_err_def return_ok_def pure_result_def
      connect_system_def connect_avahi_def interface_to_avahi_Inl Let_def
      split: prod.splits sum.splits)

end
