(* ===== verification/Linux_Properties.thy ===== *)
theory Linux_Properties
  imports Linux_Tasks
begin

text \<open>
  The properties of the Linux back-end, and a concrete bus to run it on: a type announced on two
  interfaces, then for its instances one that appears, one that goes and a failure.
\<close>

subsection \<open>A sample bus\<close>

definition sample_type_signal :: "i32 \<Rightarrow> bytes \<Rightarrow> bytes \<Rightarrow> stream_item" where
  "sample_type_signal i t d =
     \<lparr>it_message = Inr \<lparr>msg_member = Some ''ItemNew'', body_type_item = Inr (i, -1, t, d, 0),
        body_instance_item = Inl ''type'', body_string = Inl ''type''\<rparr>,
      it_open = True, it_finished = \<lambda>_. False\<rparr>"

definition sample_instance_signal :: "bytes \<Rightarrow> bytes \<Rightarrow> stream_item" where
  "sample_instance_signal member n =
     \<lparr>it_message = Inr \<lparr>msg_member = Some member, body_type_item = Inl ''type'',
        body_instance_item = Inr (2, -1, n, ''_http._tcp'', ''local'', 0), body_string = Inl ''type''\<rparr>,
      it_open = True, it_finished = \<lambda>r. r = 0\<rparr>"

definition sample_failure :: stream_item where
  "sample_failure =
     \<lparr>it_message = Inr \<lparr>msg_member = Some ''Failure'', body_type_item = Inl ''type'',
        body_instance_item = Inl ''type'', body_string = Inr ''gone''\<rparr>,
      it_open = True, it_finished = \<lambda>r. r = 0\<rparr>"

definition sample_items :: "bytes \<Rightarrow> stream_item list" where
  "sample_items interface =
     (if interface = SERVICE_TYPE_BROWSER_INTERFACE
      then [sample_type_signal 2 ''_http._tcp'' ''local'', sample_type_signal 3 ''_http._tcp'' ''local'']
      else [sample_instance_signal ''ItemNew'' ''Printer'',
            sample_instance_signal ''ItemNew'' ''Camera'',
            sample_instance_signal ''ItemRemove'' ''Scanner'', sample_failure])"

definition sample_tuple :: resolved_tuple where
  "sample_tuple = (2, -1, ''Printer'', ''_http._tcp'', ''local'', ''host.local'', -1,
     ''192.168.0.1'', 80, [''path=/''], 0)"

definition sample_bus :: "nat dbus" where
  "sample_bus =
     \<lparr>system_bus = \<lambda>e. (Inr e, e + 1), avahi_new = \<lambda>c e. (Inr (), e),
      build_rule = \<lambda>s i. Inr (s, i), for_match_rule = \<lambda>r c e. (Inr (sample_items (snd r)), e),
      service_type_browser_new = \<lambda>c i p d f e. (Inr ''/types'', e),
      service_browser_new = \<lambda>c i p t d f e. (Inr ''/instances'', e),
      server_resolve = \<lambda>c i p n t d a f e. (Inr sample_tuple, e),
      browser_free = \<lambda>c p e. (Inr (), e)\<rparr>"

lemma sample_bus_faithful: "rule_faithful sample_bus"
  by (simp add: rule_faithful_def sample_bus_def)

lemma sample_bus_valid: "bus_strings_valid sample_bus"
  by (auto simp: bus_strings_valid_def sample_bus_def sample_items_def item_valid_def
      sample_type_signal_def sample_instance_signal_def sample_failure_def resolved_valid_def
      sample_tuple_def)

lemma sample_one_type:
  "browse_one_type sample_bus True (-1) ''_http._tcp'' ''local'' \<lparr>bus_env = 0, bus_calls = []\<rparr> =
   (end_of_task (loop (instance_step ''_http._tcp'') (sample_items SERVICE_BROWSER_INTERFACE)
      InstanceBrowse_new),
    \<lparr>bus_env = 1, bus_calls = one_type_calls 0 (-1) ''_http._tcp'' ''local'' ''/instances''\<rparr>)"
  by (simp add: browse_one_type_def connect_and_subscribe_def connect_system_def try_then_def
      map_err_def invoke_def pure_result_def return_ok_def sample_bus_def one_type_calls_def
      subscribe_calls_def)

lemma sample_resolver_run:
  "resolve_and_emit sample_bus 0 (2, -1, ''Printer'', ''_http._tcp'', ''local'') \<lparr>bus_env = 0, bus_calls = []\<rparr> =
   (Inr (Found (resolved_to_service sample_tuple)),
    \<lparr>bus_env = 0, bus_calls = [AvahiServer 0,
       ResolveService 0 2 (-1) ''Printer'' ''_http._tcp'' ''local'' (-1) 0]\<rparr>)"
  by (simp add: resolve_and_emit_def invoke_def sample_bus_def AVAHI_PROTO_UNSPEC_def)

lemma sample_linux_once:
  "linux_resolve_once sample_bus ''Printer'' ''_http._tcp'' ''local'' (Some 2) \<lparr>bus_env = 0, bus_calls = []\<rparr> =
   Some (Inr (resolved_to_service sample_tuple),
    \<lparr>bus_env = 1, bus_calls = [SystemBus, AvahiServer 0,
       ResolveService 0 2 (-1) ''Printer'' ''_http._tcp'' ''local'' (-1) 0]\<rparr>)"
  by (simp add: linux_resolve_once_def try_then_def map_err_def pure_result_def return_ok_def
      interface_to_avahi_def connect_system_def connect_avahi_def invoke_def sample_bus_def
      AVAHI_PROTO_UNSPEC_def)

subsection \<open>Properties\<close>

text \<open>
  C25: No interface number is lost on the way to Avahi and back: an index Avahi can name, and the
  absence of one, come back as they were, and any other index is refused with the index in the
  error.
\<close>

theorem interface_survives_avahi:
  assumes "nonzero_opt x"
  shows "case interface_to_avahi x of
      Inr w \<Rightarrow> avahi_interface_to_index w = x
    | Inl err \<Rightarrow> \<exists>i. x = Some i \<and> 2147483647 < unat i \<and> err = InvalidInterfaceIndex i"
  using assms by (rule interface_to_avahi_outcome)

theorem interface_survives_avahi_witness:
  "case interface_to_avahi (Some 0x7FFFFFFF) of
      Inr w \<Rightarrow> avahi_interface_to_index w = Some 0x7FFFFFFF
    | Inl err \<Rightarrow> \<exists>i. Some 0x7FFFFFFF = Some i \<and> 2147483647 < unat i \<and> err = InvalidInterfaceIndex i"
  by (rule interface_survives_avahi) simp

text \<open>
  C14: The loop over discovered types refines its abstract view: it spawns one instance browse for
  each new pair of type and domain among the signals that announce one, in order and never twice,
  and sends the failures the daemon reports.
\<close>

theorem types_loop_refines:
  "let st = loop type_step its TypeBrowse_new in
     child_browsers st = fresh {} (List.map_filter item_type its) \<and>
     distinct (child_browsers st) \<and> set (child_browsers st) = tb_seen st \<and>
     tb_sent st = List.map_filter (item_failure ''service type browser failure: '') its"
  by (rule type_loop_whole)

text \<open>
  C13: The loop over the instances of a type refines its abstract view: up to the first removal that
  finds the receiver gone, each announced instance gets a resolver and each removal and failure a
  message, in order; malformed signals and stream errors change nothing.
\<close>

theorem instances_loop_refines:
  "let st = loop (instance_step ty) its InstanceBrowse_new in
     ib_spawned st = List.map_filter item_job (handled its) \<and>
     ib_sent st = List.map_filter (instance_message ty) (handled its)"
  unfolding Let_def using instance_loop_refines [of ty its InstanceBrowse_new]
  by (simp add: InstanceBrowse_new_def)

text \<open>
  No resolver is cut off while its browse goes on: every resolver the loop spawned is owned or
  was dropped, exactly one of the two and once, and a dropped one had been seen finished.
\<close>

theorem resolvers_not_cut_off:
  "let st = loop (instance_step ty) its InstanceBrowse_new in
     distinct (aborted st @ resolvers st) \<and>
     set (aborted st) \<union> set (resolvers st) = {..<length (ib_spawned st)} \<and>
     list_all (\<lambda>r. list_ex (\<lambda>it. it_finished it r) its) (aborted st)"
  using loop_resolvers [of ty its] by (simp add: list_all_iff list_ex_iff Let_def)

text \<open>
  C19: An instance browse subscribes to the signals before it creates the browser that emits them,
  on its own connection, and frees the browser when its loop ends; a run that does less fails with
  one error message and nothing else.
\<close>

theorem instance_browse_order:
  assumes "rule_faithful api"
    and "browse_one_type api is_open i t d \<lparr>bus_env = e, bus_calls = []\<rparr> = (st, os')"
  shows "\<exists>c path. bus_calls os' = one_type_calls c i t d path \<or>
    strict_prefix (bus_calls os') (one_type_calls c i t d path) \<and>
    (\<exists>err. st = ib_send is_open (Inl err) InstanceBrowse_new)"
  using assms by (rule browse_one_type_order)

theorem instance_browse_order_witness:
  "\<exists>c path. one_type_calls 0 (-1) ''_http._tcp'' ''local'' ''/instances'' =
      one_type_calls c (-1) ''_http._tcp'' ''local'' path \<or>
    strict_prefix (one_type_calls 0 (-1) ''_http._tcp'' ''local'' ''/instances'')
      (one_type_calls c (-1) ''_http._tcp'' ''local'' path) \<and>
    (\<exists>err. end_of_task (loop (instance_step ''_http._tcp'') (sample_items SERVICE_BROWSER_INTERFACE)
      InstanceBrowse_new) = ib_send True (Inl err) InstanceBrowse_new)"
  using instance_browse_order [OF sample_bus_faithful sample_one_type] unfolding bus.select_convs .

text \<open>
  C33: The type browse keeps the same order on its own connection: it subscribes to the signals before
  it creates the type browser that emits them, and frees the browser when its loop ends; a run that
  does less fails with one error message and nothing else.
\<close>

theorem type_browse_order:
  assumes "rule_faithful api"
    and "browse_all_types api is_open i d \<lparr>bus_env = e, bus_calls = []\<rparr> = (st, os')"
  shows "\<exists>c path. bus_calls os' = all_types_calls c i d path \<or>
    strict_prefix (bus_calls os') (all_types_calls c i d path) \<and>
    (\<exists>err. st = tb_send is_open (Inl err) TypeBrowse_new)"
  using assms by (rule browse_all_types_order)

theorem type_browse_order_witness:
  "\<exists>c path. all_types_calls 0 (-1) [] ''/types'' = all_types_calls c (-1) [] path \<or>
    strict_prefix (all_types_calls 0 (-1) [] ''/types'') (all_types_calls c (-1) [] path) \<and>
    (\<exists>err. loop type_step (sample_items SERVICE_TYPE_BROWSER_INTERFACE) TypeBrowse_new =
      tb_send True (Inl err) TypeBrowse_new)"
proof -
  have "browse_all_types sample_bus True (-1) [] \<lparr>bus_env = 0, bus_calls = []\<rparr> =
     (loop type_step (sample_items SERVICE_TYPE_BROWSER_INTERFACE) TypeBrowse_new,
      \<lparr>bus_env = 1, bus_calls = all_types_calls 0 (-1) [] ''/types''\<rparr>)"
    by (simp add: browse_all_types_def connect_and_subscribe_def connect_system_def try_then_def
        map_err_def invoke_def pure_result_def return_ok_def sample_bus_def all_types_calls_def
        subscribe_calls_def)
  then show ?thesis
    using type_browse_order [OF sample_bus_faithful] by fastforce
qed

text \<open>
  A resolver task sends exactly one message, about its own instance and well formed: the
  instance as Avahi resolved it, or \<open>ResolveFailed\<close> with the instance's name.
\<close>

theorem resolver_sends_one_message:
  assumes "bus_strings_valid api" and "resolve_and_emit api c (i, p, n, t, d) os = (m, os')"
  shows "event_ok m \<and> ((\<exists>err. m = Inl (ResolveFailed n err)) \<or>
    (\<exists>r e e'. m = Inr (Found (resolved_to_service r)) \<and>
       server_resolve api c i p n t d AVAHI_PROTO_UNSPEC 0 e = (Inr r, e')))"
  by (rule resolve_and_emit_outcome [OF assms])

theorem resolver_sends_one_message_witness:
  "event_ok (Inr (Found (resolved_to_service sample_tuple)))"
  using resolver_sends_one_message [OF sample_bus_valid sample_resolver_run] by simp

text \<open>
  Every event an instance browse sends is well formed: valid UTF-8 in every string and a
  non-zero interface.
\<close>

theorem instance_events_well_formed:
  assumes "rule_faithful api" and "bus_strings_valid api"
    and "browse_one_type api is_open i t d os = (st, os')"
  shows "list_all event_ok (ib_sent st)"
  using assms by (rule browse_one_type_ok)

theorem instance_events_well_formed_witness:
  "list_all event_ok (ib_sent (end_of_task (loop (instance_step ''_http._tcp'')
     (sample_items SERVICE_BROWSER_INTERFACE) InstanceBrowse_new)))"
  by (rule instance_events_well_formed [OF sample_bus_faithful sample_bus_valid sample_one_type])

text \<open>
  Starting a browse either fails with an error that names the bus, Avahi or the interface, or
  starts one task: the browse of the requested type, or of all types when none was requested, in
  the requested domain and on the requested interface.
\<close>

theorem browse_start_starts_one_task:
  "case fst (linux_browse_start api ty dmn x os) of
     Inl err \<Rightarrow> resolve_error err
   | Inr task \<Rightarrow> \<exists>w. interface_to_avahi x = Inr w \<and>
       task = (case ty of Some t \<Rightarrow> BrowseOneType w t (case dmn of Some d \<Rightarrow> d | None \<Rightarrow> [])
                        | None \<Rightarrow> BrowseAllTypes w (case dmn of Some d \<Rightarrow> d | None \<Rightarrow> []))"
  by (rule browse_start_cases)

text \<open>
  C16: The builder's resolve over this back-end answers the request. An interface that Avahi cannot
  name is refused before the bus is used; \<open>DnsSdUnavailable\<close> means that the bus or Avahi could not be
  connected to, and Avahi was not asked; otherwise Avahi was asked, once, for exactly that instance on
  that interface, and a service is its reply and \<open>ResolveFailed\<close> its error, with the name that was
  asked for. The only other outcome is that the time set for it elapsed.
\<close>

theorem linux_resolve_answers:
  assumes "timeout_faithful tmo" and "resolve tmo (linux_resolve_once api) b os = Some (r, os')"
  shows "linux_answers api (rb_name b) (rb_service_type b) (rb_domain b) (rb_interface_index b) os r os' \<or>
    (\<exists>d. rb_timeout b = Some d \<and> r = Inl (ResolveFailed (rb_name b) (''timed out after '' @ duration_debug d)))"
  using linux_backend.resolve_answers [OF assms] by (simp add: timed_out_def)

theorem linux_resolve_answers_witness:
  "linux_answers sample_bus ''Printer'' ''_http._tcp'' ''local'' (Some 2) \<lparr>bus_env = 0, bus_calls = []\<rparr>
    (Inr (resolved_to_service sample_tuple)) \<lparr>bus_env = 1, bus_calls = [SystemBus, AvahiServer 0,
       ResolveService 0 2 (-1) ''Printer'' ''_http._tcp'' ''local'' (-1) 0]\<rparr>"
proof -
  let ?b = "set_resolver_interface_index 2 (ServiceResolverBuilder_new ''Printer'' ''_http._tcp'' ''local'')"
  have b: "rb_name ?b = ''Printer''" "rb_service_type ?b = ''_http._tcp''" "rb_domain ?b = ''local''"
    "rb_interface_index ?b = Some 2" "rb_timeout ?b = None"
    by (simp_all add: set_resolver_interface_index_def ServiceResolverBuilder_new_def)
  have "timeout_faithful (\<lambda>d fut (e :: nat bus). (None, e))" by (simp add: timeout_faithful_def)
  from linux_resolve_answers [OF this, of sample_bus ?b "\<lparr>bus_env = 0, bus_calls = []\<rparr>" "Inr (resolved_to_service sample_tuple)" "\<lparr>bus_env = 1, bus_calls = [SystemBus, AvahiServer 0,
       ResolveService 0 2 (-1) ''Printer'' ''_http._tcp'' ''local'' (-1) 0]\<rparr>"]
  show ?thesis by (simp add: b resolve_def sample_linux_once)
qed

text \<open>
  C29: Of the tuple Avahi answers with, the service keeps the name, the type, the domain, the host
  and the port, an IPv4 address in dotted form, and every TXT record that was advertised with a
  UTF-8 key without an equals sign; so it can be connected to at that address and port.
\<close>

theorem resolved_tuple_kept:
  assumes "\<forall>r \<in> set rs. CHR ''='' \<notin> set (txt_key r) \<and> utf8_valid (txt_key r)"
  shows "let s = resolved_to_service (i, p, n, t, d, h, ap, show_ipv4 w, port, map unparse_txt_entry rs, f) in
     ds_name s = n \<and> ds_service_type s = t \<and> ds_domain s = d \<and> ds_host_name s = h \<and>
     ds_port s = port \<and> ds_addresses s = [V4 w] \<and>
     ds_txt_records s = rs \<and> socket_addrs s = [SocketAddrV4 w port]"
  using assms by (rule resolved_to_service_fields)

theorem resolved_tuple_kept_witness:
  "let s = resolved_to_service (2, -1, ''Printer'', ''_http._tcp'', ''local'', ''host.local'', -1,
       show_ipv4 0xC0A80001, 80, map unparse_txt_entry
         [\<lparr>txt_key = ''path'', txt_value = Some ''/''\<rparr>, \<lparr>txt_key = ''flag'', txt_value = None\<rparr>], 0) in
     ds_name s = ''Printer'' \<and> ds_service_type s = ''_http._tcp'' \<and> ds_domain s = ''local'' \<and>
     ds_host_name s = ''host.local'' \<and> ds_port s = 80 \<and> ds_addresses s = [V4 0xC0A80001] \<and>
     ds_txt_records s = [\<lparr>txt_key = ''path'', txt_value = Some ''/''\<rparr>, \<lparr>txt_key = ''flag'', txt_value = None\<rparr>] \<and>
     socket_addrs s = [SocketAddrV4 0xC0A80001 80]"
  by (rule resolved_tuple_kept) simp

end
