(* ===== verification/Linux_System.thy ===== *)
theory Linux_System
  imports Linux_Properties
begin

text \<open>
  The Linux back-end as a system of tasks. The guard owns the root task; a browse of all types owns
  the instance browses it spawned and an instance browse the resolvers it spawned, each through an
  \<open>AbortOnDrop\<close>. The executor polls the tasks in any order. A task is cut where it waits for its
  stream; what it does in between is one step. So opening a browse (connecting, subscribing,
  creating the browser) and freeing it are one step each, although each of their bus calls is an
  \<open>await\<close>: runs in which a task is cut off between two of those calls are not considered.
\<close>

subsection \<open>The tasks in pieces\<close>

definition open_types ::
  "'e dbus \<Rightarrow> i32 \<Rightarrow> bytes \<Rightarrow> 'e bus \<Rightarrow>
   (ServiceBrowseError + (bus_conn \<times> bytes \<times> stream_item list)) \<times> 'e bus" where
  "open_types api interface domain =
     try_then (connect_and_subscribe api SERVICE_TYPE_BROWSER_INTERFACE) (\<lambda>(conn, messages).
     try_then (map_err (\<lambda>err. BrowseFailed (''ServiceTypeBrowserNew failed: '' @ err))
       (invoke (ServiceTypeBrowserNew conn interface AVAHI_PROTO_UNSPEC domain 0)
          (service_type_browser_new api conn interface AVAHI_PROTO_UNSPEC domain 0))) (\<lambda>type_browser.
     return_ok (conn, type_browser, messages)))"

definition open_instances ::
  "'e dbus \<Rightarrow> i32 \<Rightarrow> bytes \<Rightarrow> bytes \<Rightarrow> 'e bus \<Rightarrow>
   (ServiceBrowseError + (bus_conn \<times> bytes \<times> stream_item list)) \<times> 'e bus" where
  "open_instances api interface service_type domain =
     try_then (connect_and_subscribe api SERVICE_BROWSER_INTERFACE) (\<lambda>(conn, messages).
     try_then (map_err (\<lambda>err. BrowseFailed (''ServiceBrowserNew failed for '' @ service_type @ '': '' @ err))
       (invoke (ServiceBrowserNew conn interface AVAHI_PROTO_UNSPEC service_type domain 0)
          (service_browser_new api conn interface AVAHI_PROTO_UNSPEC service_type domain 0))) (\<lambda>browser.
     return_ok (conn, browser, messages)))"

definition free_browser :: "'e dbus \<Rightarrow> bus_conn \<Rightarrow> bytes \<Rightarrow> 'e bus \<Rightarrow> 'e bus" where
  "free_browser api conn path os = snd (invoke (FreeBrowser conn path) (browser_free api conn path) os)"

text \<open>Without another task in between, the pieces are the task.\<close>

lemma browse_all_types_pieces:
  "browse_all_types api is_open interface domain os =
     (case open_types api interface domain os of
        (Inl err, os) \<Rightarrow> (tb_send is_open (Inl err) TypeBrowse_new, os)
      | (Inr (conn, path, messages), os) \<Rightarrow>
          (loop type_step messages TypeBrowse_new, free_browser api conn path os))"
  by (simp add: browse_all_types_def open_types_def try_then_def map_err_def return_ok_def
      free_browser_def split: sum.split prod.split)

lemma browse_one_type_pieces:
  "browse_one_type api is_open interface service_type domain os =
     (case open_instances api interface service_type domain os of
        (Inl err, os) \<Rightarrow> (ib_send is_open (Inl err) InstanceBrowse_new, os)
      | (Inr (conn, path, messages), os) \<Rightarrow>
          (end_of_task (loop (instance_step service_type) messages InstanceBrowse_new),
           free_browser api conn path os))"
  by (simp add: browse_one_type_def open_instances_def try_then_def map_err_def return_ok_def
      free_browser_def split: sum.split prod.split)

subsection \<open>The executor\<close>

text \<open>
  Where a task waits: at its start, at its stream with what is left of it, at the reply to a
  resolve; or it has ended, by itself or cut off.
\<close>

datatype linux_stage =
    StartTypes i32 bytes
  | TypesLoop i32 bus_conn bytes "stream_item list" TypeBrowse
  | StartInstances i32 bytes bytes
  | InstancesLoop bytes bus_conn bytes "stream_item list" InstanceBrowse
  | Resolving bus_conn linux_job
  | Ended

text \<open>
  Tasks are numbered in the order in which they are spawned; the root is task 0. A task knows
  the ones it spawned, in order, and the one that spawned it; \<open>tk_abort\<close> is that its handle was
  told to abort.
\<close>

record linux_task =
  tk_stage :: linux_stage
  tk_parent :: nat
  tk_spawned :: "nat list"
  tk_abort :: bool

record 'e linux_system =
  ls_tasks :: "linux_task list"
  ls_guard :: bool
  ls_open :: bool
  ls_bus :: "'e bus"
  ls_sent :: "event_result list"

definition new_task :: "nat \<Rightarrow> linux_stage \<Rightarrow> linux_task" where
  "new_task parent stage = \<lparr>tk_stage = stage, tk_parent = parent, tk_spawned = [], tk_abort = False\<rparr>"

text \<open>The tasks whose \<open>AbortOnDrop\<close> a task holds among its locals.\<close>

definition owned :: "linux_task \<Rightarrow> nat list" where
  "owned tk =
     (case tk_stage tk of
        TypesLoop _ _ _ _ st \<Rightarrow> map (\<lambda>r. tk_spawned tk ! r) [0..<length (child_browsers st)]
      | InstancesLoop _ _ _ _ st \<Rightarrow> map (\<lambda>r. tk_spawned tk ! r) (resolvers st)
      | _ \<Rightarrow> [])"

definition abort_tasks :: "nat list \<Rightarrow> linux_task list \<Rightarrow> linux_task list" where
  "abort_tasks ids ts =
     map (\<lambda>i. if i \<in> set ids then (ts ! i)\<lparr>tk_abort := True\<rparr> else ts ! i) [0..<length ts]"

text \<open>The end of a task drops its locals.\<close>

definition end_task :: "nat \<Rightarrow> linux_task list \<Rightarrow> linux_task list" where
  "end_task t ts = (abort_tasks (owned (ts ! t)) ts)[t := (ts ! t)\<lparr>tk_stage := Ended\<rparr>]"

text \<open>A task moves to its next stage; the tasks it spawned on the way follow all others.\<close>

definition advance :: "nat \<Rightarrow> linux_stage \<Rightarrow> linux_stage list \<Rightarrow> linux_task list \<Rightarrow> linux_task list" where
  "advance t stage new ts =
     ts[t := (ts ! t)\<lparr>tk_stage := stage,
          tk_spawned := tk_spawned (ts ! t) @ [length ts..<length ts + length new]\<rparr>] @
     map (new_task t) new"

definition emit :: "event_result list \<Rightarrow> 'e linux_system \<Rightarrow> 'e linux_system" where
  "emit ms s = (if ls_open s then s\<lparr>ls_sent := ls_sent s @ ms\<rparr> else s)"

definition is_finished :: "linux_task list \<Rightarrow> nat \<Rightarrow> bool" where
  "is_finished ts t \<longleftrightarrow> tk_stage (ts ! t) = Ended"

lemma is_finished_code [code]: "is_finished ts t = (case tk_stage (ts ! t) of Ended \<Rightarrow> True | _ \<Rightarrow> False)"
  by (simp add: is_finished_def split: linux_stage.split)

text \<open>What a task sees while it handles an item of its stream.\<close>

definition observe :: "nat \<Rightarrow> 'e linux_system \<Rightarrow> stream_item \<Rightarrow> stream_item" where
  "observe t s it =
     it\<lparr>it_open := ls_open s,
        it_finished := (\<lambda>r. is_finished (ls_tasks s) (tk_spawned (ls_tasks s ! t) ! r))\<rparr>"

definition poll_start ::
  "(ServiceBrowseError + (bus_conn \<times> bytes \<times> stream_item list)) \<times> 'e bus \<Rightarrow>
   (bus_conn \<Rightarrow> bytes \<Rightarrow> stream_item list \<Rightarrow> linux_stage) \<Rightarrow> nat \<Rightarrow> 'e linux_system \<Rightarrow> 'e linux_system" where
  "poll_start opened stage t s =
     (case opened of
        (Inl err, os) \<Rightarrow> emit [Inl err] (s\<lparr>ls_bus := os, ls_tasks := end_task t (ls_tasks s)\<rparr>)
      | (Inr (conn, path, messages), os) \<Rightarrow>
          s\<lparr>ls_bus := os, ls_tasks := advance t (stage conn path messages) [] (ls_tasks s)\<rparr>)"

definition poll_end :: "'e dbus \<Rightarrow> bus_conn \<Rightarrow> bytes \<Rightarrow> nat \<Rightarrow> 'e linux_system \<Rightarrow> 'e linux_system" where
  "poll_end api conn path t s =
     s\<lparr>ls_bus := free_browser api conn path (ls_bus s), ls_tasks := end_task t (ls_tasks s)\<rparr>"

text \<open>The messages a task has sent and the tasks it has spawned since, from its locals.\<close>

definition poll_item ::
  "event_result list \<Rightarrow> linux_stage \<Rightarrow> linux_stage list \<Rightarrow> nat \<Rightarrow> 'e linux_system \<Rightarrow> 'e linux_system" where
  "poll_item ms stage new t s = emit ms (s\<lparr>ls_tasks := advance t stage new (ls_tasks s)\<rparr>)"

definition job_of_type :: "i32 \<Rightarrow> bytes \<times> bytes \<Rightarrow> linux_stage" where
  "job_of_type interface key = StartInstances interface (fst key) (snd key)"

definition poll :: "'e dbus \<Rightarrow> nat \<Rightarrow> 'e linux_system \<Rightarrow> 'e linux_system" where
  "poll api t s =
     (case tk_stage (ls_tasks s ! t) of
        StartTypes interface domain \<Rightarrow>
          poll_start (open_types api interface domain (ls_bus s))
            (\<lambda>conn path messages. TypesLoop interface conn path messages TypeBrowse_new) t s
      | StartInstances interface service_type domain \<Rightarrow>
          poll_start (open_instances api interface service_type domain (ls_bus s))
            (\<lambda>conn path messages. InstancesLoop service_type conn path messages InstanceBrowse_new) t s
      | TypesLoop interface conn path (it # its) st \<Rightarrow>
          (case type_step (observe t s it) st of
             (ctl, st') \<Rightarrow>
               poll_item (drop (length (tb_sent st)) (tb_sent st'))
                 (TypesLoop interface conn path (if ctl = Break then [] else its) st')
                 (map (job_of_type interface)
                    (drop (length (child_browsers st)) (child_browsers st'))) t s)
      | InstancesLoop service_type conn path (it # its) st \<Rightarrow>
          (case instance_step service_type (observe t s it) st of
             (ctl, st') \<Rightarrow>
               poll_item (drop (length (ib_sent st)) (ib_sent st'))
                 (InstancesLoop service_type conn path (if ctl = Break then [] else its) st')
                 (map (Resolving conn) (drop (length (ib_spawned st)) (ib_spawned st'))) t s)
      | TypesLoop interface conn path [] st \<Rightarrow> poll_end api conn path t s
      | InstancesLoop service_type conn path [] st \<Rightarrow> poll_end api conn path t s
      | Resolving conn job \<Rightarrow>
          (case resolve_and_emit api conn job (ls_bus s) of
             (m, os) \<Rightarrow> emit [m] (s\<lparr>ls_bus := os, ls_tasks := end_task t (ls_tasks s)\<rparr>))
      | Ended \<Rightarrow> s)"

text \<open>
  A step of the system: the executor polls a task that has not ended, or cuts off one that was told
  to abort; the guard or the receiver is dropped.
\<close>

datatype linux_action = Polls nat | CutOff nat | DropsGuard | DropsReceiver

definition live :: "linux_task list \<Rightarrow> nat \<Rightarrow> bool" where
  "live ts t \<longleftrightarrow> t < length ts \<and> \<not> is_finished ts t"

definition cut_off :: "nat \<Rightarrow> 'e linux_system \<Rightarrow> 'e linux_system" where
  "cut_off t s = s\<lparr>ls_tasks := end_task t (ls_tasks s)\<rparr>"

definition drop_guard :: "'e linux_system \<Rightarrow> 'e linux_system" where
  "drop_guard s = s\<lparr>ls_tasks := abort_tasks [0] (ls_tasks s), ls_guard := False\<rparr>"

inductive linux_step :: "'e dbus \<Rightarrow> 'e linux_system \<Rightarrow> linux_action \<Rightarrow> 'e linux_system \<Rightarrow> bool" for api where
  poll: "live (ls_tasks s) t \<Longrightarrow> linux_step api s (Polls t) (poll api t s)"
| cut: "live (ls_tasks s) t \<Longrightarrow> tk_abort (ls_tasks s ! t) \<Longrightarrow> linux_step api s (CutOff t) (cut_off t s)"
| guard: "ls_guard s \<Longrightarrow> linux_step api s DropsGuard (drop_guard s)"
| receiver: "linux_step api s DropsReceiver (s\<lparr>ls_open := False\<rparr>)"

inductive_cases linux_step_cases: "linux_step api s x s'"

text \<open>The system starts with what \<open>browse_start\<close> spawns.\<close>

definition root_stage :: "root_task \<Rightarrow> linux_stage" where
  "root_stage r =
     (case r of
        BrowseOneType interface service_type domain \<Rightarrow> StartInstances interface service_type domain
      | BrowseAllTypes interface domain \<Rightarrow> StartTypes interface domain)"

definition linux_started :: "root_task \<Rightarrow> 'e bus \<Rightarrow> 'e linux_system" where
  "linux_started r os =
     \<lparr>ls_tasks = [new_task 0 (root_stage r)], ls_guard = True, ls_open = True, ls_bus = os, ls_sent = []\<rparr>"

definition linux_init :: "'e dbus \<Rightarrow> 'e linux_system \<Rightarrow> bool" where
  "linux_init api s \<longleftrightarrow>
     (\<exists>ty d i os r os'. linux_browse_start api ty d i os = (Inr r, os') \<and> s = linux_started r os')"

end
