(* ===== verification/Linux_System_Safety.thy ===== *)
theory Linux_System_Safety
  imports Linux_System
begin

text \<open>
  The task tree of the Linux back-end: a task that still runs is owned by a running task, or has
  been told to abort, and never both; so nothing outlives the guard.
\<close>

subsection \<open>The operations on the task list\<close>

lemma abort_tasks_length [simp]: "length (abort_tasks ids ts) = length ts"
  by (simp add: abort_tasks_def)

lemma abort_tasks_nth:
  "i < length ts \<Longrightarrow>
   abort_tasks ids ts ! i = (if i \<in> set ids then (ts ! i)\<lparr>tk_abort := True\<rparr> else ts ! i)"
  by (simp add: abort_tasks_def)

lemma owned_abort [simp]: "owned (tk\<lparr>tk_abort := b\<rparr>) = owned tk"
  by (simp add: owned_def cong: linux_stage.case_cong)

lemma abort_tasks_sel [simp]:
  assumes "i < length ts"
  shows "tk_stage (abort_tasks ids ts ! i) = tk_stage (ts ! i)"
    and "tk_parent (abort_tasks ids ts ! i) = tk_parent (ts ! i)"
    and "tk_spawned (abort_tasks ids ts ! i) = tk_spawned (ts ! i)"
    and "owned (abort_tasks ids ts ! i) = owned (ts ! i)"
    and "tk_abort (abort_tasks ids ts ! i) = (i \<in> set ids \<or> tk_abort (ts ! i))"
  using assms by (simp_all add: abort_tasks_nth)

lemma owned_ended [simp]: "tk_stage tk = Ended \<Longrightarrow> owned tk = []"
  by (simp add: owned_def)

lemma end_task_length [simp]: "length (end_task t ts) = length ts"
  by (simp add: end_task_def)

lemma end_task_sel [simp]:
  assumes "i < length ts"
  shows "tk_stage (end_task t ts ! i) = (if i = t then Ended else tk_stage (ts ! i))"
    and "tk_parent (end_task t ts ! i) = tk_parent (ts ! i)"
    and "tk_spawned (end_task t ts ! i) = tk_spawned (ts ! i)"
    and "owned (end_task t ts ! i) = (if i = t then [] else owned (ts ! i))"
    and "i \<noteq> t \<Longrightarrow> tk_abort (end_task t ts ! i) = (i \<in> set (owned (ts ! t)) \<or> tk_abort (ts ! i))"
  using assms by (cases "i = t"; simp add: end_task_def)+

lemma advance_length [simp]: "length (advance t stage new ts) = length ts + length new"
  by (simp add: advance_def)

lemma advance_nth:
  assumes "t < length ts" and "i < length ts + length new"
  shows "advance t stage new ts ! i =
     (if i = t then (ts ! t)\<lparr>tk_stage := stage,
        tk_spawned := tk_spawned (ts ! t) @ [length ts..<length ts + length new]\<rparr>
      else if i < length ts then ts ! i else new_task t (new ! (i - length ts)))"
  using assms by (auto simp: advance_def nth_append)

lemma live_end_task [simp]: "t < length ts \<Longrightarrow> live (end_task t ts) i \<longleftrightarrow> live ts i \<and> i \<noteq> t"
  by (auto simp: live_def is_finished_def split: if_splits)

lemma live_abort_tasks [simp]: "live (abort_tasks ids ts) i \<longleftrightarrow> live ts i"
  by (auto simp: live_def is_finished_def)

subsection \<open>The invariant\<close>

text \<open>The handles a task holds are those of tasks it spawned.\<close>

definition stage_ok :: "linux_task \<Rightarrow> bool" where
  "stage_ok tk \<longleftrightarrow>
     (case tk_stage tk of
        TypesLoop _ _ _ _ st \<Rightarrow> length (tk_spawned tk) = length (child_browsers st)
      | InstancesLoop _ _ _ _ st \<Rightarrow> resolvers_inv st \<and> length (tk_spawned tk) = length (ib_spawned st)
      | StartTypes _ _ \<Rightarrow> tk_spawned tk = []
      | StartInstances _ _ _ \<Rightarrow> tk_spawned tk = []
      | _ \<Rightarrow> True)"

lemma stage_ok_eq:
  "tk_stage tk' = tk_stage tk \<Longrightarrow> tk_spawned tk' = tk_spawned tk \<Longrightarrow> stage_ok tk' = stage_ok tk"
  by (simp add: stage_ok_def cong: linux_stage.case_cong)

lemma stage_ok_end: "p < length ts \<Longrightarrow> stage_ok (ts ! p) \<Longrightarrow> stage_ok (end_task t ts ! p)"
  using stage_ok_eq [of "end_task t ts ! p" "ts ! p"]
  by (cases "p = t") (simp_all, simp add: stage_ok_def)

definition spawned_ok :: "linux_task list \<Rightarrow> nat \<Rightarrow> bool" where
  "spawned_ok ts p \<longleftrightarrow>
     stage_ok (ts ! p) \<and> distinct (tk_spawned (ts ! p)) \<and>
     (\<forall>c \<in> set (tk_spawned (ts ! p)). p < c \<and> c < length ts \<and> tk_parent (ts ! c) = p)"

definition abort_ok :: "bool \<Rightarrow> linux_task list \<Rightarrow> nat \<Rightarrow> bool" where
  "abort_ok g ts t \<longleftrightarrow>
     tk_abort (ts ! t) = (if t = 0 then \<not> g else t \<notin> set (owned (ts ! tk_parent (ts ! t))))"

definition tree_inv :: "bool \<Rightarrow> linux_task list \<Rightarrow> bool" where
  "tree_inv g ts \<longleftrightarrow>
     ts \<noteq> [] \<and> (\<forall>p < length ts. spawned_ok ts p) \<and>
     (\<forall>t < length ts. 0 < t \<longrightarrow> tk_parent (ts ! t) < t) \<and>
     (\<forall>t. live ts t \<longrightarrow> abort_ok g ts t)"

lemma tree_invD:
  assumes "tree_inv g ts"
  shows "ts \<noteq> []" and "p < length ts \<Longrightarrow> spawned_ok ts p"
    and "t < length ts \<Longrightarrow> 0 < t \<Longrightarrow> tk_parent (ts ! t) < t"
    and "live ts t \<Longrightarrow> abort_ok g ts t"
  using assms by (auto simp: tree_inv_def)

lemma owned_spawned: "stage_ok tk \<Longrightarrow> set (owned tk) \<subseteq> set (tk_spawned tk)"
  by (auto simp: owned_def stage_ok_def resolvers_inv_def split: linux_stage.splits)

lemma owned_child:
  assumes "tree_inv g ts" and "p < length ts" and "c \<in> set (owned (ts ! p))"
  shows "p < c" and "c < length ts" and "tk_parent (ts ! c) = p"
  using tree_invD(2) [OF assms(1,2)] owned_spawned [of "ts ! p"] assms(3)
  by (auto simp: spawned_ok_def)

lemma tree_inv_end:
  assumes inv: "tree_inv g ts" and "t < length ts"
  shows "tree_inv g (end_task t ts)"
proof -
  have "spawned_ok (end_task t ts) p" if "p < length ts" for p
  proof -
    have ok: "spawned_ok ts p" using inv that by (rule tree_invD)
    then show ?thesis using stage_ok_end [OF that, of t] that by (auto simp: spawned_ok_def)
  qed
  moreover have "tk_parent (end_task t ts ! c) < c" if "c < length ts" "0 < c" for c
    using tree_invD(3) [OF inv that] that by simp
  moreover have "abort_ok g (end_task t ts) c" if "live (end_task t ts) c" for c
  proof -
    have c: "live ts c" "c \<noteq> t" "c < length ts"
      using that live_end_task [OF assms(2), of c] by (auto simp: live_def)
    have old: "abort_ok g ts c" using inv c(1) by (rule tree_invD)
    show ?thesis
    proof (cases "c = 0")
      case True
      then show ?thesis
        using old c owned_child(1) [OF inv assms(2), of 0] by (auto simp: abort_ok_def)
    next
      case False
      then have p: "tk_parent (ts ! c) < length ts" using tree_invD(3) [OF inv c(3)] c(3) by simp
      show ?thesis
        using old c False p assms(2) owned_child(3) [OF inv assms(2), of c] by (auto simp: abort_ok_def)
    qed
  qed
  moreover have "end_task t ts \<noteq> []" using assms(2) end_task_length [of t ts] by force
  ultimately show ?thesis by (simp add: tree_inv_def)
qed

text \<open>The tasks of an advanced list: who spawned them, and what they own.\<close>

lemma advance_sel:
  assumes "t < length ts"
  shows "c < length ts \<Longrightarrow> tk_parent (advance t stage new ts ! c) = tk_parent (ts ! c)"
    and "c < length ts \<Longrightarrow> tk_abort (advance t stage new ts ! c) = tk_abort (ts ! c)"
    and "c < length ts \<Longrightarrow> c \<noteq> t \<Longrightarrow> advance t stage new ts ! c = ts ! c"
    and "length ts \<le> c \<Longrightarrow> c < length ts + length new \<Longrightarrow>
      advance t stage new ts ! c = new_task t (new ! (c - length ts))"
    and "tk_spawned (advance t stage new ts ! t) = tk_spawned (ts ! t) @ [length ts..<length ts + length new]"
  using assms by (simp_all add: advance_nth)

lemma new_task_sel [simp]:
  "tk_parent (new_task t g) = t" "tk_spawned (new_task t g) = []" "\<not> tk_abort (new_task t g)"
  by (simp_all add: new_task_def)

lemma advance_spawner_ok:
  assumes t: "t < length ts" and ok: "spawned_ok ts t"
    and stage: "stage_ok (advance t stage new ts ! t)"
  shows "spawned_ok (advance t stage new ts) t"
proof -
  let ?ts = "advance t stage new ts"
  have kids: "distinct (tk_spawned (ts ! t))"
    "\<forall>c \<in> set (tk_spawned (ts ! t)). t < c \<and> c < length ts \<and> tk_parent (ts ! c) = t"
    using ok by (simp_all add: spawned_ok_def)
  note sel = advance_sel [OF t, where stage = stage and new = new]
  have "t < c \<and> c < length ?ts \<and> tk_parent (?ts ! c) = t" if c: "c \<in> set (tk_spawned (?ts ! t))" for c
  proof (cases "c < length ts")
    case True
    with c kids(2) show ?thesis by (auto simp: sel(1,5))
  next
    case False
    with c kids(2) t show ?thesis by (auto simp: sel(4,5))
  qed
  moreover have "distinct (tk_spawned (?ts ! t))" using kids by (auto simp: sel(5))
  ultimately show ?thesis using stage by (simp add: spawned_ok_def)
qed

lemma advance_spawned_ok:
  assumes t: "t < length ts" and ok: "\<And>p. p < length ts \<Longrightarrow> spawned_ok ts p"
    and stage: "stage_ok (advance t stage new ts ! t)"
    and fresh: "\<And>s. s \<in> set new \<Longrightarrow> stage_ok (new_task t s)"
    and p: "p < length ts + length new"
  shows "spawned_ok (advance t stage new ts) p"
proof -
  note sel = advance_sel [OF t, where stage = stage and new = new]
  consider "p = t" | "p \<noteq> t" "p < length ts" | "length ts \<le> p" by linarith
  then show ?thesis
  proof cases
    case 1
    then show ?thesis using advance_spawner_ok [OF t ok [OF t] stage] by simp
  next
    case 2
    show ?thesis
      using ok [OF 2(2)] unfolding spawned_ok_def sel(3) [OF 2(2,1)]
      by (intro conjI ballI) (auto simp: sel(1))
  next
    case 3
    then have "new ! (p - length ts) \<in> set new" using p by simp
    from fresh [OF this] show ?thesis by (simp add: spawned_ok_def sel(4) [OF 3 p])
  qed
qed

text \<open>
  A task advances: what it spawns it owns, and of what it owned it lets go only of what has ended.
\<close>

lemma tree_inv_advance:
  assumes inv: "tree_inv g ts" and t: "live ts t"
    and stage: "stage_ok (advance t stage new ts ! t)" "stage \<noteq> Ended"
    and fresh: "\<And>s. s \<in> set new \<Longrightarrow> stage_ok (new_task t s)"
    and keep: "\<And>c. c \<in> set (owned (ts ! t)) \<Longrightarrow> live ts c \<Longrightarrow> c \<in> set (owned (advance t stage new ts ! t))"
    and owns: "{length ts..<length ts + length new} \<subseteq> set (owned (advance t stage new ts ! t))"
    and only: "set (owned (advance t stage new ts ! t)) \<subseteq>
      set (owned (ts ! t)) \<union> {length ts..<length ts + length new}"
  shows "tree_inv g (advance t stage new ts)"
proof -
  let ?ts = "advance t stage new ts"
  have tn: "t < length ts" using t by (simp add: live_def)
  note sel = advance_sel [OF tn, where stage = stage and new = new]
  have "tk_parent (?ts ! c) < c" if "c < length ?ts" "0 < c" for c
    using tree_invD(3) [OF inv _ that(2)] sel(1) [of c] sel(4) [of c] that(1) tn
    by (cases "c < length ts") simp_all
  moreover have "abort_ok g ?ts c" if c: "live ?ts c" for c
  proof (cases "c < length ts")
    case True
    then have lc: "live ts c" using c t by (cases "c = t") (simp_all add: live_def is_finished_def sel(3))
    have par: "0 < c \<Longrightarrow> tk_parent (ts ! c) < length ts" using tree_invD(3) [OF inv True] True by simp
    have "c \<in> set (owned (?ts ! p)) \<longleftrightarrow> c \<in> set (owned (ts ! p))" if "p < length ts" for p
      using keep [OF _ lc] only True that sel(3) [OF that] by (cases "p = t") auto
    with par tree_invD(4) [OF inv lc] sel(1,2) [OF True] show ?thesis by (auto simp: abort_ok_def)
  next
    case False
    with c have b: "length ts \<le> c" "c < length ts + length new" by (auto simp: live_def)
    with tn owns sel(4) [OF b] show ?thesis by (auto simp: abort_ok_def)
  qed
  ultimately show ?thesis
    using tree_invD(1) [OF inv] advance_spawned_ok [OF tn tree_invD(2) [OF inv] stage(1) fresh]
    by (simp add: tree_inv_def) (simp add: advance_def)
qed

lemma tree_inv_guard: "tree_inv g ts \<Longrightarrow> tree_inv False (abort_tasks [0] ts)"
proof -
  assume inv: "tree_inv g ts"
  have "spawned_ok (abort_tasks [0] ts) p" if "p < length ts" for p
    using tree_invD(2) [OF inv that] that stage_ok_eq [of "abort_tasks [0] ts ! p" "ts ! p"]
    by (auto simp: spawned_ok_def)
  moreover have "abort_ok False (abort_tasks [0] ts) t" if "live ts t" for t
  proof -
    have "t < length ts" using that by (simp add: live_def)
    then show ?thesis
      using tree_invD(4) [OF inv that] tree_invD(3) [OF inv, of t]
      by (auto simp: abort_ok_def)
  qed
  ultimately show ?thesis using tree_invD(1,3) [OF inv]
    by (auto simp: tree_inv_def simp flip: length_greater_0_conv)
qed

subsection \<open>Every step keeps it\<close>

definition linux_inv :: "'e linux_system \<Rightarrow> bool" where
  "linux_inv s \<longleftrightarrow> tree_inv (ls_guard s) (ls_tasks s)"

lemma emit_sel [simp]:
  "ls_tasks (emit ms s) = ls_tasks s" "ls_guard (emit ms s) = ls_guard s"
  "ls_open (emit ms s) = ls_open s" "ls_bus (emit ms s) = ls_bus s"
  "ls_sent (emit ms s) = (if ls_open s then ls_sent s @ ms else ls_sent s)"
  by (simp_all add: emit_def)

lemma linux_inv_emit [simp]: "linux_inv (emit ms s) = linux_inv s"
  by (simp add: linux_inv_def)

lemma advance_self:
  "t < length ts \<Longrightarrow> advance t stage new ts ! t = (ts ! t)\<lparr>tk_stage := stage,
     tk_spawned := tk_spawned (ts ! t) @ [length ts..<length ts + length new]\<rparr>"
  by (simp add: advance_nth)

text \<open>A task at its start owns nothing and has spawned nothing.\<close>

lemma poll_start_inv:
  assumes inv: "linux_inv s" and t: "live (ls_tasks s) t"
    and start: "tk_spawned (ls_tasks s ! t) = []" "owned (ls_tasks s ! t) = []"
    and stage: "\<And>c p m. stage c p m \<noteq> Ended"
      "\<And>c p m tk. tk_stage tk = stage c p m \<Longrightarrow> tk_spawned tk = [] \<Longrightarrow> stage_ok tk \<and> owned tk = []"
  shows "linux_inv (poll_start opened stage t s)"
proof -
  obtain r os where o: "opened = (r, os)" by fastforce
  have tn: "t < length (ls_tasks s)" using t by (simp add: live_def)
  note at_t = advance_self [OF tn]
  show ?thesis
  proof (cases r)
    case (Inl err)
    then show ?thesis
      using inv tn by (simp add: o poll_start_def linux_inv_def tree_inv_end)
  next
    case (Inr x)
    obtain conn path messages where x: "x = (conn, path, messages)" by (cases x)
    let ?tk = "advance t (stage conn path messages) [] (ls_tasks s) ! t"
    have "stage_ok ?tk \<and> owned ?tk = []" by (rule stage(2)) (simp_all add: at_t start)
    then have "tree_inv (ls_guard s) (advance t (stage conn path messages) [] (ls_tasks s))"
      by (intro tree_inv_advance [OF _ t]) (use inv stage(1) start in \<open>simp_all add: linux_inv_def\<close>)
    then show ?thesis by (simp add: o Inr x poll_start_def linux_inv_def)
  qed
qed

lemma owned_types:
  "stage_ok tk \<Longrightarrow> tk_stage tk = TypesLoop i c p its st \<Longrightarrow> owned tk = tk_spawned tk"
  using map_nth [of "tk_spawned tk"] by (simp add: owned_def stage_ok_def)

lemma poll_types_inv:
  assumes inv: "linux_inv s" and t: "live (ls_tasks s) t"
    and stage: "tk_stage (ls_tasks s ! t) = TypesLoop i c p its st"
    and grown: "child_browsers st' = child_browsers st @ keys"
  shows "linux_inv (poll_item ms (TypesLoop i c p its' st') (map (job_of_type i) keys) t s)"
proof -
  have tn: "t < length (ls_tasks s)" using t by (simp add: live_def)
  note at_t = advance_self [OF tn]
  have tree: "tree_inv (ls_guard s) (ls_tasks s)" using inv by (simp add: linux_inv_def)
  have ok: "stage_ok (ls_tasks s ! t)" using tree_invD(2) [OF tree tn] by (simp add: spawned_ok_def)
  let ?tk = "advance t (TypesLoop i c p its' st') (map (job_of_type i) keys) (ls_tasks s) ! t"
  have ok': "stage_ok ?tk" using ok stage grown by (simp add: at_t stage_ok_def)
  have "owned ?tk = tk_spawned ?tk" by (rule owned_types [OF ok']) (simp add: at_t)
  then have own: "owned ?tk = owned (ls_tasks s ! t) @
      [length (ls_tasks s)..<length (ls_tasks s) + length keys]"
    using owned_types [OF ok stage] by (simp add: at_t)
  have "tree_inv (ls_guard s) (advance t (TypesLoop i c p its' st') (map (job_of_type i) keys) (ls_tasks s))"
    by (rule tree_inv_advance [OF tree t ok'])
       (auto simp: own job_of_type_def new_task_def stage_ok_def)
  then show ?thesis by (simp add: poll_item_def linux_inv_def)
qed

lemma instance_step_effect:
  assumes "resolvers_inv st"
  obtains ctl st' jobs where "instance_step ty it st = (ctl, st')" and "resolvers_inv st'"
    and "ib_spawned st' = ib_spawned st @ jobs"
    and "set (resolvers st') \<subseteq> set (resolvers st) \<union> {length (ib_spawned st)..<length (ib_spawned st')}"
    and "{length (ib_spawned st)..<length (ib_spawned st')} \<subseteq> set (resolvers st')"
    and "\<forall>r \<in> set (resolvers st). it_finished it r \<or> r \<in> set (resolvers st')"
proof (cases rule: instance_step_cases [of ty it st])
  case (skip w)
  then show ?thesis using assms by (intro that [of Continue w "[]"]) (auto simp: ib_warn_def resolvers_inv_def)
next
  case (spawn job)
  then show ?thesis
    using spawn_resolver_inv [OF assms, of "it_finished it" job]
    by (intro that [of Continue _ "[job]"]) (auto simp: spawn_resolver_def)
next
  case (message m)
  then show ?thesis using assms by (intro that [of Continue "ib_send True m st" "[]"]) (auto simp: ib_send_def resolvers_inv_def)
next
  case leave
  then show ?thesis using assms by (intro that [of Break st "[]"]) auto
qed

text \<open>
  What an instance browse owns after an item, in terms of the numbers of its resolvers: \<open>sp\<close> are the
  tasks it spawned before, \<open>n\<close> is the number of its first new one.
\<close>

lemma owned_after:
  fixes sp :: "nat list" and jobs :: "'j list"
  defines "after \<equiv> \<lambda>k. sp @ [k..<k + length jobs]"
  assumes len: "length sp = m" and below: "\<forall>r \<in> set rs. r < m"
    and old: "set rs' \<subseteq> set rs \<union> {m..<m + length jobs}" and new: "{m..<m + length jobs} \<subseteq> set rs'"
  shows "{n..<n + length jobs} \<subseteq> (!) (after n) ` set rs'"
    and "(!) (after n) ` set rs' \<subseteq> (!) sp ` set rs \<union> {n..<n + length jobs}"
    and "r \<in> set rs \<Longrightarrow> after n ! r = sp ! r"
proof -
  have shifted: "after n ! (m + k) = n + k" if "k < length jobs" for k
    using that len by (simp add: after_def nth_append)
  show same: "r \<in> set rs \<Longrightarrow> after n ! r = sp ! r" for r
    using below len by (auto simp: after_def nth_append)
  show "{n..<n + length jobs} \<subseteq> (!) (after n) ` set rs'"
  proof
    fix d
    assume "d \<in> {n..<n + length jobs}"
    then obtain k where k: "d = n + k" "k < length jobs"
      by (metis add_less_cancel_left atLeastLessThan_iff le_Suc_ex)
    then have "m + k \<in> set rs'" using new by auto
    with shifted [OF k(2)] k(1) show "d \<in> (!) (after n) ` set rs'" by (metis imageI)
  qed
  show "(!) (after n) ` set rs' \<subseteq> (!) sp ` set rs \<union> {n..<n + length jobs}"
  proof
    fix d
    assume "d \<in> (!) (after n) ` set rs'"
    then obtain r where r: "r \<in> set rs'" "d = after n ! r" by blast
    show "d \<in> (!) sp ` set rs \<union> {n..<n + length jobs}"
    proof (cases "r \<in> set rs")
      case True
      with r same show ?thesis by auto
    next
      case False
      with r(1) old have "m \<le> r \<and> r < m + length jobs" by auto
      then obtain k where k: "r = m + k" "k < length jobs" by (metis add_less_cancel_left le_Suc_ex)
      with r(2) shifted [OF k(2)] show ?thesis by simp
    qed
  qed
qed

lemma poll_instances_inv:
  assumes inv: "linux_inv s" and t: "live (ls_tasks s) t"
    and stage: "tk_stage (ls_tasks s ! t) = InstancesLoop ty c p its st"
    and grown: "ib_spawned st' = ib_spawned st @ jobs" and ok': "resolvers_inv st'"
    and old: "set (resolvers st') \<subseteq> set (resolvers st) \<union> {length (ib_spawned st)..<length (ib_spawned st')}"
    and new: "{length (ib_spawned st)..<length (ib_spawned st')} \<subseteq> set (resolvers st')"
    and keep: "\<And>r. r \<in> set (resolvers st) \<Longrightarrow>
      is_finished (ls_tasks s) (tk_spawned (ls_tasks s ! t) ! r) \<or> r \<in> set (resolvers st')"
  shows "linux_inv (poll_item ms (InstancesLoop ty c p its' st') (map (Resolving c) jobs) t s)"
proof -
  let ?ts = "ls_tasks s" and ?sp = "tk_spawned (ls_tasks s ! t)" and ?n = "length (ls_tasks s)"
  have tn: "t < ?n" using t by (simp add: live_def)
  note at_t = advance_self [OF tn]
  have tree: "tree_inv (ls_guard s) ?ts" using inv by (simp add: linux_inv_def)
  have "stage_ok (?ts ! t)" using tree_invD(2) [OF tree tn] by (simp add: spawned_ok_def)
  with stage have len: "length ?sp = length (ib_spawned st)"
    and below: "\<forall>r \<in> set (resolvers st). r < length (ib_spawned st)"
    by (auto simp: stage_ok_def resolvers_inv_def)
  note after = owned_after [OF len below, where rs' = "resolvers st'" and jobs = jobs and n = ?n]
  let ?tk = "advance t (InstancesLoop ty c p its' st') (map (Resolving c) jobs) ?ts ! t"
  have own: "set (owned ?tk) = (!) (?sp @ [?n..<?n + length jobs]) ` set (resolvers st')"
    "set (owned (?ts ! t)) = (!) ?sp ` set (resolvers st)"
    using stage by (simp_all add: at_t owned_def)
  have "tree_inv (ls_guard s) (advance t (InstancesLoop ty c p its' st') (map (Resolving c) jobs) ?ts)"
  proof (rule tree_inv_advance [OF tree t])
    show "stage_ok ?tk" using ok' grown len by (simp add: at_t stage_ok_def)
    show "stage_ok (new_task t x)" if "x \<in> set (map (Resolving c) jobs)" for x
      using that by (auto simp: stage_ok_def new_task_def)
    show "d \<in> set (owned ?tk)" if "d \<in> set (owned (?ts ! t))" and "live ?ts d" for d
    proof -
      from that(1) obtain r where r: "r \<in> set (resolvers st)" "d = ?sp ! r" by (auto simp: own)
      with keep [OF r(1)] that(2) have "r \<in> set (resolvers st')" by (auto simp: live_def)
      moreover have "d = (?sp @ [?n..<?n + length jobs]) ! r" using after(3) old new grown r by simp
      ultimately show ?thesis unfolding own by (metis imageI)
    qed
  qed (use after(1,2) old new grown in \<open>simp_all add: own\<close>)
  then show ?thesis by (simp add: poll_item_def linux_inv_def)
qed

lemma poll_end_inv: "linux_inv s \<Longrightarrow> live (ls_tasks s) t \<Longrightarrow> linux_inv (poll_end api c p t s)"
  by (simp add: poll_end_def linux_inv_def tree_inv_end live_def)

lemma new_stage_ok:
  "tk_stage tk = TypesLoop i c p m TypeBrowse_new \<Longrightarrow> tk_spawned tk = [] \<Longrightarrow> stage_ok tk \<and> owned tk = []"
  "tk_stage tk = InstancesLoop ty c p m InstanceBrowse_new \<Longrightarrow> tk_spawned tk = [] \<Longrightarrow>
   stage_ok tk \<and> owned tk = []"
  by (simp_all add: stage_ok_def owned_def TypeBrowse_new_def InstanceBrowse_new_def resolvers_inv_def)

lemma poll_types_loop_inv:
  assumes inv: "linux_inv s" and t: "live (ls_tasks s) t"
    and stage: "tk_stage (ls_tasks s ! t) = TypesLoop i c p its st"
  shows "linux_inv (poll api t s)"
proof (cases its)
  case Nil
  with inv t stage show ?thesis by (simp add: poll_def poll_end_inv)
next
  case (Cons it rest)
  obtain ctl st' where step: "type_step (observe t s it) st = (ctl, st')" by fastforce
  have "child_browsers st' = child_browsers st @ drop (length (child_browsers st)) (child_browsers st')"
    using type_step_effect(3) [of "observe t s it" st] by (simp add: step)
  from poll_types_inv [OF inv t stage this] show ?thesis
    by (simp add: poll_def stage Cons step)
qed

lemma poll_instances_loop_inv:
  assumes inv: "linux_inv s" and t: "live (ls_tasks s) t"
    and stage: "tk_stage (ls_tasks s ! t) = InstancesLoop ty c p its st" and ok: "resolvers_inv st"
  shows "linux_inv (poll api t s)"
proof (cases its)
  case Nil
  with inv t stage show ?thesis by (simp add: poll_def poll_end_inv)
next
  case (Cons it rest)
  from ok obtain ctl st' jobs where step: "instance_step ty (observe t s it) st = (ctl, st')"
    "resolvers_inv st'" "ib_spawned st' = ib_spawned st @ jobs"
    "set (resolvers st') \<subseteq> set (resolvers st) \<union> {length (ib_spawned st)..<length (ib_spawned st')}"
    "{length (ib_spawned st)..<length (ib_spawned st')} \<subseteq> set (resolvers st')"
    "\<forall>r \<in> set (resolvers st). it_finished (observe t s it) r \<or> r \<in> set (resolvers st')"
    by (rule instance_step_effect)
  have keep: "is_finished (ls_tasks s) (tk_spawned (ls_tasks s ! t) ! r) \<or> r \<in> set (resolvers st')"
    if "r \<in> set (resolvers st)" for r
    using step(6) that by (simp add: observe_def)
  show ?thesis
    using poll_instances_inv [OF inv t stage step(3,2,4,5) keep]
    by (simp add: poll_def stage Cons step(1,3))
qed

lemma poll_inv:
  assumes inv: "linux_inv s" and t: "live (ls_tasks s) t"
  shows "linux_inv (poll api t s)"
proof -
  have tn: "t < length (ls_tasks s)" using t by (simp add: live_def)
  have ok: "stage_ok (ls_tasks s ! t)"
    using tree_invD(2) [OF inv [unfolded linux_inv_def] tn] by (simp add: spawned_ok_def)
  show ?thesis
  proof (cases "tk_stage (ls_tasks s ! t)")
    case (StartTypes i d)
    with ok have "tk_spawned (ls_tasks s ! t) = []" "owned (ls_tasks s ! t) = []"
      by (simp_all add: stage_ok_def owned_def)
    from poll_start_inv [OF inv t this, of "\<lambda>c p m. TypesLoop i c p m TypeBrowse_new"] new_stage_ok(1)
    show ?thesis by (simp add: poll_def StartTypes)
  next
    case (StartInstances i ty d)
    with ok have "tk_spawned (ls_tasks s ! t) = []" "owned (ls_tasks s ! t) = []"
      by (simp_all add: stage_ok_def owned_def)
    from poll_start_inv [OF inv t this, of "\<lambda>c p m. InstancesLoop ty c p m InstanceBrowse_new"] new_stage_ok(2)
    show ?thesis by (simp add: poll_def StartInstances)
  next
    case (TypesLoop i c p its st)
    with inv t show ?thesis by (rule poll_types_loop_inv)
  next
    case (InstancesLoop ty c p its st)
    with ok have "resolvers_inv st" by (simp add: stage_ok_def)
    with inv t InstancesLoop show ?thesis by (rule poll_instances_loop_inv)
  next
    case (Resolving c job)
    with inv tn show ?thesis by (simp add: poll_def linux_inv_def tree_inv_end split: prod.split)
  next
    case Ended
    with inv show ?thesis by (simp add: poll_def)
  qed
qed

lemma linux_step_inv: "linux_inv s \<Longrightarrow> linux_step api s x s' \<Longrightarrow> linux_inv s'"
  by (erule linux_step_cases)
     (auto simp: poll_inv cut_off_def drop_guard_def linux_inv_def live_def tree_inv_end tree_inv_guard
       intro: poll_inv [unfolded linux_inv_def])

lemma live_single: "live [tk] t \<longleftrightarrow> t = 0 \<and> tk_stage tk \<noteq> Ended"
  by (auto simp: live_def is_finished_def)

lemma linux_init_inv: "linux_init api s \<Longrightarrow> linux_inv s"
  by (auto simp: linux_init_def linux_started_def linux_inv_def tree_inv_def spawned_ok_def
      stage_ok_def new_task_def abort_ok_def root_stage_def live_single split: root_task.split)

interpretation linux_tree: transition_system "linux_init api" "linux_step api" "\<lambda>_ _. True" linux_inv for api
  by unfold_locales (auto intro: linux_init_inv linux_step_inv)

end
