(* ===== verification/Linux_System_Properties.thy ===== *)
theory Linux_System_Properties
  imports Linux_System_Safety
begin

text \<open>
  What the task tree gives: dropping the guard stops every task, no resolver of a running browse is
  cut off, and whatever the tasks send, in any interleaving, has its cause on the bus.
\<close>

subsection \<open>Stopping\<close>

definition only_cuts :: "'e linux_system \<Rightarrow> linux_action \<Rightarrow> bool" where
  "only_cuts s x \<longleftrightarrow> (case x of CutOff _ \<Rightarrow> True | _ \<Rightarrow> False)"

definition live_tasks :: "linux_task list \<Rightarrow> nat set" where
  "live_tasks ts = {t. live ts t}"

lemma finite_live_tasks [simp]: "finite (live_tasks ts)"
  by (rule finite_subset [of _ "{..<length ts}"]) (auto simp: live_tasks_def live_def)

text \<open>The task with the least number that still runs has been told to abort.\<close>

lemma least_live_aborted:
  assumes inv: "linux_inv s" and "\<not> ls_guard s" and t: "live (ls_tasks s) t"
  shows "\<exists>u. live (ls_tasks s) u \<and> tk_abort (ls_tasks s ! u)"
proof -
  let ?ts = "ls_tasks s"
  define u where "u = Min (live_tasks ?ts)"
  have "t \<in> live_tasks ?ts" using t by (simp add: live_tasks_def)
  then have "u \<in> live_tasks ?ts" unfolding u_def by (intro Min_in) auto
  then have u: "live ?ts u" by (simp add: live_tasks_def)
  have least: "u \<le> v" if "live ?ts v" for v
    using that by (auto simp: u_def live_tasks_def [symmetric] intro!: Min_le) (simp add: live_tasks_def)
  have tree: "tree_inv False ?ts" using inv assms(2) by (simp add: linux_inv_def)
  have ok: "abort_ok False ?ts u" using tree u by (rule tree_invD)
  show ?thesis
  proof (cases "u = 0")
    case True
    with ok u show ?thesis by (auto simp: abort_ok_def)
  next
    case False
    have "u < length ?ts" using u by (simp add: live_def)
    with False tree_invD(3) [OF tree, of u] have p: "tk_parent (?ts ! u) < u" by simp
    then have "\<not> live ?ts (tk_parent (?ts ! u))" using least by fastforce
    with p \<open>u < length ?ts\<close> have "owned (?ts ! tk_parent (?ts ! u)) = []"
      by (simp add: live_def is_finished_def)
    with ok False u show ?thesis by (auto simp: abort_ok_def)
  qed
qed

lemma cut_off_effect:
  assumes "linux_inv s" and "live (ls_tasks s) t"
  shows "linux_inv (cut_off t s)" and "live_tasks (ls_tasks (cut_off t s)) = live_tasks (ls_tasks s) - {t}"
  using assms by (auto simp: cut_off_def linux_inv_def live_tasks_def live_def [of _ t] intro: tree_inv_end)

lemma cut_off_sel [simp]:
  "ls_guard (cut_off t s) = ls_guard s" "ls_sent (cut_off t s) = ls_sent s" "ls_bus (cut_off t s) = ls_bus s"
  by (simp_all add: cut_off_def)

lemma cuts_stop_all:
  assumes "linux_inv s" and "\<not> ls_guard s"
  shows "\<exists>s'. reachable (\<lambda>x. x = s) (linux_step api) only_cuts s' \<and> live_tasks (ls_tasks s') = {} \<and>
    ls_sent s' = ls_sent s \<and> ls_bus s' = ls_bus s"
  using assms
proof (induction "card (live_tasks (ls_tasks s))" arbitrary: s rule: less_induct)
  case less
  show ?case
  proof (cases "live_tasks (ls_tasks s) = {}")
    case True
    then show ?thesis by (intro exI [of _ s]) (simp add: reachable.start)
  next
    case False
    then obtain t where t: "live (ls_tasks s) t" by (auto simp: live_tasks_def)
    then obtain u where u: "live (ls_tasks s) u" "tk_abort (ls_tasks s ! u)"
      using least_live_aborted [OF less.prems t] by blast
    note cut = cut_off_effect [OF less.prems(1) u(1)]
    have "card (live_tasks (ls_tasks (cut_off u s))) < card (live_tasks (ls_tasks s))"
      unfolding cut(2) using u(1) by (intro card_Diff1_less) (simp, simp add: live_tasks_def)
    from less.hyps [OF this cut(1)] less.prems(2) obtain s' where s':
      "reachable (\<lambda>x. x = cut_off u s) (linux_step api) only_cuts s'"
      "live_tasks (ls_tasks s') = {}" "ls_sent s' = ls_sent s" "ls_bus s' = ls_bus s"
      by auto
    have "linux_step api s (CutOff u) (cut_off u s)" using u by (rule linux_step.cut)
    then have step: "reachable (\<lambda>x. x = s) (linux_step api) only_cuts (cut_off u s)"
      by (rule reachable.move [OF reachable.start, rotated 2]) (simp_all add: only_cuts_def)
    from reachable_trans [OF s'(1) this] s' show ?thesis by blast
  qed
qed

lemma live_tasks_none: "live_tasks ts = {} \<longleftrightarrow> \<not> list_ex (live ts) [0..<length ts]"
  by (auto simp: live_tasks_def list_ex_iff live_def)

text \<open>The system is at rest: no task runs.\<close>

lemma rest_is_final:
  assumes "live_tasks (ls_tasks s) = {}" and "linux_step api s x s'"
  shows "ls_sent s' = ls_sent s \<and> ls_bus s' = ls_bus s \<and> live_tasks (ls_tasks s') = {}"
  using assms(2)
proof cases
  case (poll t)
  with assms(1) show ?thesis by (auto simp: live_tasks_def)
next
  case (cut t)
  with assms(1) show ?thesis by (auto simp: live_tasks_def)
next
  case guard
  with assms(1) show ?thesis by (simp add: drop_guard_def live_tasks_def)
next
  case receiver
  with assms(1) show ?thesis by simp
qed

subsection \<open>What is sent\<close>

text \<open>
  An item with a message of a stream that the bus gave for the signals of instance browsers, and
  the instance items that such messages carry.
\<close>

definition from_stream :: "'e dbus \<Rightarrow> stream_item \<Rightarrow> bool" where
  "from_stream api it \<longleftrightarrow>
     (\<exists>rule c e its e' it'. build_rule api ''org.freedesktop.Avahi'' SERVICE_BROWSER_INTERFACE = Inr rule \<and>
        for_match_rule api rule c e = (Inr its, e') \<and> it' \<in> set its \<and> it_message it' = it_message it)"

definition signalled :: "'e dbus \<Rightarrow> bytes \<Rightarrow> instance_item \<Rightarrow> bool" where
  "signalled api member x \<longleftrightarrow> (\<exists>it. from_stream api it \<and> instance_signal member it = Some x)"

text \<open>
  The cause of an event: a service was announced and Avahi resolved exactly that instance, with the
  interface and protocol of the announcement; it was announced and resolving it failed with that
  error; its removal was signalled. Other errors are about the browse.
\<close>

fun caused :: "'e dbus \<Rightarrow> event_result \<Rightarrow> bool" where
  "caused api (Inr (Found s)) \<longleftrightarrow>
     (\<exists>c i p n t d f r e e'. signalled api ''ItemNew'' (i, p, n, t, d, f) \<and>
        server_resolve api c i p n t d AVAHI_PROTO_UNSPEC 0 e = (Inr r, e') \<and> s = resolved_to_service r)"
| "caused api (Inr (Removed r)) \<longleftrightarrow>
     (\<exists>i p n t d f. signalled api ''ItemRemove'' (i, p, n, t, d, f) \<and>
        r = \<lparr>rs_name = n, rs_service_type = t, rs_domain = d,
             rs_interface_index = avahi_interface_to_index i\<rparr>)"
| "caused api (Inl (ResolveFailed n err)) \<longleftrightarrow>
     (\<exists>c i p t d f e e'. signalled api ''ItemNew'' (i, p, n, t, d, f) \<and>
        (avahi_new api c e = (Inl err, e') \<or>
         server_resolve api c i p n t d AVAHI_PROTO_UNSPEC 0 e = (Inl err, e')))"
| "caused api (Inl (BrowseFailed m)) \<longleftrightarrow> True"
| "caused api (Inl (DnsSdUnavailable m)) \<longleftrightarrow> True"
| "caused api m \<longleftrightarrow> False"

definition stage_caused :: "'e dbus \<Rightarrow> linux_stage \<Rightarrow> bool" where
  "stage_caused api g \<longleftrightarrow>
     (case g of
        InstancesLoop _ _ _ its _ \<Rightarrow> list_all (from_stream api) its
      | Resolving _ (i, p, n, t, d) \<Rightarrow> \<exists>f. signalled api ''ItemNew'' (i, p, n, t, d, f)
      | _ \<Rightarrow> True)"

definition tasks_caused :: "'e dbus \<Rightarrow> linux_task list \<Rightarrow> bool" where
  "tasks_caused api ts \<longleftrightarrow> (\<forall>tk \<in> set ts. stage_caused api (tk_stage tk))"

lemma tasks_caused_abort [simp]: "tasks_caused api (abort_tasks ids ts) = tasks_caused api ts"
  by (simp add: tasks_caused_def all_set_conv_all_nth)

lemma tasks_caused_end: "tasks_caused api ts \<Longrightarrow> tasks_caused api (end_task t ts)"
  by (auto simp: tasks_caused_def all_set_conv_all_nth stage_caused_def)

lemma tasks_caused_advance:
  assumes "tasks_caused api ts" and "t < length ts" and "stage_caused api stage"
    and "\<And>g. g \<in> set new \<Longrightarrow> stage_caused api g"
  shows "tasks_caused api (advance t stage new ts)"
  using assms
  by (auto simp: tasks_caused_def advance_def new_task_def dest!: set_update_subset_insert [THEN subsetD])

lemma open_instances_caused:
  assumes "open_instances api i ty d os = (r, os')"
  shows "case r of Inl err \<Rightarrow> caused api (Inl err) | Inr (c, p, its) \<Rightarrow> list_all (from_stream api) its"
  using assms
  by (fastforce simp: open_instances_def connect_and_subscribe_def connect_system_def try_then_def map_err_def
      return_ok_def pure_result_def from_stream_def list_all_iff
      split: prod.splits sum.splits dest!: invoke_Inr)

lemma open_types_caused: "open_types api i d os = (Inl err, os') \<Longrightarrow> caused api (Inl err)"
  by (auto simp: open_types_def connect_and_subscribe_def connect_system_def try_then_def map_err_def
      return_ok_def pure_result_def split: prod.splits sum.splits)

lemma from_stream_observe [simp]: "from_stream api (observe t s it) = from_stream api it"
  by (simp add: from_stream_def observe_def)

lemma type_step_caused:
  "list_all (caused api) (drop (length (tb_sent st)) (tb_sent (snd (type_step it st))))"
  by (auto simp: type_step_effect item_failure_def split: option.split sum.splits if_splits)

lemma instance_message_caused: "from_stream api it \<Longrightarrow> instance_message ty it = Some m \<Longrightarrow> caused api m"
  by (fastforce simp: instance_message_def item_removal_def item_failure_def signalled_def
      split: option.splits sum.splits if_splits)

lemma instance_step_caused:
  assumes "from_stream api it"
  shows "list_all (caused api) (drop (length (ib_sent st)) (ib_sent (snd (instance_step ty it st))))"
    and "g \<in> set (map (Resolving c) (drop (length (ib_spawned st)) (ib_spawned (snd (instance_step ty it st))))) \<Longrightarrow>
      stage_caused api g"
proof -
  show "list_all (caused api) (drop (length (ib_sent st)) (ib_sent (snd (instance_step ty it st))))"
    by (cases rule: instance_step_cases [of ty it st])
       (auto simp: ib_warn_def ib_send_def spawn_resolver_def dest: instance_message_caused [OF assms])
  show "g \<in> set (map (Resolving c) (drop (length (ib_spawned st)) (ib_spawned (snd (instance_step ty it st))))) \<Longrightarrow>
      stage_caused api g"
    using assms
    by (cases rule: instance_step_cases [of ty it st])
       (fastforce simp: ib_warn_def ib_send_def spawn_resolver_def item_job_def stage_caused_def signalled_def)+
qed

lemma resolve_and_emit_caused:
  assumes "signalled api ''ItemNew'' (i, p, n, t, d, f)" and "resolve_and_emit api c (i, p, n, t, d) os = (m, os')"
  shows "caused api m"
proof -
  obtain ra e1 where avahi: "avahi_new api c (bus_env os) = (ra, e1)" by fastforce
  obtain rs e2 where answer: "server_resolve api c i p n t d AVAHI_PROTO_UNSPEC 0 e1 = (rs, e2)" by fastforce
  show ?thesis
  proof (cases ra)
    case (Inl err)
    with assms(2) avahi have "m = Inl (ResolveFailed n err)" by (auto simp: resolve_and_emit_def invoke_def)
    moreover have "avahi_new api c (bus_env os) = (Inl err, e1)" using avahi Inl by simp
    ultimately show ?thesis using assms(1) by (simp only: caused.simps) blast
  next
    case (Inr u)
    have m: "m = (case rs of Inl err \<Rightarrow> Inl (ResolveFailed n err) | Inr r \<Rightarrow> Inr (Found (resolved_to_service r)))"
      using assms(2) avahi answer Inr by (auto simp: resolve_and_emit_def invoke_def split: sum.splits)
    show ?thesis
    proof (cases rs)
      case (Inl err)
      with m answer assms(1) show ?thesis by (simp only: caused.simps sum.case) blast
    next
      case (Inr r)
      with m answer assms(1) show ?thesis by (simp only: caused.simps sum.case) blast
    qed
  qed
qed

definition caused_inv :: "'e dbus \<Rightarrow> 'e linux_system \<Rightarrow> bool" where
  "caused_inv api s \<longleftrightarrow> list_all (caused api) (ls_sent s) \<and> tasks_caused api (ls_tasks s)"

lemma emit_caused_inv: "list_all (caused api) ms \<Longrightarrow> caused_inv api s \<Longrightarrow> caused_inv api (emit ms s)"
  by (simp add: caused_inv_def emit_def)

lemma poll_start_caused:
  assumes "caused_inv api s" and "t < length (ls_tasks s)"
    and "case fst opened of Inl err \<Rightarrow> caused api (Inl err) | Inr (c, p, m) \<Rightarrow> stage_caused api (stage c p m)"
  shows "caused_inv api (poll_start opened stage t s)"
  using assms
  by (auto simp: poll_start_def caused_inv_def emit_def tasks_caused_end split: prod.splits sum.splits
      intro!: tasks_caused_advance)

lemma poll_item_caused:
  assumes "caused_inv api s" and "t < length (ls_tasks s)" and "list_all (caused api) ms"
    and "stage_caused api stage" and "\<And>g. g \<in> set new \<Longrightarrow> stage_caused api g"
  shows "caused_inv api (poll_item ms stage new t s)"
  unfolding poll_item_def
  using assms by (intro emit_caused_inv) (auto simp: caused_inv_def intro: tasks_caused_advance)

lemma poll_instance_caused:
  assumes "caused_inv api s" and "t < length (ls_tasks s)"
    and it: "from_stream api (observe t s it)" and "list_all (from_stream api) its"
  shows "caused_inv api (poll_item
    (drop (length (ib_sent st)) (ib_sent (snd (instance_step ty (observe t s it) st))))
    (InstancesLoop ty c p (if fst (instance_step ty (observe t s it) st) = Break then [] else its)
      (snd (instance_step ty (observe t s it) st)))
    (map (Resolving c) (drop (length (ib_spawned st)) (ib_spawned (snd (instance_step ty (observe t s it) st))))) t s)"
  using assms(1,2) instance_step_caused(1) [OF it]
  by (rule poll_item_caused) (use assms(4) instance_step_caused(2) [OF it] in \<open>simp_all add: stage_caused_def\<close>)

lemma poll_caused:
  assumes inv: "caused_inv api s" and t: "live (ls_tasks s) t"
  shows "caused_inv api (poll api t s)"
proof -
  have tn: "t < length (ls_tasks s)" using t by (simp add: live_def)
  with inv have stage: "stage_caused api (tk_stage (ls_tasks s ! t))"
    by (simp add: caused_inv_def tasks_caused_def)
  have ended: "caused_inv api (s\<lparr>ls_bus := os, ls_tasks := end_task t (ls_tasks s)\<rparr>)" for os
    using inv by (simp add: caused_inv_def tasks_caused_end)
  show ?thesis
  proof (cases "tk_stage (ls_tasks s ! t)")
    case (StartTypes i d)
    have "case fst (open_types api i d (ls_bus s)) of Inl err \<Rightarrow> caused api (Inl err)
        | Inr (c, p, m) \<Rightarrow> stage_caused api (TypesLoop i c p m TypeBrowse_new)"
      using open_types_caused [of api i d "ls_bus s"]
      by (cases "open_types api i d (ls_bus s)") (auto simp: stage_caused_def split: sum.split)
    from poll_start_caused [OF inv tn this] StartTypes show ?thesis by (simp add: poll_def)
  next
    case (StartInstances i ty d)
    have "case fst (open_instances api i ty d (ls_bus s)) of Inl err \<Rightarrow> caused api (Inl err)
        | Inr (c, p, m) \<Rightarrow> stage_caused api (InstancesLoop ty c p m InstanceBrowse_new)"
      using open_instances_caused [of api i ty d "ls_bus s"]
      by (cases "open_instances api i ty d (ls_bus s)") (auto simp: stage_caused_def split: sum.splits)
    from poll_start_caused [OF inv tn this] StartInstances show ?thesis by (simp add: poll_def)
  next
    case (TypesLoop i c p its st)
    then show ?thesis
      using inv tn ended
      by (cases its)
         (auto simp: poll_def poll_end_def case_prod_unfold type_step_caused stage_caused_def
           job_of_type_def intro!: poll_item_caused)
  next
    case (InstancesLoop ty c p its st)
    show ?thesis
    proof (cases its)
      case Nil
      with InstancesLoop ended show ?thesis by (simp add: poll_def poll_end_def)
    next
      case (Cons it its')
      then have "from_stream api (observe t s it)" "list_all (from_stream api) its'"
        using stage InstancesLoop by (simp_all add: stage_caused_def)
      from poll_instance_caused [OF inv tn this] show ?thesis
        by (simp add: poll_def InstancesLoop Cons case_prod_unfold)
    qed
  next
    case (Resolving c job)
    obtain m os where run: "resolve_and_emit api c job (ls_bus s) = (m, os)" by fastforce
    with stage Resolving have "caused api m"
      by (cases job) (auto simp: stage_caused_def intro: resolve_and_emit_caused)
    with ended [of os] emit_caused_inv [of api "[m]"] show ?thesis
      by (simp add: poll_def Resolving run)
  next
    case Ended
    with inv show ?thesis by (simp add: poll_def)
  qed
qed

lemma linux_init_caused: "linux_init api s \<Longrightarrow> caused_inv api s"
  by (auto simp: linux_init_def linux_started_def caused_inv_def tasks_caused_def new_task_def root_stage_def
      stage_caused_def split: root_task.split)

lemma linux_step_caused: "caused_inv api s \<Longrightarrow> linux_step api s x s' \<Longrightarrow> caused_inv api s'"
  by (erule linux_step_cases)
     (auto simp: cut_off_def drop_guard_def poll_caused, auto simp: caused_inv_def tasks_caused_end)

interpretation linux_causes: transition_system "linux_init api" "linux_step api" "\<lambda>_ _. True" "caused_inv api" for api
  by unfold_locales (auto intro: linux_init_caused linux_step_caused)

subsection \<open>Properties\<close>

text \<open>
  C5: No task is orphaned and none is cut off early: in every reachable state of the task tree a
  task that still runs, the root apart, has been told to abort exactly when the task that spawned
  it has let go of it, and the root exactly when the guard has been dropped.
\<close>

theorem linux_abort_follows_ownership:
  assumes "reachable (linux_init api) (linux_step api) (\<lambda>_ _. True) s" and "live (ls_tasks s) t"
  shows "tk_abort (ls_tasks s ! t) =
    (if t = 0 then \<not> ls_guard s
     else t \<notin> set (owned (ls_tasks s ! tk_parent (ls_tasks s ! t))))"
  using tree_invD(4) [OF linux_tree.reachable_invar [OF assms(1), unfolded linux_inv_def] assms(2)]
  by (simp only: abort_ok_def)

lemma poll_guard [simp]: "ls_guard (poll api t s) = ls_guard s"
  by (simp add: poll_def poll_start_def poll_end_def poll_item_def
      split: linux_stage.split list.split prod.split sum.split)

definition sample_linux0 :: "nat linux_system" where
  "sample_linux0 = linux_started (BrowseAllTypes (-1) []) \<lparr>bus_env = 1, bus_calls = [SystemBus, AvahiServer 0]\<rparr>"

lemma sample_linux_init: "linux_init sample_bus sample_linux0"
proof -
  have "linux_browse_start sample_bus None None None \<lparr>bus_env = 0, bus_calls = []\<rparr> =
      (Inr (BrowseAllTypes (-1) []), \<lparr>bus_env = 1, bus_calls = [SystemBus, AvahiServer 0]\<rparr>)"
    by (simp add: linux_browse_start_def connect_system_def connect_avahi_def try_then_def map_err_def
        invoke_def return_ok_def pure_result_def sample_bus_def interface_to_avahi_def AVAHI_IF_UNSPEC_def)
  then show ?thesis unfolding linux_init_def sample_linux0_def by blast
qed

text \<open>The browse of all types has opened its stream and then spawned its first child.\<close>

definition sample_linux1 :: "nat linux_system" where
  "sample_linux1 = poll sample_bus 0 sample_linux0"

definition sample_linux2 :: "nat linux_system" where
  "sample_linux2 = poll sample_bus 0 sample_linux1"

lemma sample_linux0_state:
  "ls_tasks sample_linux0 = [new_task 0 (StartTypes (-1) [])]" "ls_sent sample_linux0 = []"
  "ls_open sample_linux0" "bus_env (ls_bus sample_linux0) = 1"
  by (simp_all add: sample_linux0_def linux_started_def root_stage_def)

lemma sample_linux1_state:
  "ls_tasks sample_linux1 = [new_task 0 (TypesLoop (-1) 1 ''/types''
     [sample_type_signal 2 ''_http._tcp'' ''local'', sample_type_signal 3 ''_http._tcp'' ''local''] TypeBrowse_new)]"
  "ls_sent sample_linux1 = []" "ls_open sample_linux1" "bus_env (ls_bus sample_linux1) = 2"
  by (simp_all add: sample_linux1_def poll_def sample_linux0_state new_task_def poll_start_def open_types_def
      try_then_def map_err_def invoke_def return_ok_def pure_result_def connect_and_subscribe_def
      connect_system_def sample_bus_def sample_items_def advance_def)

lemma sample_linux2_state:
  "ls_tasks sample_linux2 ! Suc 0 = new_task 0 (StartInstances (-1) ''_http._tcp'' ''local'')"
  "length (ls_tasks sample_linux2) = 2" "ls_sent sample_linux2 = []" "ls_open sample_linux2"
  "bus_env (ls_bus sample_linux2) = 2"
  by (simp_all add: sample_linux2_def poll_def sample_linux1_state new_task_def type_step_def observe_def
      sample_type_signal_def TypeBrowse_new_def spawn_browse_def poll_item_def advance_def job_of_type_def emit_def)

lemma sample_linux_tasks:
  "live (ls_tasks sample_linux0) 0" "live (ls_tasks sample_linux1) 0"
  "live (ls_tasks sample_linux2) 1" "ls_guard sample_linux2"
  "\<not> tk_abort (ls_tasks sample_linux2 ! 1)"
proof -
  show "ls_guard sample_linux2"
    by (simp add: sample_linux2_def sample_linux1_def) (simp add: sample_linux0_def linux_started_def)
qed (simp_all add: sample_linux0_state sample_linux1_state sample_linux2_state live_def is_finished_def new_task_def)

lemma sample_linux_reached:
  "reachable (linux_init sample_bus) (linux_step sample_bus) (\<lambda>_ _. True) sample_linux2"
proof -
  have "reachable (linux_init sample_bus) (linux_step sample_bus) (\<lambda>_ _. True) sample_linux1"
    unfolding sample_linux1_def using linux_step.poll [OF sample_linux_tasks(1)]
    by (rule reachable.move [OF reachable.start, rotated 2]) (simp_all add: sample_linux_init)
  from this TrueI linux_step.poll [OF sample_linux_tasks(2)] show ?thesis
    unfolding sample_linux2_def by (rule reachable.move)
qed

theorem linux_abort_follows_ownership_witness:
  "1 \<in> set (owned (ls_tasks sample_linux2 ! tk_parent (ls_tasks sample_linux2 ! 1)))"
  using linux_abort_follows_ownership [OF sample_linux_reached sample_linux_tasks(3)] sample_linux_tasks(5)
  by simp

text \<open>
  C3: Dropping the guard stops the whole tree: from every state after it some task that runs can be
  cut off as long as there is one, and cutting off alone leads, with no further bus call or message,
  to a state without running tasks, where no step calls the bus or sends a message any more.
\<close>

theorem linux_guard_stops_all:
  assumes "reachable (linux_init api) (linux_step api) (\<lambda>_ _. True) s" and "\<not> ls_guard s"
  shows "(\<exists>s'. reachable (\<lambda>x. x = s) (linux_step api) only_cuts s' \<and>
      \<not> list_ex (live (ls_tasks s')) [0..<length (ls_tasks s')] \<and>
      ls_sent s' = ls_sent s \<and> ls_bus s' = ls_bus s \<and>
      \<not> (\<exists>x s''. linux_step api s' x s'' \<and> (ls_sent s'' \<noteq> ls_sent s' \<or> ls_bus s'' \<noteq> ls_bus s'))) \<and>
    (list_ex (live (ls_tasks s)) [0..<length (ls_tasks s)] =
      list_ex (\<lambda>t. live (ls_tasks s) t \<and> tk_abort (ls_tasks s ! t)) [0..<length (ls_tasks s)])"
proof -
  have inv: "linux_inv s" using assms(1) by (rule linux_tree.reachable_invar)
  have "list_ex (live (ls_tasks s)) [0..<length (ls_tasks s)] =
      list_ex (\<lambda>t. live (ls_tasks s) t \<and> tk_abort (ls_tasks s ! t)) [0..<length (ls_tasks s)]"
    using least_live_aborted [OF inv assms(2)] by (fastforce simp: list_ex_iff live_def)
  moreover obtain s' where "reachable (\<lambda>x. x = s) (linux_step api) only_cuts s'"
    "live_tasks (ls_tasks s') = {}" "ls_sent s' = ls_sent s" "ls_bus s' = ls_bus s"
    using cuts_stop_all [OF inv assms(2), of api] by blast
  ultimately show ?thesis using rest_is_final [of s' api] unfolding live_tasks_none by blast
qed

theorem linux_guard_stops_all_witness:
  "\<exists>s'. reachable (\<lambda>x. x = drop_guard sample_linux2) (linux_step sample_bus) only_cuts s' \<and>
     \<not> list_ex (live (ls_tasks s')) [0..<length (ls_tasks s')] \<and> ls_sent s' = ls_sent sample_linux2"
proof -
  have "reachable (linux_init sample_bus) (linux_step sample_bus) (\<lambda>_ _. True) (drop_guard sample_linux2)"
    using sample_linux_reached TrueI linux_step.guard [OF sample_linux_tasks(4)] by (rule reachable.move)
  from linux_guard_stops_all [OF this] show ?thesis by (auto simp: drop_guard_def)
qed

subsection \<open>Causes\<close>

text \<open>The child opens its stream and spawns a resolver, which reports the instance.\<close>

definition sample_linux3 :: "nat linux_system" where
  "sample_linux3 = poll sample_bus 1 sample_linux2"

definition sample_linux4 :: "nat linux_system" where
  "sample_linux4 = poll sample_bus 1 sample_linux3"

definition sample_linux5 :: "nat linux_system" where
  "sample_linux5 = poll sample_bus 2 sample_linux4"

lemma sample_linux3_state:
  "ls_tasks sample_linux3 ! Suc 0 = new_task 0 (InstancesLoop ''_http._tcp'' 2 ''/instances''
     (sample_items SERVICE_BROWSER_INTERFACE) InstanceBrowse_new)"
  "length (ls_tasks sample_linux3) = 2" "ls_sent sample_linux3 = []" "ls_open sample_linux3"
  by (simp_all add: sample_linux3_def poll_def sample_linux2_state new_task_def poll_start_def open_instances_def
      try_then_def map_err_def invoke_def return_ok_def pure_result_def connect_and_subscribe_def
      connect_system_def sample_bus_def advance_def)

lemma sample_linux4_state:
  "ls_tasks sample_linux4 ! 2 = new_task 1 (Resolving 2 (2, -1, ''Printer'', ''_http._tcp'', ''local''))"
  "length (ls_tasks sample_linux4) = 3" "ls_sent sample_linux4 = []" "ls_open sample_linux4"
  by (simp_all add: sample_linux4_def poll_def sample_linux3_state new_task_def sample_items_def
      SERVICE_BROWSER_INTERFACE_def SERVICE_TYPE_BROWSER_INTERFACE_def instance_step_def observe_def
      sample_instance_signal_def InstanceBrowse_new_def spawn_resolver_def poll_item_def advance_def
      emit_def nth_append)

lemma sample_linux5_state:
  "ls_sent sample_linux5 = [Inr (Found (resolved_to_service sample_tuple))]"
  by (simp add: sample_linux5_def poll_def sample_linux4_state new_task_def resolve_and_emit_def invoke_def
      sample_bus_def emit_def)

lemma sample_linux_delivered:
  "reachable (linux_init sample_bus) (linux_step sample_bus) (\<lambda>_ _. True) sample_linux5"
proof -
  have "linux_step sample_bus sample_linux2 (Polls 1) sample_linux3" unfolding sample_linux3_def
    by (rule linux_step.poll) (rule sample_linux_tasks(3))
  with sample_linux_reached TrueI
  have "reachable (linux_init sample_bus) (linux_step sample_bus) (\<lambda>_ _. True) sample_linux3"
    by (rule reachable.move)
  moreover have "linux_step sample_bus sample_linux3 (Polls 1) sample_linux4" unfolding sample_linux4_def
    by (rule linux_step.poll) (simp add: sample_linux3_state live_def is_finished_def new_task_def)
  ultimately have "reachable (linux_init sample_bus) (linux_step sample_bus) (\<lambda>_ _. True) sample_linux4"
    by (rule reachable_any)
  moreover have "linux_step sample_bus sample_linux4 (Polls 2) sample_linux5" unfolding sample_linux5_def
    by (rule linux_step.poll) (simp add: sample_linux4_state live_def is_finished_def new_task_def)
  ultimately show ?thesis by (rule reachable_any)
qed

text \<open>
  C26: Every event has its cause on the bus, in any interleaving of the tasks and whatever of them is cut
  off: a service found was announced by \<open>ItemNew\<close> on a stream of the browse, and is Avahi's reply to
  the resolve of exactly that instance, on the interface and with the protocol of the announcement; a
  failed resolve is about an announced instance, with the error its resolver met; a removal is one
  that was signalled, with its name, type, domain and interface. No event is about another instance,
  and a resolve that fails reports no service.
\<close>

theorem linux_events_caused:
  assumes "reachable (linux_init api) (linux_step api) (\<lambda>_ _. True) s"
  shows "list_all (caused api) (ls_sent s)"
  using linux_causes.reachable_invar [OF assms] by (simp add: caused_inv_def)

theorem linux_events_caused_witness:
  "\<exists>c i p n t d f r e e'. signalled sample_bus ''ItemNew'' (i, p, n, t, d, f) \<and>
     server_resolve sample_bus c i p n t d AVAHI_PROTO_UNSPEC 0 e = (Inr r, e') \<and>
     resolved_to_service sample_tuple = resolved_to_service r"
  using linux_events_caused [OF sample_linux_delivered] unfolding sample_linux5_state by simp

subsection \<open>A removal before its appearance\<close>

text \<open>
  A bus on which an instance comes and goes: the browse has read both signals before the resolver it
  spawned for the first is polled.
\<close>

definition fleeting_bus :: "nat dbus" where
  "fleeting_bus = sample_bus\<lparr>for_match_rule := \<lambda>r c e.
     (Inr [sample_instance_signal ''ItemNew'' ''Printer'', sample_instance_signal ''ItemRemove'' ''Printer''], e)\<rparr>"

definition sample_fleeting :: "nat list \<Rightarrow> nat linux_system" where
  "sample_fleeting ts = fold (poll fleeting_bus) ts
     (linux_started (BrowseOneType (-1) ''_http._tcp'' ''local'') \<lparr>bus_env = 1, bus_calls = [SystemBus, AvahiServer 0]\<rparr>)"

lemma sample_fleeting_run:
  "ls_tasks (sample_fleeting []) = [new_task 0 (StartInstances (-1) ''_http._tcp'' ''local'')]"
  "live (ls_tasks (sample_fleeting [0])) 0" "live (ls_tasks (sample_fleeting [0, 0])) 0"
  "live (ls_tasks (sample_fleeting [0, 0, 0])) 1"
  "ls_sent (sample_fleeting [0, 0, 0, 1]) =
     [Inr (Removed \<lparr>rs_name = ''Printer'', rs_service_type = ''_http._tcp'', rs_domain = ''local'',
        rs_interface_index = Some 2\<rparr>), Inr (Found (resolved_to_service sample_tuple))]"
  "\<exists>st. map tk_stage (ls_tasks (sample_fleeting [0, 0, 0, 1])) =
     [InstancesLoop ''_http._tcp'' 1 ''/instances'' [] st, Ended]"
  by (simp_all add: sample_fleeting_def linux_started_def root_stage_def new_task_def fleeting_bus_def sample_bus_def
      poll_def poll_start_def poll_item_def open_instances_def connect_and_subscribe_def connect_system_def
      try_then_def map_err_def invoke_def return_ok_def pure_result_def advance_def emit_def instance_step_def
      observe_def sample_instance_signal_def InstanceBrowse_new_def spawn_resolver_def ib_send_def
      resolve_and_emit_def end_task_def owned_def abort_tasks_def live_def is_finished_def
      avahi_interface_to_index_def NonZeroU32_new_def)

text \<open>
  C12: On Linux a removal can overtake the appearance it belongs to: there is a run in which the
  browser is told that an instance is gone before it is told that it was found, and by then nothing
  is left that would report it gone again.
\<close>

theorem linux_removal_overtakes_found:
  "\<exists>s f r. reachable (linux_init fleeting_bus) (linux_step fleeting_bus) (\<lambda>_ _. True) s \<and>
     ls_sent s = [Inr (Removed r), Inr (Found f)] \<and>
     (ds_name f, ds_service_type f, ds_domain f, ds_interface_index f) =
       (rs_name r, rs_service_type r, rs_domain r, rs_interface_index r) \<and>
     list_all (\<lambda>t. \<exists>ty c p st. tk_stage (ls_tasks s ! t) = InstancesLoop ty c p [] st)
       (filter (live (ls_tasks s)) [0..<length (ls_tasks s)])"
proof -
  have "linux_browse_start fleeting_bus (Some ''_http._tcp'') (Some ''local'') None \<lparr>bus_env = 0, bus_calls = []\<rparr> =
      (Inr (BrowseOneType (-1) ''_http._tcp'' ''local''), \<lparr>bus_env = 1, bus_calls = [SystemBus, AvahiServer 0]\<rparr>)"
    by (simp add: linux_browse_start_def connect_system_def connect_avahi_def try_then_def map_err_def
        invoke_def return_ok_def pure_result_def fleeting_bus_def sample_bus_def interface_to_avahi_def
        AVAHI_IF_UNSPEC_def)
  then have "linux_init fleeting_bus (sample_fleeting [])"
    unfolding linux_init_def sample_fleeting_def by (metis fold_simps(1))
  then have "reachable (linux_init fleeting_bus) (linux_step fleeting_bus) (\<lambda>_ _. True) (sample_fleeting [])"
    by (rule reachable.start)
  moreover have step: "reachable (linux_init fleeting_bus) (linux_step fleeting_bus) (\<lambda>_ _. True) (sample_fleeting (ts @ [t]))"
    if "reachable (linux_init fleeting_bus) (linux_step fleeting_bus) (\<lambda>_ _. True) (sample_fleeting ts)"
      and "live (ls_tasks (sample_fleeting ts)) t" for ts t
    using reachable_any [OF that(1) linux_step.poll [OF that(2)]] by (simp add: sample_fleeting_def)
  moreover have "live (ls_tasks (sample_fleeting [])) 0"
    by (simp add: sample_fleeting_run(1) live_def is_finished_def new_task_def)
  ultimately have "reachable (linux_init fleeting_bus) (linux_step fleeting_bus) (\<lambda>_ _. True) (sample_fleeting [0, 0, 0, 1])"
    using step [of "[]" 0] step [of "[0]" 0] step [of "[0, 0]" 0] step [of "[0, 0, 0]" 1] sample_fleeting_run(2-4)
    by simp
  moreover obtain st where st: "map tk_stage (ls_tasks (sample_fleeting [0, 0, 0, 1])) =
      [InstancesLoop ''_http._tcp'' 1 ''/instances'' [] st, Ended]"
    using sample_fleeting_run(6) by (elim exE)
  then have "length (ls_tasks (sample_fleeting [0, 0, 0, 1])) = 2"
    "tk_stage (ls_tasks (sample_fleeting [0, 0, 0, 1]) ! 0) = InstancesLoop ''_http._tcp'' 1 ''/instances'' [] st"
    "tk_stage (ls_tasks (sample_fleeting [0, 0, 0, 1]) ! 1) = Ended"
    by (auto simp: map_eq_Cons_conv)
  then have "list_all (\<lambda>t. \<exists>ty c p st. tk_stage (ls_tasks (sample_fleeting [0, 0, 0, 1]) ! t) = InstancesLoop ty c p [] st)
      (filter (live (ls_tasks (sample_fleeting [0, 0, 0, 1]))) [0..<length (ls_tasks (sample_fleeting [0, 0, 0, 1]))])"
    by (simp add: numeral_2_eq_2 live_def is_finished_def)
  moreover have "avahi_interface_to_index 2 = Some 2"
    by (simp add: avahi_interface_to_index_def NonZeroU32_new_def)
  ultimately show ?thesis
    using sample_fleeting_run(5) by (fastforce simp: resolved_to_service_def sample_tuple_def)
qed

end
