(* ===== verification/Linux_Dbus.thy ===== *)
theory Linux_Dbus
  imports Linux_Tasks
begin

text \<open>
  The proxies of \<open>src/linux/dbus.rs\<close>: the method call each proxy method puts on the bus. zbus takes
  the member from the method's name in camel case, the destination and the path from the
  declaration, and the path of a browser from the proxy that was returned for it.
\<close>

datatype dbus_value = DInt32 i32 | DUInt32 u32 | DString bytes

record method_call =
  mc_destination :: bytes
  mc_path :: bytes
  mc_interface :: bytes
  mc_member :: bytes
  mc_body :: "dbus_value list"

definition AVAHI_SERVICE :: bytes where "AVAHI_SERVICE = ''org.freedesktop.Avahi''"

definition server_call :: "bytes \<Rightarrow> dbus_value list \<Rightarrow> method_call" where
  "server_call member body =
     \<lparr>mc_destination = AVAHI_SERVICE, mc_path = ''/'', mc_interface = ''org.freedesktop.Avahi.Server'',
      mc_member = member, mc_body = body\<rparr>"

definition service_type_browser_new_call :: "i32 \<Rightarrow> i32 \<Rightarrow> bytes \<Rightarrow> u32 \<Rightarrow> method_call" where
  "service_type_browser_new_call interface protocol domain flags =
     server_call ''ServiceTypeBrowserNew'' [DInt32 interface, DInt32 protocol, DString domain, DUInt32 flags]"

definition service_browser_new_call :: "i32 \<Rightarrow> i32 \<Rightarrow> bytes \<Rightarrow> bytes \<Rightarrow> u32 \<Rightarrow> method_call" where
  "service_browser_new_call interface protocol service_type domain flags =
     server_call ''ServiceBrowserNew''
       [DInt32 interface, DInt32 protocol, DString service_type, DString domain, DUInt32 flags]"

definition resolve_service_call ::
  "i32 \<Rightarrow> i32 \<Rightarrow> bytes \<Rightarrow> bytes \<Rightarrow> bytes \<Rightarrow> i32 \<Rightarrow> u32 \<Rightarrow> method_call" where
  "resolve_service_call interface protocol name service_type domain aprotocol flags =
     server_call ''ResolveService''
       [DInt32 interface, DInt32 protocol, DString name, DString service_type, DString domain,
        DInt32 aprotocol, DUInt32 flags]"

definition service_type_browser_free_call :: "bytes \<Rightarrow> method_call" where
  "service_type_browser_free_call path =
     \<lparr>mc_destination = AVAHI_SERVICE, mc_path = path,
      mc_interface = ''org.freedesktop.Avahi.ServiceTypeBrowser'', mc_member = ''Free'', mc_body = []\<rparr>"

definition service_browser_free_call :: "bytes \<Rightarrow> method_call" where
  "service_browser_free_call path =
     \<lparr>mc_destination = AVAHI_SERVICE, mc_path = path,
      mc_interface = ''org.freedesktop.Avahi.ServiceBrowser'', mc_member = ''Free'', mc_body = []\<rparr>"

text \<open>
  The method calls among what a task does on the bus; \<open>free\<close> is the proxy of the browser it made.
\<close>

definition method_of :: "(bytes \<Rightarrow> method_call) \<Rightarrow> bus_call \<Rightarrow> method_call option" where
  "method_of free c =
     (case c of
        ServiceTypeBrowserNew _ i p d f \<Rightarrow> Some (service_type_browser_new_call i p d f)
      | ServiceBrowserNew _ i p t d f \<Rightarrow> Some (service_browser_new_call i p t d f)
      | ResolveService _ i p n t d a f \<Rightarrow> Some (resolve_service_call i p n t d a f)
      | FreeBrowser _ path \<Rightarrow> Some (free path)
      | _ \<Rightarrow> None)"

text \<open>The signature of a body, as the Avahi daemon declares its methods.\<close>

fun signature_of :: "dbus_value list \<Rightarrow> bytes" where
  "signature_of [] = []"
| "signature_of (DInt32 _ # vs) = CHR ''i'' # signature_of vs"
| "signature_of (DUInt32 _ # vs) = CHR ''u'' # signature_of vs"
| "signature_of (DString _ # vs) = CHR ''s'' # signature_of vs"

lemma call_signatures:
  "signature_of (mc_body (service_type_browser_new_call i p d f)) = ''iisu''"
  "signature_of (mc_body (service_browser_new_call i p t d f)) = ''iissu''"
  "signature_of (mc_body (resolve_service_call i p n t d a f)) = ''iisssiu''"
  by (simp_all add: service_type_browser_new_call_def service_browser_new_call_def
      resolve_service_call_def server_call_def)

text \<open>
  On the bus, a browse is the call that creates its browser and the call that frees it; its browser's
  signals are those of the interface it subscribed to.
\<close>

lemma one_type_methods:
  "List.map_filter (method_of service_browser_free_call) (one_type_calls c i t d path) =
     [service_browser_new_call i AVAHI_PROTO_UNSPEC t d 0, service_browser_free_call path]"
  "mc_interface (service_browser_free_call path) = SERVICE_BROWSER_INTERFACE"
  by (simp_all add: one_type_calls_def subscribe_calls_def method_of_def
      service_browser_free_call_def SERVICE_BROWSER_INTERFACE_def)

lemma all_types_methods:
  "List.map_filter (method_of service_type_browser_free_call) (all_types_calls c i d path) =
     [service_type_browser_new_call i AVAHI_PROTO_UNSPEC d 0, service_type_browser_free_call path]"
  "mc_interface (service_type_browser_free_call path) = SERVICE_TYPE_BROWSER_INTERFACE"
  by (simp_all add: all_types_calls_def subscribe_calls_def method_of_def
      service_type_browser_free_call_def SERVICE_TYPE_BROWSER_INTERFACE_def)

end
