(* ===== verification/Windows.thy ===== *)
theory Windows
  imports Browse Contracts
begin

text \<open>
  The Windows back-end (\<open>src/windows/browse.rs\<close>): the DNS-SD functions of \<open>windns.h\<close> are the
  fields of a \<open>win\<close> record over an environment of any type. Boxed contexts live at addresses in
  two maps of the state, because the operating system holds raw pointers to them: reading a context
  that is not there is the use of freed memory and has no successor (\<open>None\<close>).
\<close>

subsection \<open>The platform\<close>

definition WIN_META_QUERY_TYPE :: bytes where
  "WIN_META_QUERY_TYPE = ''_services._dns-sd._udp.local''"

definition DEFAULT_DOMAIN :: bytes where "DEFAULT_DOMAIN = ''local''"

definition DNS_REQUEST_PENDING :: i32 where "DNS_REQUEST_PENDING = 9506"

definition DNS_TYPE_PTR :: u16 where "DNS_TYPE_PTR = 12"

text \<open>A wide string up to its NUL; a \<open>PWSTR\<close> is \<open>None\<close> when null.\<close>

type_synonym wide = "16 word list"

type_synonym pwstr = "wide option"

text \<open>
  What a callback receives: a node of the record list, a resolved instance (\<open>keys\<close> and \<open>values\<close>
  are arrays of at least \<open>si_property_count\<close> pointers unless null).
\<close>

record dns_record =
  dr_type :: u16
  dr_name_host :: pwstr

record service_instance =
  si_ip4 :: "u32 option"
  si_ip6 :: "bytes option"
  si_host :: pwstr
  si_port :: u16
  si_interface :: u32
  si_property_count :: u32
  si_keys :: "pwstr list option"
  si_values :: "pwstr list option"

type_synonym win_handle = nat

type_synonym heap_addr = nat

text \<open>
  \<open>u16cstring\<close> is \<open>U16CString::from_str\<close> of the widestring crate, \<open>pwstr_text\<close> is
  \<open>PWSTR::to_string\<close> of the windows crate. A request is given by its interface, its query name
  and its context. \<open>await_resolve\<close> is what a one-shot resolve waits for: \<open>None\<close> when nothing ever
  comes, else the arguments of the callback, if it fired.
\<close>

record 'e win =
  u16cstring :: "bytes \<Rightarrow> bytes + wide"
  pwstr_text :: "wide \<Rightarrow> bytes option"
  DnsServiceBrowse :: "u32 \<Rightarrow> wide \<Rightarrow> heap_addr \<Rightarrow> 'e \<Rightarrow> (i32 \<times> win_handle) \<times> 'e"
  DnsServiceResolve :: "u32 \<Rightarrow> wide \<Rightarrow> heap_addr \<Rightarrow> 'e \<Rightarrow> (i32 \<times> win_handle) \<times> 'e"
  DnsServiceBrowseCancel :: "win_handle \<Rightarrow> 'e \<Rightarrow> 'e"
  await_resolve :: "heap_addr \<Rightarrow> 'e \<Rightarrow> (u32 \<times> service_instance option) option option \<times> 'e"

definition pwstr_to_string :: "'e win \<Rightarrow> pwstr \<Rightarrow> bytes" where
  "pwstr_to_string api p =
     (case p of
        None \<Rightarrow> []
      | Some w \<Rightarrow> (case pwstr_text api w of Some s \<Rightarrow> s | None \<Rightarrow> []))"

subsection \<open>Contexts and the registry\<close>

record BrowseContext =
  bc_is_meta :: bool
  bc_interface :: u32
  bc_service_type :: bytes
  bc_domain :: bytes
  bc_seen :: "bytes set"

record ResolveContext =
  rc_name :: bytes
  rc_service_type :: bytes
  rc_domain :: bytes

record BrowseEntry =
  be_cancel :: win_handle
  be_context :: heap_addr

text \<open>
  What happened to handles, contexts and system-owned lists, in order. \<open>BrowseCalled\<close> is a call of
  \<open>DnsServiceBrowse\<close>: its interface, query name and context, the status it answered and the handle
  to cancel with. The browse has started when that status is \<open>DNS_REQUEST_PENDING\<close>.
\<close>

datatype win_event =
    BrowseCalled u32 wide heap_addr i32 win_handle
  | BrowseCancelled win_handle
  | ContextFreed heap_addr
  | ResolveStarted heap_addr
  | ResolveContextFreed heap_addr
  | RecordListFreed
  | InstanceFreed

text \<open>
  \<open>strong\<close> counts the strong references to the registry: the guard's, and one for each callback that
  upgraded its weak reference. \<open>next_addr\<close> is the address of the next box.
\<close>

record 'e win_state =
  win_env :: 'e
  browse_contexts :: "heap_addr \<rightharpoonup> BrowseContext"
  resolve_contexts :: "heap_addr \<rightharpoonup> ResolveContext"
  next_addr :: heap_addr
  registry :: "BrowseEntry list"
  strong :: nat
  win_sent :: "event_result list"
  win_traced :: "(bytes \<times> bytes) list"
  win_log :: "win_event list"

definition win_send :: "event_result \<Rightarrow> 'e win_state \<Rightarrow> 'e win_state" where
  "win_send m w = w\<lparr>win_sent := win_sent w @ [m]\<rparr>"

definition log_event :: "win_event \<Rightarrow> 'e win_state \<Rightarrow> 'e win_state" where
  "log_event x w = w\<lparr>win_log := win_log w @ [x]\<rparr>"

definition box_context :: "BrowseContext \<Rightarrow> 'e win_state \<Rightarrow> heap_addr \<times> 'e win_state" where
  "box_context ctx w =
     (next_addr w,
      w\<lparr>browse_contexts := (browse_contexts w)(next_addr w \<mapsto> ctx), next_addr := Suc (next_addr w)\<rparr>)"

definition free_context :: "heap_addr \<Rightarrow> 'e win_state \<Rightarrow> 'e win_state" where
  "free_context a w =
     log_event (ContextFreed a) (w\<lparr>browse_contexts := (browse_contexts w)(a := None)\<rparr>)"

definition box_resolve :: "ResolveContext \<Rightarrow> 'e win_state \<Rightarrow> heap_addr \<times> 'e win_state" where
  "box_resolve ctx w =
     (next_addr w,
      w\<lparr>resolve_contexts := (resolve_contexts w)(next_addr w \<mapsto> ctx), next_addr := Suc (next_addr w)\<rparr>)"

text \<open>\<open>Box::from_raw\<close>, then the drop of the box at the end of its scope.\<close>

definition reclaim_resolve :: "heap_addr \<Rightarrow> 'e win_state \<Rightarrow> (ResolveContext \<times> 'e win_state) option" where
  "reclaim_resolve a w =
     map_option (\<lambda>ctx. (ctx, log_event (ResolveContextFreed a)
         (w\<lparr>resolve_contexts := (resolve_contexts w)(a := None)\<rparr>)))
       (resolve_contexts w a)"

text \<open>\<open>BrowseEntry\<close> drops its fields in order: the cancel handle, then the context.\<close>

definition drop_entry :: "'e win \<Rightarrow> BrowseEntry \<Rightarrow> 'e win_state \<Rightarrow> 'e win_state" where
  "drop_entry api entry w =
     free_context (be_context entry)
       (log_event (BrowseCancelled (be_cancel entry))
          (w\<lparr>win_env := DnsServiceBrowseCancel api (be_cancel entry) (win_env w)\<rparr>))"

definition release_registry :: "'e win \<Rightarrow> 'e win_state \<Rightarrow> 'e win_state" where
  "release_registry api w =
     (let w = w\<lparr>strong := strong w - 1\<rparr>
      in if strong w = 0 then (fold (drop_entry api) (registry w) w)\<lparr>registry := []\<rparr> else w)"

subsection \<open>Building a service\<close>

definition instance_label :: "bytes \<Rightarrow> bytes \<Rightarrow> bytes \<Rightarrow> bytes" where
  "instance_label full service_type domain =
     (case strip_suffix full (''.'' @ service_type @ ''.'' @ domain) of
        Some label \<Rightarrow> label
      | None \<Rightarrow> full)"

definition read_txt_pair :: "'e win \<Rightarrow> pwstr list \<Rightarrow> nat \<times> pwstr \<Rightarrow> TxtRecord option" where
  "read_txt_pair api vals ik =
     (let key = pwstr_to_string api (snd ik) in
      if key = [] then None
      else Some \<lparr>txt_key = key,
        txt_value = (case (if fst ik < length vals then Some (vals ! fst ik) else None) of
           Some (Some v) \<Rightarrow> Some (pwstr_to_string api (Some v))
         | _ \<Rightarrow> None)\<rparr>)"

definition read_txt :: "'e win \<Rightarrow> service_instance \<Rightarrow> TxtRecord list" where
  "read_txt api inst =
     (let count = unat (si_property_count inst) in
      case si_keys inst of
        None \<Rightarrow> []
      | Some ks \<Rightarrow>
          if count = 0 then []
          else
            (let keys = take count ks;
                 vals = (case si_values inst of None \<Rightarrow> [] | Some vs \<Rightarrow> take count vs)
             in List.map_filter (read_txt_pair api vals) (enumerate 0 keys)))"

definition build_service ::
  "'e win \<Rightarrow> service_instance \<Rightarrow> bytes \<Rightarrow> bytes \<Rightarrow> bytes \<Rightarrow> DiscoveredService" where
  "build_service api inst name service_type domain =
     \<lparr>ds_name = name, ds_service_type = service_type, ds_domain = domain,
      ds_host_name = trim_dot (pwstr_to_string api (si_host inst)), ds_port = si_port inst,
      ds_addresses =
        (case si_ip4 inst of Some raw \<Rightarrow> [V4 (u32_from_be raw)] | None \<Rightarrow> []) @
        (case si_ip6 inst of Some bs \<Rightarrow> [ipv6_from_octets bs] | None \<Rightarrow> []),
      ds_txt_records = read_txt api inst,
      ds_interface_index = NonZeroU32_new (si_interface inst)\<rparr>"

subsection \<open>Resolving found instances\<close>

definition start_resolve ::
  "'e win \<Rightarrow> BrowseContext \<Rightarrow> bytes \<Rightarrow> bytes \<Rightarrow> 'e win_state \<Rightarrow> 'e win_state option" where
  "start_resolve api ctx full_name label w =
     (case u16cstring api full_name of
        Inl _ \<Rightarrow> Some w
      | Inr query_name \<Rightarrow>
          (case box_resolve \<lparr>rc_name = label, rc_service_type = bc_service_type ctx,
                  rc_domain = bc_domain ctx\<rparr> w of
             (addr, w) \<Rightarrow>
               (case DnsServiceResolve api (bc_interface ctx) query_name addr (win_env w) of
                  ((result, cancel), e) \<Rightarrow>
                    if result \<noteq> DNS_REQUEST_PENDING then
                      map_option (\<lambda>(rc, w). win_send (Inl (ResolveFailed (rc_name rc)
                          (''DnsServiceResolve failed with status '' @ show_i32 result))) w)
                        (reclaim_resolve addr (w\<lparr>win_env := e\<rparr>))
                    else Some (log_event (ResolveStarted addr) (w\<lparr>win_env := e\<rparr>)))))"

text \<open>The completion callback. The instance is the system's memory, freed when it is not null.\<close>

definition win_resolve_callback ::
  "'e win \<Rightarrow> u32 \<Rightarrow> heap_addr \<Rightarrow> service_instance option \<Rightarrow> 'e win_state \<Rightarrow> 'e win_state option" where
  "win_resolve_callback api status addr inst w =
     map_option (\<lambda>(rc, w).
         case (if status \<noteq> 0 then None else inst) of
           None \<Rightarrow>
             (let w = win_send (Inl (ResolveFailed (rc_name rc)
                  (''resolve callback status '' @ show_u32 status))) w
              in if inst \<noteq> None then log_event InstanceFreed w else w)
         | Some i \<Rightarrow>
             log_event InstanceFreed
               (win_send (Inr (Found (build_service api i (rc_name rc) (rc_service_type rc)
                  (rc_domain rc)))) w))
       (reclaim_resolve addr w)"

subsection \<open>Browsing\<close>

text \<open>The call itself, with what it answers.\<close>

definition call_browse ::
  "'e win \<Rightarrow> u32 \<Rightarrow> wide \<Rightarrow> heap_addr \<Rightarrow> 'e win_state \<Rightarrow> (i32 \<times> win_handle) \<times> 'e win_state" where
  "call_browse api interface q addr w =
     (case DnsServiceBrowse api interface q addr (win_env w) of
        ((result, cancel), e) \<Rightarrow>
          ((result, cancel), log_event (BrowseCalled interface q addr result cancel) (w\<lparr>win_env := e\<rparr>)))"

text \<open>
  \<open>start_browse\<close> with a strong reference to the registry at hand. The registry's mutex is poisoned
  only by a panic while it is held, and the code under it cannot panic.
\<close>

definition start_browse ::
  "'e win \<Rightarrow> bytes \<Rightarrow> bytes \<Rightarrow> bytes \<Rightarrow> u32 \<Rightarrow> bool \<Rightarrow> 'e win_state \<Rightarrow> (bytes + unit) \<times> 'e win_state" where
  "start_browse api query_name service_type domain interface meta w =
     (case u16cstring api query_name of
        Inl err \<Rightarrow> (Inl err, w)
      | Inr query_name_w \<Rightarrow>
          (case box_context \<lparr>bc_is_meta = meta, bc_interface = interface,
                  bc_service_type = service_type, bc_domain = domain, bc_seen = {}\<rparr> w of
             (addr, w) \<Rightarrow>
               (case call_browse api interface query_name_w addr w of
                  ((result, cancel), w) \<Rightarrow>
                    if result \<noteq> DNS_REQUEST_PENDING
                    then (Inl (''DnsServiceBrowse failed with status '' @ show_i32 result),
                          free_context addr w)
                    else (Inr (),
                          w\<lparr>registry := registry w @ [\<lparr>be_cancel = cancel, be_context = addr\<rparr>]\<rparr>))))"

definition split_target :: "BrowseContext \<Rightarrow> bytes \<Rightarrow> bytes \<times> bytes" where
  "split_target ctx target =
     (case rsplit_once target (CHR ''.'') of Some p \<Rightarrow> p | None \<Rightarrow> (target, bc_domain ctx))"

text \<open>\<open>seen.insert\<close>: whether the target is new, with the context updated.\<close>

definition insert_seen :: "heap_addr \<Rightarrow> bytes \<Rightarrow> 'e win_state \<Rightarrow> (bool \<times> BrowseContext \<times> 'e win_state) option" where
  "insert_seen a target w =
     map_option (\<lambda>ctx.
         (let ctx' = ctx\<lparr>bc_seen := insert target (bc_seen ctx)\<rparr>
          in (target \<notin> bc_seen ctx, ctx', w\<lparr>browse_contexts := (browse_contexts w)(a \<mapsto> ctx')\<rparr>)))
       (browse_contexts w a)"

text \<open>
  A callback upgrades its weak reference when the guard or another callback still holds a strong
  one, and gives it back at the end of the block.
\<close>

definition upgrade_registry :: "'e win_state \<Rightarrow> 'e win_state option" where
  "upgrade_registry w = (if strong w = 0 then None else Some (w\<lparr>strong := Suc (strong w)\<rparr>))"

definition browse_child :: "'e win \<Rightarrow> BrowseContext \<Rightarrow> bytes \<Rightarrow> 'e win_state \<Rightarrow> 'e win_state" where
  "browse_child api ctx target w =
     (case split_target ctx target of (service_type, domain) \<Rightarrow>
        (let w = w\<lparr>win_traced := win_traced w @ [(service_type, domain)]\<rparr>
         in case upgrade_registry w of
              None \<Rightarrow> w
            | Some w \<Rightarrow>
                release_registry api
                  (snd (start_browse api target service_type domain (bc_interface ctx) False w))))"

definition handle_ptr :: "'e win \<Rightarrow> heap_addr \<Rightarrow> bytes \<Rightarrow> 'e win_state \<Rightarrow> 'e win_state option" where
  "handle_ptr api a target w =
     Option.bind (insert_seen a target w) (\<lambda>(new, ctx, w).
       if \<not> new then Some w
       else if bc_is_meta ctx then Some (browse_child api ctx target w)
       else start_resolve api ctx target
              (instance_label target (bc_service_type ctx) (bc_domain ctx)) w)"

definition handle_record :: "'e win \<Rightarrow> heap_addr \<Rightarrow> dns_record \<Rightarrow> 'e win_state \<Rightarrow> 'e win_state option" where
  "handle_record api a r w =
     (if dr_type r = DNS_TYPE_PTR
      then handle_ptr api a (trim_dot (pwstr_to_string api (dr_name_host r))) w
      else Some w)"

fun handle_records :: "'e win \<Rightarrow> heap_addr \<Rightarrow> dns_record list \<Rightarrow> 'e win_state \<Rightarrow> 'e win_state option" where
  "handle_records api a [] w = Some w"
| "handle_records api a (r # rs) w =
     Option.bind (handle_record api a r w) (handle_records api a rs)"

text \<open>The record list is null when it has no node.\<close>

definition win_browse_callback ::
  "'e win \<Rightarrow> u32 \<Rightarrow> heap_addr \<Rightarrow> dns_record list \<Rightarrow> 'e win_state \<Rightarrow> 'e win_state option" where
  "win_browse_callback api status a records w =
     (case browse_contexts w a of
        None \<Rightarrow> None
      | Some ctx \<Rightarrow>
          (let w = (if status \<noteq> 0
                    then win_send (Inl (BrowseFailed (''browse callback status '' @ show_u32 status))) w
                    else w)
           in map_option (\<lambda>w. if records \<noteq> [] then log_event RecordListFreed w else w)
                (handle_records api a records w)))"

subsection \<open>Starting and stopping\<close>

definition win_state_new :: "'e \<Rightarrow> 'e win_state" where
  "win_state_new e =
     \<lparr>win_env = e, browse_contexts = Map.empty, resolve_contexts = Map.empty, next_addr = 0,
      registry = [], strong = 1, win_sent = [], win_traced = [], win_log = []\<rparr>"

text \<open>
  \<open>browse_start\<close>: the registry it makes is the guard's when the root browse starts, and is dropped
  otherwise.
\<close>

definition win_browse_start ::
  "'e win \<Rightarrow> bytes option \<Rightarrow> bytes option \<Rightarrow> u32 option \<Rightarrow> 'e \<Rightarrow>
   (ServiceBrowseError + unit) \<times> 'e win_state" where
  "win_browse_start api service_type domain interface_index e =
     (let interface = (case interface_index of Some i \<Rightarrow> i | None \<Rightarrow> 0);
          domain = (case domain of Some d \<Rightarrow> d | None \<Rightarrow> DEFAULT_DOMAIN);
          (query_name, service_type, meta) =
            (case service_type of
               Some t \<Rightarrow> (t @ ''.'' @ domain, t, False)
             | None \<Rightarrow> (WIN_META_QUERY_TYPE, WIN_META_QUERY_TYPE, True))
      in case start_browse api query_name service_type domain interface meta (win_state_new e) of
           (Inl err, w) \<Rightarrow> (Inl (BrowseFailed err), release_registry api w)
         | (Inr _, w) \<Rightarrow> (Inr (), w))"

text \<open>Dropping the guard gives its reference to the registry back.\<close>

definition guard_drop :: "'e win \<Rightarrow> 'e win_state \<Rightarrow> 'e win_state" where
  "guard_drop api w = release_registry api w"

subsection \<open>Resolving once\<close>

text \<open>The context of a one-shot resolve, whose sender is the awaiting future's.\<close>

definition once_result ::
  "'e win \<Rightarrow> u32 \<Rightarrow> ResolveContext \<Rightarrow> service_instance option \<Rightarrow> resolve_result" where
  "once_result api status rc inst =
     (case (if status \<noteq> 0 then None else inst) of
        None \<Rightarrow> Inl (ResolveFailed (rc_name rc) (''resolve callback status '' @ show_u32 status))
      | Some i \<Rightarrow> Inr (build_service api i (rc_name rc) (rc_service_type rc) (rc_domain rc)))"

definition resolve_once_callback ::
  "'e win \<Rightarrow> u32 \<Rightarrow> heap_addr \<Rightarrow> service_instance option \<Rightarrow> 'e win_state \<Rightarrow>
   (resolve_result \<times> 'e win_state) option" where
  "resolve_once_callback api status addr inst w =
     map_option (\<lambda>(rc, w).
         (once_result api status rc inst, if inst \<noteq> None then log_event InstanceFreed w else w))
       (reclaim_resolve addr w)"

definition win_resolve_once :: "'e win \<Rightarrow> ('e win_state) resolve_once" where
  "win_resolve_once api name service_type domain interface_index w =
     (let interface = (case interface_index of Some i \<Rightarrow> i | None \<Rightarrow> 0);
          full_name = name @ ''.'' @ service_type @ ''.'' @ domain
      in case u16cstring api full_name of
           Inl err \<Rightarrow> Some (Inl (ResolveFailed name err), w)
         | Inr query_name \<Rightarrow>
             (case box_resolve \<lparr>rc_name = name, rc_service_type = service_type, rc_domain = domain\<rparr> w of
                (addr, w) \<Rightarrow>
                  (case DnsServiceResolve api interface query_name addr (win_env w) of
                     ((result, cancel), e) \<Rightarrow>
                       (let w = w\<lparr>win_env := e\<rparr> in
                        if result \<noteq> DNS_REQUEST_PENDING then
                          map_option (\<lambda>(rc, w). (Inl (ResolveFailed (rc_name rc)
                              (''DnsServiceResolve failed with status '' @ show_i32 result)), w))
                            (reclaim_resolve addr w)
                        else
                          (case await_resolve api addr (win_env w) of
                             (None, e) \<Rightarrow> None
                           | (Some None, e) \<Rightarrow>
                               Some (Inl (ResolveFailed name ''resolve completed without a result''),
                                     w\<lparr>win_env := e\<rparr>)
                           | (Some (Some (status, inst)), e) \<Rightarrow>
                               resolve_once_callback api status addr inst (w\<lparr>win_env := e\<rparr>))))))"

end
