(* ===== verification/Windows_Safety.thy ===== *)
theory Windows_Safety
  imports Windows
begin

text \<open>
  What the Windows back-end guarantees while no other thread drops the guard during a callback:
  every context the system still points to is there, every browse is cancelled once and before its
  context is freed, every resolve context is reclaimed once, each name is acted on once per browse.
\<close>

subsection \<open>Monitors\<close>

text \<open>
  Browses: the active ones in the order they started, and the context whose browse was just
  cancelled and that must be freed next. A context whose browse never started is freed directly.
\<close>

type_synonym browse_monitor = "(win_handle \<times> heap_addr) list \<times> heap_addr option"

fun browse_event :: "win_event \<Rightarrow> browse_monitor \<Rightarrow> browse_monitor option" where
  "browse_event (BrowseCalled i q a r h) (act, None) =
     (if r \<noteq> DNS_REQUEST_PENDING then Some (act, None)
      else if a \<in> snd ` set act then None else Some (act @ [(h, a)], None))"
| "browse_event (BrowseCalled i q a r h) (act, Some c) = None"
| "browse_event (BrowseCancelled h) ((h', a) # act, None) =
     (if h = h' then Some (act, Some a) else None)"
| "browse_event (BrowseCancelled h) s = None"
| "browse_event (ContextFreed a) (act, Some c) = (if a = c then Some (act, None) else None)"
| "browse_event (ContextFreed a) (act, None) = (if a \<in> snd ` set act then None else Some (act, None))"
| "browse_event _ (act, None) = Some (act, None)"
| "browse_event _ (act, Some c) = None"

fun browse_events :: "win_event list \<Rightarrow> browse_monitor \<Rightarrow> browse_monitor option" where
  "browse_events [] s = Some s"
| "browse_events (x # xs) s = Option.bind (browse_event x s) (browse_events xs)"

text \<open>
  The browses the system may still call back, read off the calls alone: those that were accepted
  and whose handle has not been cancelled.
\<close>

fun cancel_first :: "win_handle \<Rightarrow> (win_handle \<times> heap_addr) list \<Rightarrow> (win_handle \<times> heap_addr) list" where
  "cancel_first h [] = []"
| "cancel_first h (b # bs) = (if fst b = h then bs else b # cancel_first h bs)"

fun track_browse :: "win_event \<Rightarrow> (win_handle \<times> heap_addr) list \<Rightarrow> (win_handle \<times> heap_addr) list" where
  "track_browse (BrowseCalled i q a r h) bs = (if r = DNS_REQUEST_PENDING then bs @ [(h, a)] else bs)"
| "track_browse (BrowseCancelled h) bs = cancel_first h bs"
| "track_browse _ bs = bs"

definition active_browses :: "win_event list \<Rightarrow> (win_handle \<times> heap_addr) list" where
  "active_browses xs = fold track_browse xs []"

lemma track_browse_event:
  "browse_event x (act, c) = Some (act', c') \<Longrightarrow> track_browse x act = act'"
  by (cases "(x, (act, c))" rule: browse_event.cases) (auto split: if_splits)

lemma track_browse_events:
  "browse_events xs (act, c) = Some (act', c') \<Longrightarrow> fold track_browse xs act = act'"
proof (induction xs arbitrary: act c)
  case (Cons x xs)
  then obtain act1 c1 where "browse_event x (act, c) = Some (act1, c1)"
    and "browse_events xs (act1, c1) = Some (act', c')"
    by (cases "browse_event x (act, c)") auto
  with Cons.IH track_browse_event show ?case by auto
qed simp

text \<open>Resolves: the contexts handed to the system and not yet given back.\<close>

fun resolve_event :: "win_event \<Rightarrow> heap_addr set \<Rightarrow> heap_addr set option" where
  "resolve_event (ResolveStarted a) s = (if a \<in> s then None else Some (insert a s))"
| "resolve_event (ResolveContextFreed a) s = Some (s - {a})"
| "resolve_event _ s = Some s"

fun resolve_events :: "win_event list \<Rightarrow> heap_addr set \<Rightarrow> heap_addr set option" where
  "resolve_events [] s = Some s"
| "resolve_events (x # xs) s = Option.bind (resolve_event x s) (resolve_events xs)"

lemma browse_events_append [simp]:
  "browse_events (xs @ ys) s = Option.bind (browse_events xs s) (browse_events ys)"
proof (induction xs arbitrary: s)
  case (Cons x xs)
  show ?case by (cases "browse_event x s") (simp_all add: Cons.IH)
qed simp

lemma resolve_events_append [simp]:
  "resolve_events (xs @ ys) s = Option.bind (resolve_events xs s) (resolve_events ys)"
proof (induction xs arbitrary: s)
  case (Cons x xs)
  show ?case by (cases "resolve_event x s") (simp_all add: Cons.IH)
qed simp

definition entry_pair :: "BrowseEntry \<Rightarrow> win_handle \<times> heap_addr" where
  "entry_pair en = (be_cancel en, be_context en)"

text \<open>
  The invariant: the live browse contexts are those of the registered entries, one each; the log so
  far keeps the rules, with the registered browses active and the live resolve contexts pending.
\<close>

definition win_inv :: "'e win_state \<Rightarrow> bool" where
  "win_inv w \<longleftrightarrow>
     dom (browse_contexts w) = set (map be_context (registry w)) \<and>
     distinct (map be_context (registry w)) \<and>
     dom (resolve_contexts w) \<subseteq> {..<next_addr w} \<and>
     set (map be_context (registry w)) \<subseteq> {..<next_addr w} \<and>
     browse_events (win_log w) ([], None) = Some (map entry_pair (registry w), None) \<and>
     resolve_events (win_log w) {} = Some (dom (resolve_contexts w))"

lemma win_inv_new: "win_inv (win_state_new e)"
  by (simp add: win_inv_def win_state_new_def)

lemma win_inv_frame [simp]:
  "win_inv (w\<lparr>win_env := e\<rparr>) = win_inv w" "win_inv (w\<lparr>strong := n\<rparr>) = win_inv w"
  "win_inv (w\<lparr>win_traced := ts\<rparr>) = win_inv w" "win_inv (win_send m w) = win_inv w"
  by (simp_all add: win_inv_def win_send_def)

lemma win_send_simps [simp]:
  "browse_contexts (win_send m w) = browse_contexts w" "strong (win_send m w) = strong w"
  "resolve_contexts (win_send m w) = resolve_contexts w" "win_traced (win_send m w) = win_traced w"
  "registry (win_send m w) = registry w" "win_sent (win_send m w) = win_sent w @ [m]"
  by (simp_all add: win_send_def)

lemma log_event_simps [simp]:
  "browse_contexts (log_event x w) = browse_contexts w" "strong (log_event x w) = strong w"
  "resolve_contexts (log_event x w) = resolve_contexts w" "win_traced (log_event x w) = win_traced w"
  "registry (log_event x w) = registry w" "win_sent (log_event x w) = win_sent w"
  "win_log (log_event x w) = win_log w @ [x]" "win_env (log_event x w) = win_env w"
  by (simp_all add: log_event_def)

lemma win_inv_update:
  assumes "win_inv w" and "browse_contexts w a = Some c"
  shows "win_inv (w\<lparr>browse_contexts := (browse_contexts w)(a \<mapsto> c')\<rparr>)"
proof -
  have "dom ((browse_contexts w)(a \<mapsto> c')) = dom (browse_contexts w)"
    using assms(2) by (simp add: insert_absorb domI)
  with assms(1) show ?thesis by (simp add: win_inv_def del: dom_fun_upd)
qed

lemma win_inv_neutral:
  "win_inv w \<Longrightarrow> x \<in> {RecordListFreed, InstanceFreed} \<Longrightarrow> win_inv (log_event x w)"
  by (auto simp: win_inv_def log_event_def)

lemma image_entry_pair: "snd ` entry_pair ` X = be_context ` X"
  by (auto simp: entry_pair_def image_image)

lemma win_inv_fresh:
  "win_inv w \<Longrightarrow> next_addr w \<notin> be_context ` set (registry w)"
  "win_inv w \<Longrightarrow> browse_contexts w (next_addr w) = None"
  "win_inv w \<Longrightarrow> resolve_contexts w (next_addr w) = None"
proof -
  assume "win_inv w"
  then have "next_addr w \<notin> be_context ` set (registry w)" "next_addr w \<notin> dom (browse_contexts w)"
    "next_addr w \<notin> dom (resolve_contexts w)"
    by (auto simp: win_inv_def simp del: domIff)
  then show "next_addr w \<notin> be_context ` set (registry w)" "browse_contexts w (next_addr w) = None"
      "resolve_contexts w (next_addr w) = None"
    by (simp_all add: domIff)
qed

text \<open>The browses that may be called back are the registered ones, and their contexts are there.\<close>

lemma active_registered: "win_inv w \<Longrightarrow> active_browses (win_log w) = map entry_pair (registry w)"
  unfolding win_inv_def active_browses_def by (blast intro: track_browse_events)

lemma active_contexts:
  "win_inv w \<Longrightarrow> snd ` set (active_browses (win_log w)) = dom (browse_contexts w)"
  by (simp add: active_registered image_entry_pair win_inv_def)

lemma register_inv:
  assumes "win_inv w" and "r = DNS_REQUEST_PENDING"
  shows "win_inv (log_event (BrowseCalled i q (next_addr w) r c)
    (w\<lparr>browse_contexts := (browse_contexts w)(next_addr w \<mapsto> ctx), next_addr := Suc (next_addr w),
       win_env := e, registry := registry w @ [\<lparr>be_cancel = c, be_context = next_addr w\<rparr>]\<rparr>))"
proof -
  have d: "dom ((browse_contexts w)(next_addr w \<mapsto> ctx)) = insert (next_addr w) (dom (browse_contexts w))"
    by simp
  show ?thesis
    using assms win_inv_fresh(1) [OF assms(1)]
    by (simp add: win_inv_def log_event_def d image_entry_pair del: dom_fun_upd)
       (auto simp: entry_pair_def)
qed

lemma discard_inv:
  assumes "win_inv w" and "r \<noteq> DNS_REQUEST_PENDING"
  shows "win_inv (free_context (next_addr w) (log_event (BrowseCalled i q (next_addr w) r c)
    (w\<lparr>browse_contexts := (browse_contexts w)(next_addr w \<mapsto> ctx), next_addr := Suc (next_addr w),
       win_env := e\<rparr>)))"
proof -
  have "(browse_contexts w)(next_addr w := None) = browse_contexts w"
    using win_inv_fresh(2) [OF assms(1)] by (simp add: fun_upd_idem)
  then show ?thesis
    using assms win_inv_fresh(1) [OF assms(1)]
    by (simp add: win_inv_def log_event_def free_context_def image_entry_pair) auto
qed

text \<open>
  The queries \<open>DnsServiceBrowse\<close> was called with, whatever it answered, and the one a name stands
  for: none when it has no wide form.
\<close>

definition browse_queries :: "win_event list \<Rightarrow> (u32 \<times> wide) list" where
  "browse_queries xs = concat (map (\<lambda>x. case x of BrowseCalled i q a r h \<Rightarrow> [(i, q)] | _ \<Rightarrow> []) xs)"

definition queries_for :: "'e win \<Rightarrow> u32 \<Rightarrow> bytes list \<Rightarrow> (u32 \<times> wide) list" where
  "queries_for api i ts = concat (map (\<lambda>t. case u16cstring api t of Inr q \<Rightarrow> [(i, q)] | Inl err \<Rightarrow> []) ts)"

lemma browse_queries_append [simp]: "browse_queries (xs @ ys) = browse_queries xs @ browse_queries ys"
  by (simp add: browse_queries_def)

lemma queries_for_append: "queries_for api i (ts @ us) = queries_for api i ts @ queries_for api i us"
  by (simp add: queries_for_def)

lemma start_browse_effect:
  assumes "start_browse api q t d i m w = (r, w')"
  obtains es where "registry w' = registry w @ es"
    and "list_all (\<lambda>en. browse_contexts w' (be_context en) =
        Some \<lparr>bc_is_meta = m, bc_interface = i, bc_service_type = t, bc_domain = d, bc_seen = {}\<rparr>) es"
    and "browse_queries (win_log w') = browse_queries (win_log w) @ queries_for api i [q]"
    and "win_sent w' = win_sent w"
proof (cases "u16cstring api q")
  case (Inl err)
  with assms show ?thesis
    by (intro that [of "[]"]) (simp_all add: start_browse_def queries_for_def)
next
  case (Inr qw)
  obtain res c e where call: "DnsServiceBrowse api i qw (next_addr w) (win_env w) = ((res, c), e)"
    by (metis surj_pair)
  note run = assms [symmetric, unfolded start_browse_def call_browse_def box_context_def]
  show ?thesis
    using run Inr call
    by (intro that [of "if res = DNS_REQUEST_PENDING then [\<lparr>be_cancel = c, be_context = next_addr w\<rparr>] else []"])
       (auto simp: queries_for_def browse_queries_def log_event_def free_context_def split: if_splits)
qed

text \<open>What starting a browse leaves as it was.\<close>

definition browse_frame :: "'e win_state \<Rightarrow> 'e win_state \<Rightarrow> bool" where
  "browse_frame w w' \<longleftrightarrow>
     strong w' = strong w \<and> browse_contexts w \<subseteq>\<^sub>m browse_contexts w' \<and>
     resolve_contexts w' = resolve_contexts w \<and> win_sent w' = win_sent w \<and> win_traced w' = win_traced w"

lemma start_browse_inv:
  assumes "win_inv w" and "start_browse api q t d i m w = (r, w')"
  shows "win_inv w' \<and> browse_frame w w'"
proof (cases "u16cstring api q")
  case (Inl err)
  with assms show ?thesis by (simp add: start_browse_def browse_frame_def)
next
  case (Inr qw)
  obtain res c e where call: "DnsServiceBrowse api i qw (next_addr w) (win_env w) = ((res, c), e)"
    by (metis surj_pair)
  define ctx where "ctx = \<lparr>bc_is_meta = m, bc_interface = i, bc_service_type = t, bc_domain = d, bc_seen = {}\<rparr>"
  have w': "w' = (if res = DNS_REQUEST_PENDING
    then log_event (BrowseCalled i qw (next_addr w) res c)
      (w\<lparr>browse_contexts := (browse_contexts w)(next_addr w \<mapsto> ctx), next_addr := Suc (next_addr w),
         win_env := e, registry := registry w @ [\<lparr>be_cancel = c, be_context = next_addr w\<rparr>]\<rparr>)
    else free_context (next_addr w) (log_event (BrowseCalled i qw (next_addr w) res c)
      (w\<lparr>browse_contexts := (browse_contexts w)(next_addr w \<mapsto> ctx), next_addr := Suc (next_addr w),
         win_env := e\<rparr>)))"
    using assms(2) Inr call
    by (auto simp: start_browse_def call_browse_def box_context_def log_event_def ctx_def)
  have "browse_frame w w'"
    using win_inv_fresh(2) [OF assms(1)]
    by (auto simp: w' browse_frame_def log_event_def free_context_def map_le_def)
  then show ?thesis using register_inv [OF assms(1)] discard_inv [OF assms(1)] by (simp add: w')
qed

lemma drop_entry_effect:
  assumes "win_inv w" and "registry w = en # rest"
  shows "win_inv ((drop_entry api en w)\<lparr>registry := rest\<rparr>)"
proof -
  have notin: "be_context en \<notin> be_context ` set rest"
    using assms by (simp add: win_inv_def)
  have "dom ((browse_contexts w)(be_context en := None)) = be_context ` set rest"
    using assms notin by (auto simp: win_inv_def)
  then show ?thesis
    using assms notin
    by (simp add: win_inv_def drop_entry_def free_context_def log_event_def entry_pair_def del: dom_fun_upd)
qed

text \<open>The registry's entries are dropped in order, whatever the registry field still holds.\<close>

lemma drop_entry_registry: "drop_entry api en (w\<lparr>registry := rs\<rparr>) = (drop_entry api en w)\<lparr>registry := rs\<rparr>"
  by (simp add: drop_entry_def free_context_def log_event_def)

lemma drop_all_registry:
  "fold (drop_entry api) es (w\<lparr>registry := rs\<rparr>) = (fold (drop_entry api) es w)\<lparr>registry := rs\<rparr>"
  by (induction es arbitrary: w) (simp_all add: drop_entry_registry)

lemma drop_all_inv:
  "win_inv w \<Longrightarrow> registry w = es \<Longrightarrow> win_inv ((fold (drop_entry api) es w)\<lparr>registry := []\<rparr>)"
proof (induction es arbitrary: w)
  case Nil
  then show ?case by (cases w) simp
next
  case (Cons en es)
  have "win_inv ((drop_entry api en w)\<lparr>registry := es\<rparr>)"
    using Cons.prems by (rule drop_entry_effect)
  then have "win_inv ((fold (drop_entry api) es ((drop_entry api en w)\<lparr>registry := es\<rparr>))\<lparr>registry := []\<rparr>)"
    by (rule Cons.IH) simp
  then show ?case by (simp add: drop_all_registry)
qed

lemma release_registry_inv: "win_inv w \<Longrightarrow> win_inv (release_registry api w)"
  using drop_all_inv [of "w\<lparr>strong := strong w - 1\<rparr>" "registry w" api]
  by (cases "strong w - 1 = 0") (simp_all add: release_registry_def Let_def del: diff_is_0_eq')

lemma release_registry_last:
  assumes "strong w = 1"
  shows "registry (release_registry api w) = []" and "strong (release_registry api w) = 0"
proof -
  have "strong (fold (drop_entry api) es w) = strong w" for es w
    by (induction es arbitrary: w) (simp_all add: drop_entry_def free_context_def log_event_def)
  with assms show "registry (release_registry api w) = []" "strong (release_registry api w) = 0"
    by (simp_all add: release_registry_def Let_def)
qed

lemma release_registry_shared:
  "1 < strong w \<Longrightarrow> release_registry api w = w\<lparr>strong := strong w - 1\<rparr>"
  by (simp add: release_registry_def Let_def)

subsection \<open>Resolve contexts\<close>

lemma box_resolve_inv:
  assumes "win_inv w"
  shows "win_inv (log_event (ResolveStarted (next_addr w))
    (w\<lparr>resolve_contexts := (resolve_contexts w)(next_addr w \<mapsto> rc), next_addr := Suc (next_addr w),
       win_env := e\<rparr>))"
proof -
  have d: "dom ((resolve_contexts w)(next_addr w \<mapsto> rc)) = insert (next_addr w) (dom (resolve_contexts w))"
    by simp
  have "next_addr w \<notin> dom (resolve_contexts w)" using win_inv_fresh(3) [OF assms] by (simp add: domIff)
  then show ?thesis
    using assms by (simp add: win_inv_def log_event_def d del: dom_fun_upd domIff) auto
qed

lemma reclaim_resolve_Some:
  "reclaim_resolve a w = Some (rc, w') \<longleftrightarrow>
   resolve_contexts w a = Some rc \<and>
   w' = log_event (ResolveContextFreed a) (w\<lparr>resolve_contexts := (resolve_contexts w)(a := None)\<rparr>)"
  by (auto simp: reclaim_resolve_def)

lemma reclaim_resolve_inv: "win_inv w \<Longrightarrow> reclaim_resolve a w = Some (rc, w') \<Longrightarrow> win_inv w'"
  by (auto simp: reclaim_resolve_Some win_inv_def log_event_def)

lemma boxed_reclaim_inv:
  assumes "win_inv w"
  shows "win_inv (log_event (ResolveContextFreed (next_addr w))
    (w\<lparr>resolve_contexts := (resolve_contexts w)(next_addr w := None), next_addr := Suc (next_addr w),
       win_env := e\<rparr>))"
proof -
  have "(resolve_contexts w)(next_addr w := None) = resolve_contexts w"
    using win_inv_fresh(3) [OF assms] by (simp add: fun_upd_idem)
  moreover have "next_addr w \<notin> dom (resolve_contexts w)" using win_inv_fresh(3) [OF assms] by (simp add: domIff)
  ultimately show ?thesis
    using assms by (simp add: win_inv_def log_event_def del: domIff) auto
qed

text \<open>Starting a resolve always returns; its context is pending or was given back at once.\<close>

definition resolve_frame :: "'e win_state \<Rightarrow> 'e win_state \<Rightarrow> bool" where
  "resolve_frame w w' \<longleftrightarrow>
     strong w' = strong w \<and> browse_contexts w' = browse_contexts w \<and> registry w' = registry w \<and>
     win_traced w' = win_traced w"

lemma start_resolve_inv:
  assumes "win_inv w"
  shows "\<exists>w'. start_resolve api ctx q l w = Some w' \<and> win_inv w' \<and> resolve_frame w w'"
proof (cases "u16cstring api q")
  case (Inl err)
  with assms show ?thesis by (simp add: start_resolve_def resolve_frame_def)
next
  case (Inr qw)
  obtain res c e where
    call: "DnsServiceResolve api (bc_interface ctx) qw (next_addr w) (win_env w) = ((res, c), e)"
    by (metis surj_pair)
  show ?thesis
  proof (cases "res = DNS_REQUEST_PENDING")
    case True
    with Inr call box_resolve_inv [OF assms] show ?thesis
      by (auto simp: start_resolve_def box_resolve_def resolve_frame_def log_event_def)
  next
    case False
    with Inr call boxed_reclaim_inv [OF assms] show ?thesis
      by (auto simp: start_resolve_def box_resolve_def reclaim_resolve_def resolve_frame_def
          win_send_def log_event_def win_inv_def)
  qed
qed

text \<open>The completion callback consumes its context and reports once.\<close>

lemma win_resolve_callback_effect:
  assumes "resolve_contexts w a = Some rc"
  obtains (failed) "status \<noteq> 0 \<or> inst = None"
      and "win_resolve_callback api status a inst w =
        Some ((if inst = None then id else log_event InstanceFreed)
          (win_send (Inl (ResolveFailed (rc_name rc) (''resolve callback status '' @ show_u32 status)))
            (log_event (ResolveContextFreed a) (w\<lparr>resolve_contexts := (resolve_contexts w)(a := None)\<rparr>))))"
  | (found) i where "status = 0" and "inst = Some i"
      and "win_resolve_callback api status a inst w =
        Some (log_event InstanceFreed
          (win_send (Inr (Found (build_service api i (rc_name rc) (rc_service_type rc) (rc_domain rc))))
            (log_event (ResolveContextFreed a) (w\<lparr>resolve_contexts := (resolve_contexts w)(a := None)\<rparr>))))"
  using assms
  by (cases inst; cases "status = 0") (auto simp: win_resolve_callback_def reclaim_resolve_def Let_def)

lemma win_resolve_callback_inv:
  "win_inv w \<Longrightarrow> win_resolve_callback api status a inst w = Some w' \<Longrightarrow> win_inv w'"
proof -
  assume inv: "win_inv w" and run: "win_resolve_callback api status a inst w = Some w'"
  then obtain rc where rc: "resolve_contexts w a = Some rc"
    by (auto simp: win_resolve_callback_def reclaim_resolve_def)
  have "win_inv (log_event (ResolveContextFreed a) (w\<lparr>resolve_contexts := (resolve_contexts w)(a := None)\<rparr>))"
    using inv by (rule reclaim_resolve_inv [of w a rc]) (simp add: reclaim_resolve_Some rc)
  with run show ?thesis
    by (cases rule: win_resolve_callback_effect [OF rc, of status inst api])
       (auto simp: win_inv_neutral split: if_splits)
qed

subsection \<open>Browse callbacks\<close>

lemma insert_seen_inv:
  assumes "win_inv w" and "insert_seen a t w = Some (new, ctx, w')"
  shows "win_inv w'" and "strong w' = strong w" and "registry w' = registry w"
    and "dom (browse_contexts w') = dom (browse_contexts w)" and "win_traced w' = win_traced w"
proof -
  obtain c where c: "browse_contexts w a = Some c"
    and w': "w' = w\<lparr>browse_contexts := (browse_contexts w)(a \<mapsto> ctx)\<rparr>"
    using assms(2) by (auto simp: insert_seen_def Let_def)
  show "win_inv w'" unfolding w' using assms(1) c by (rule win_inv_update)
  show "strong w' = strong w" "registry w' = registry w" "win_traced w' = win_traced w"
    by (simp_all add: w')
  show "dom (browse_contexts w') = dom (browse_contexts w)"
    using c by (simp add: w' insert_absorb domI)
qed

definition child_context :: "BrowseContext \<Rightarrow> bytes \<Rightarrow> BrowseContext" where
  "child_context ctx target =
     \<lparr>bc_is_meta = False, bc_interface = bc_interface ctx, bc_service_type = fst (split_target ctx target),
      bc_domain = snd (split_target ctx target), bc_seen = {}\<rparr>"

lemma browse_child_inv:
  assumes "win_inv w" and "0 < strong w"
  shows "win_inv (browse_child api ctx t w) \<and> strong (browse_child api ctx t w) = strong w \<and>
    browse_contexts w \<subseteq>\<^sub>m browse_contexts (browse_child api ctx t w) \<and>
    win_traced (browse_child api ctx t w) = win_traced w @ [split_target ctx t] \<and>
    (\<exists>es. registry (browse_child api ctx t w) = registry w @ es \<and>
      list_all (\<lambda>en. browse_contexts (browse_child api ctx t w) (be_context en) =
        Some (child_context ctx t)) es) \<and>
    browse_queries (win_log (browse_child api ctx t w)) =
      browse_queries (win_log w) @ queries_for api (bc_interface ctx) [t] \<and>
    win_sent (browse_child api ctx t w) = win_sent w"
proof -
  obtain ty d where sp: "split_target ctx t = (ty, d)" by fastforce
  define w1 where "w1 = w\<lparr>win_traced := win_traced w @ [(ty, d)], strong := Suc (strong w)\<rparr>"
  obtain r w2 where sb: "start_browse api t ty d (bc_interface ctx) False w1 = (r, w2)" by fastforce
  have "win_inv w1" using assms(1) by (simp add: w1_def)
  then have w2: "win_inv w2 \<and> browse_frame w1 w2" using sb by (rule start_browse_inv)
  then have "1 < strong w2" using assms(2) by (simp add: browse_frame_def w1_def)
  then have run: "browse_child api ctx t w = w2\<lparr>strong := strong w2 - 1\<rparr>"
    using assms(2) sb
    by (simp add: browse_child_def sp upgrade_registry_def release_registry_shared flip: w1_def)
  obtain es where "registry w2 = registry w1 @ es"
    and "list_all (\<lambda>en. browse_contexts w2 (be_context en) = Some (child_context ctx t)) es"
    and "browse_queries (win_log w2) = browse_queries (win_log w1) @ queries_for api (bc_interface ctx) [t]"
    and "win_sent w2 = win_sent w1"
    using sb by (rule start_browse_effect) (simp add: child_context_def sp)
  with w2 show ?thesis by (auto simp: run browse_frame_def w1_def sp)
qed

text \<open>
  One record of a live context: it always returns, keeps every live context, and browses or
  resolves the name it carries when that is new.
\<close>

lemma handle_record_inv:
  assumes "win_inv w" and "0 < strong w" and "browse_contexts w a = Some ctx"
  shows "\<exists>w'. handle_record api a r w = Some w' \<and> win_inv w' \<and> strong w' = strong w \<and>
    dom (browse_contexts w) \<subseteq> dom (browse_contexts w')"
proof (cases "dr_type r = DNS_TYPE_PTR")
  case True
  define t where "t = trim_dot (pwstr_to_string api (dr_name_host r))"
  obtain new ctx1 w1 where ins: "insert_seen a t w = Some (new, ctx1, w1)"
    using assms(3) by (auto simp: insert_seen_def Let_def)
  note w1 = insert_seen_inv [OF assms(1) ins]
  show ?thesis
  proof (cases "new \<and> \<not> bc_is_meta ctx1")
    case True
    obtain w2 where "start_resolve api ctx1 t (instance_label t (bc_service_type ctx1) (bc_domain ctx1)) w1 = Some w2"
        "win_inv w2" "resolve_frame w1 w2"
      using start_resolve_inv [OF w1(1)] by blast
    with True ins w1 show ?thesis
      using \<open>dr_type r = DNS_TYPE_PTR\<close>
      by (simp add: handle_record_def handle_ptr_def resolve_frame_def flip: t_def)
  next
    case False
    have "0 < strong w1" using w1(2) assms(2) by simp
    note ch = browse_child_inv [OF w1(1) this, of api ctx1 t]
    have "dom (browse_contexts w1) \<subseteq> dom (browse_contexts (browse_child api ctx1 t w1))"
      using ch by (auto dest: map_le_implies_dom_le)
    with False ins w1 ch show ?thesis
      using \<open>dr_type r = DNS_TYPE_PTR\<close>
      by (auto simp: handle_record_def handle_ptr_def simp flip: t_def)
  qed
qed (use assms in \<open>simp add: handle_record_def\<close>)

lemma handle_records_inv:
  "win_inv w \<Longrightarrow> 0 < strong w \<Longrightarrow> a \<in> dom (browse_contexts w) \<Longrightarrow>
   \<exists>w'. handle_records api a rs w = Some w' \<and> win_inv w' \<and> strong w' = strong w \<and>
     dom (browse_contexts w) \<subseteq> dom (browse_contexts w')"
proof (induction rs arbitrary: w)
  case (Cons r rs)
  then obtain ctx where "browse_contexts w a = Some ctx" by auto
  from handle_record_inv [OF Cons.prems(1,2) this]
  obtain w1 where w1: "handle_record api a r w = Some w1" "win_inv w1" "strong w1 = strong w"
    "dom (browse_contexts w) \<subseteq> dom (browse_contexts w1)" by blast
  moreover have "\<exists>w'. handle_records api a rs w1 = Some w' \<and> win_inv w' \<and> strong w' = strong w1 \<and>
      dom (browse_contexts w1) \<subseteq> dom (browse_contexts w')"
    using w1 Cons.prems by (intro Cons.IH) auto
  ultimately show ?case by auto
qed simp

lemma win_browse_callback_inv:
  assumes "win_inv w" and "0 < strong w" and "a \<in> dom (browse_contexts w)"
  shows "\<exists>w'. win_browse_callback api status a rs w = Some w' \<and> win_inv w' \<and> strong w' = strong w \<and>
    dom (browse_contexts w) \<subseteq> dom (browse_contexts w')"
proof -
  define w0 where "w0 = (if status \<noteq> 0
    then win_send (Inl (BrowseFailed (''browse callback status '' @ show_u32 status))) w else w)"
  have w0: "win_inv w0" "0 < strong w0" "a \<in> dom (browse_contexts w0)"
    "browse_contexts w0 = browse_contexts w" "strong w0 = strong w"
    using assms by (simp_all add: w0_def)
  from handle_records_inv [OF w0(1-3)] obtain w1 where
    w1: "handle_records api a rs w0 = Some w1" "win_inv w1" "strong w1 = strong w0"
    "dom (browse_contexts w0) \<subseteq> dom (browse_contexts w1)" by blast
  have "win_browse_callback api status a rs w =
      Some (if rs \<noteq> [] then log_event RecordListFreed w1 else w1)"
    using assms(3) w1(1) unfolding win_browse_callback_def Let_def w0_def [symmetric]
    by (auto simp del: handle_records.simps)
  with w0 w1 show ?thesis by (simp add: win_inv_neutral)
qed

subsection \<open>Stopping\<close>

lemma guard_drop_releases:
  assumes "win_inv w" and "strong w = 1"
  shows "registry (guard_drop api w) = [] \<and> browse_contexts (guard_drop api w) = Map.empty \<and>
    browse_events (win_log (guard_drop api w)) ([], None) = Some ([], None)"
proof -
  have inv: "win_inv (guard_drop api w)" and reg: "registry (guard_drop api w) = []"
    using release_registry_inv [OF assms(1)] release_registry_last(1) [OF assms(2)]
    by (simp_all add: guard_drop_def)
  from inv reg show ?thesis by (simp add: win_inv_def)
qed

subsection \<open>Each name once\<close>

text \<open>The names a record list carries, as the callback sees them.\<close>

definition record_targets :: "'e win \<Rightarrow> dns_record list \<Rightarrow> bytes list" where
  "record_targets api rs =
     map (\<lambda>r. trim_dot (pwstr_to_string api (dr_name_host r)))
       (filter (\<lambda>r. dr_type r = DNS_TYPE_PTR) rs)"

lemma record_targets_Cons:
  "record_targets api (r # rs) = record_targets api [r] @ record_targets api rs"
  by (simp add: record_targets_def)

lemma split_target_seen [simp]: "split_target (ctx\<lparr>bc_seen := s\<rparr>) = split_target ctx"
  by (rule ext) (simp add: split_target_def split: option.split)

lemma child_context_seen [simp]: "child_context (ctx\<lparr>bc_seen := s\<rparr>) = child_context ctx"
  by (rule ext) (simp add: child_context_def)

lemma child_context_not_meta [simp]: "\<not> bc_is_meta (child_context ctx t)"
  by (simp add: child_context_def)

text \<open>
  What handling names leaves in the state: each new name is traced and browsed, in order, and the
  browses that were accepted are registered; nothing is sent, and no other context changes.
\<close>

definition browses_names ::
  "'e win \<Rightarrow> heap_addr \<Rightarrow> BrowseContext \<Rightarrow> bytes list \<Rightarrow> 'e win_state \<Rightarrow> 'e win_state \<Rightarrow> bool" where
  "browses_names api a ctx ts w w' \<longleftrightarrow>
     win_inv w' \<and> strong w' = strong w \<and> win_sent w' = win_sent w \<and>
     browse_contexts w' a = Some (ctx\<lparr>bc_seen := bc_seen ctx \<union> set ts\<rparr>) \<and>
     (\<forall>b c. b \<noteq> a \<longrightarrow> browse_contexts w b = Some c \<longrightarrow> browse_contexts w' b = Some c) \<and>
     win_traced w' = win_traced w @ map (split_target ctx) (fresh (bc_seen ctx) ts) \<and>
     browse_queries (win_log w') =
       browse_queries (win_log w) @ queries_for api (bc_interface ctx) (fresh (bc_seen ctx) ts) \<and>
     (\<exists>es. registry w' = registry w @ es \<and>
        list_all (\<lambda>en. browse_contexts w' (be_context en) \<in>
          (\<lambda>t. Some (child_context ctx t)) ` set (fresh (bc_seen ctx) ts)) es)"

lemma browses_names_trans:
  assumes "browses_names api a ctx ts w w1"
    and "browses_names api a (ctx\<lparr>bc_seen := bc_seen ctx \<union> set ts\<rparr>) us w1 w2" and "bc_is_meta ctx"
  shows "browses_names api a ctx (ts @ us) w w2"
proof -
  obtain es where es: "registry w1 = registry w @ es"
    "list_all (\<lambda>en. browse_contexts w1 (be_context en) \<in>
       (\<lambda>t. Some (child_context ctx t)) ` set (fresh (bc_seen ctx) ts)) es"
    using assms(1) by (auto simp: browses_names_def)
  obtain fs where fs: "registry w2 = registry w1 @ fs"
    "list_all (\<lambda>en. browse_contexts w2 (be_context en) \<in>
       (\<lambda>t. Some (child_context ctx t)) ` set (fresh (bc_seen ctx \<union> set ts) us)) fs"
    using assms(2) by (auto simp: browses_names_def)
  have kept: "browse_contexts w2 b = Some c" if "browse_contexts w1 b = Some c" "\<not> bc_is_meta c" for b c
  proof -
    have "b \<noteq> a" using that assms(1,3) by (auto simp: browses_names_def)
    with that assms(2) show ?thesis by (simp add: browses_names_def)
  qed
  have "list_all (\<lambda>en. browse_contexts w2 (be_context en) \<in>
      (\<lambda>t. Some (child_context ctx t)) ` set (fresh (bc_seen ctx) (ts @ us))) (es @ fs)"
    using es(2) fs(2) kept by (fastforce simp: list_all_iff fresh_append)
  with es(1) fs(1) assms(1,2) show ?thesis
    by (simp add: browses_names_def fresh_append queries_for_append Un_assoc)
qed

lemma handle_record_meta:
  assumes "win_inv w" and "0 < strong w" and c: "browse_contexts w a = Some ctx" and "bc_is_meta ctx"
  shows "\<exists>w'. handle_record api a r w = Some w' \<and> browses_names api a ctx (record_targets api [r]) w w'"
proof (cases "dr_type r = DNS_TYPE_PTR")
  case True
  define t where "t = trim_dot (pwstr_to_string api (dr_name_host r))"
  define ctx1 where "ctx1 = ctx\<lparr>bc_seen := insert t (bc_seen ctx)\<rparr>"
  define w1 where "w1 = w\<lparr>browse_contexts := (browse_contexts w)(a \<mapsto> ctx1)\<rparr>"
  have ins: "insert_seen a t w = Some (t \<notin> bc_seen ctx, ctx1, w1)"
    by (simp add: insert_seen_def c ctx1_def w1_def Let_def)
  have w1: "win_inv w1" "0 < strong w1" "browse_contexts w1 a = Some ctx1"
    using insert_seen_inv(1) [OF assms(1) ins] assms(2) by (simp_all add: w1_def)
  have run: "handle_record api a r w =
      Some (if t \<in> bc_seen ctx then w1 else browse_child api ctx1 t w1)"
    using assms(4) True
    by (simp add: handle_record_def handle_ptr_def ins ctx1_def flip: t_def)
  have ts: "record_targets api [r] = [t]" by (simp add: record_targets_def True t_def)
  note ch = browse_child_inv [OF w1(1,2), of api ctx1 t]
  have "browse_contexts (browse_child api ctx1 t w1) b = Some x" if "browse_contexts w1 b = Some x" for b x
    using ch that by (auto simp: map_le_def dom_def)
  with ch w1 show ?thesis
    by (auto simp: run ts ctx1_def insert_absorb w1_def browses_names_def queries_for_def)
next
  case False
  then show ?thesis
    using assms by (simp add: handle_record_def record_targets_def browses_names_def queries_for_def)
qed

lemma handle_records_meta:
  "win_inv w \<Longrightarrow> 0 < strong w \<Longrightarrow> browse_contexts w a = Some ctx \<Longrightarrow> bc_is_meta ctx \<Longrightarrow>
   \<exists>w'. handle_records api a rs w = Some w' \<and> browses_names api a ctx (record_targets api rs) w w'"
proof (induction rs arbitrary: w ctx)
  case Nil
  then show ?case by (simp add: record_targets_def browses_names_def queries_for_def)
next
  case (Cons r rs)
  from handle_record_meta [OF Cons.prems]
  obtain w1 where w1: "handle_record api a r w = Some w1"
    "browses_names api a ctx (record_targets api [r]) w w1"
    by blast
  let ?ctx1 = "ctx\<lparr>bc_seen := bc_seen ctx \<union> set (record_targets api [r])\<rparr>"
  have "win_inv w1" "0 < strong w1" "browse_contexts w1 a = Some ?ctx1" "bc_is_meta ?ctx1"
    using Cons.prems w1(2) by (simp_all add: browses_names_def)
  from Cons.IH [OF this] obtain w2 where
    "handle_records api a rs w1 = Some w2" "browses_names api a ?ctx1 (record_targets api rs) w1 w2" by blast
  with w1 Cons.prems(4) browses_names_trans [OF w1(2)] show ?case
    by (auto simp: record_targets_Cons [of api r rs])
qed

text \<open>A new instance is handed to the system or reported, once.\<close>

lemma start_resolve_once:
  assumes "win_inv w" and "u16cstring api q = Inr qw"
  shows "\<exists>w'. start_resolve api ctx q l w = Some w' \<and>
    (win_sent w' = win_sent w \<and> dom (resolve_contexts w') = insert (next_addr w) (dom (resolve_contexts w)) \<or>
     (\<exists>m. win_sent w' = win_sent w @ [Inl (ResolveFailed l m)]) \<and> resolve_contexts w' = resolve_contexts w)"
proof -
  obtain res c e where
    call: "DnsServiceResolve api (bc_interface ctx) qw (next_addr w) (win_env w) = ((res, c), e)"
    by (metis surj_pair)
  have "(resolve_contexts w)(next_addr w := None) = resolve_contexts w"
    using win_inv_fresh(3) [OF assms(1)] by (simp add: fun_upd_idem)
  with call assms(2) show ?thesis
    by (cases "res = DNS_REQUEST_PENDING")
       (simp_all add: start_resolve_def box_resolve_def reclaim_resolve_def)
qed

text \<open>
  What a completion reports: a service with the fields of the instance under the names of the
  context, or the failure with its status.
\<close>

lemma win_resolve_callback_outcome:
  assumes "resolve_contexts w a = Some rc"
  shows "\<exists>w'. win_resolve_callback api status a inst w = Some w' \<and>
    win_sent w' = win_sent w @ [
      if status = 0 \<and> inst \<noteq> None
      then Inr (Found (build_service api (the inst) (rc_name rc) (rc_service_type rc) (rc_domain rc)))
      else Inl (ResolveFailed (rc_name rc) (''resolve callback status '' @ show_u32 status))] \<and>
    resolve_contexts w' = (resolve_contexts w)(a := None) \<and>
    browse_contexts w' = browse_contexts w \<and> registry w' = registry w \<and> strong w' = strong w \<and>
    win_env w' = win_env w \<and>
    win_log w' = win_log w @ ResolveContextFreed a # (if inst = None then [] else [InstanceFreed])"
  using assms
  by (cases rule: win_resolve_callback_effect [OF assms, of status inst api]) (auto simp: win_send_def)

end
