(* ===== verification/Windows_Resolve.thy ===== *)
theory Windows_Resolve
  imports Windows_Safety
begin

text \<open>
  Names and services on Windows: the instance label and the type of a PTR target, the TXT pairs of
  an instance, and the one-shot resolve against its contract.
\<close>

subsection \<open>Labels and types\<close>

text \<open>
  The fully qualified name of an instance, as a PTR record carries it; the part after the label is
  what the browse was started for.
\<close>

definition full_instance_name :: "bytes \<Rightarrow> bytes \<Rightarrow> bytes \<Rightarrow> bytes" where
  "full_instance_name label service_type domain = label @ ''.'' @ service_type @ ''.'' @ domain"

lemma instance_label_full: "instance_label (full_instance_name l t d) t d = l"
proof -
  have "strip_suffix (l @ (''.'' @ t @ ''.'' @ d)) (''.'' @ t @ ''.'' @ d) = Some l"
    by (rule strip_suffix_append)
  then show ?thesis by (simp add: instance_label_def full_instance_name_def)
qed

lemma trim_full_instance_name:
  assumes "d \<noteq> []" and "last d \<noteq> CHR ''.''"
  shows "trim_dot (full_instance_name l t d @ ''.'') = full_instance_name l t d"
proof -
  have "trim_dot (full_instance_name l t d @ ''.'') = trim_dot (full_instance_name l t d)"
    by (rule trim_dot_snoc)
  also have "\<dots> = full_instance_name l t d"
    using assms by (intro trim_dot_id) (simp add: full_instance_name_def)
  finally show ?thesis .
qed

lemma instance_label_of_target:
  assumes "d \<noteq> []" and "last d \<noteq> CHR ''.''"
  shows "instance_label (trim_dot (full_instance_name l t d @ ''.'')) t d = l"
  by (simp only: trim_full_instance_name [OF assms] instance_label_full)

text \<open>A domain written with its trailing dot never matches a target, whose dots were trimmed.\<close>

lemma instance_label_dotted_domain:
  "instance_label (trim_dot s) t (d @ ''.'') = trim_dot s"
proof -
  have "\<not> suffix (''.'' @ t @ ''.'' @ d @ ''.'') (trim_dot s)"
  proof
    assume "suffix (''.'' @ t @ ''.'' @ d @ ''.'') (trim_dot s)"
    then obtain zs where zs: "trim_dot s = zs @ ''.'' @ t @ ''.'' @ d @ ''.''" by (auto simp: suffix_def)
    then have "ends_with (trim_dot s) CHR ''.''" by simp
    with trim_dot_facts [of s] show False by simp
  qed
  then have "strip_suffix (trim_dot s) (''.'' @ t @ ''.'' @ d @ ''.'') = None"
    by (simp only: strip_suffix_None not_False_eq_True)
  then show ?thesis by (simp add: instance_label_def)
qed

lemma split_target_last_label:
  "CHR ''.'' \<notin> set d \<Longrightarrow> split_target ctx (t @ ''.'' @ d) = (t, d)"
  using rsplit_once_append [of "CHR ''.''" d t] by (simp add: split_target_def)

lemma split_target_rejoin:
  "CHR ''.'' \<in> set target \<Longrightarrow>
   split_target ctx target = (t, d) \<Longrightarrow> t @ ''.'' @ d = target \<and> CHR ''.'' \<notin> set d"
  by (auto simp: split_target_def rsplit_once_Some rsplit_once_None split: option.splits)

subsection \<open>TXT pairs\<close>

lemma read_txt_length: "length (read_txt api inst) \<le> unat (si_property_count inst)"
proof -
  have m: "length (List.map_filter f xs) \<le> length xs" for f :: "nat \<times> pwstr \<Rightarrow> TxtRecord option" and xs
    by (simp add: List.map_filter_def)
  show ?thesis
    by (auto simp: read_txt_def Let_def split: option.splits intro: le_trans [OF m])
qed

subsection \<open>Resolving once\<close>

lemma resolve_once_callback_Some:
  "resolve_once_callback api status a inst w = Some (r, w') \<Longrightarrow>
   \<exists>rc. resolve_contexts w a = Some rc \<and> r = once_result api status rc inst \<and>
     resolve_contexts w' = (resolve_contexts w)(a := None)"
  by (auto simp: resolve_once_callback_def reclaim_resolve_def)

text \<open>
  The ways a one-shot resolve returns: it could not start, its callback was lost, or its callback
  fired; with what is left of the contexts.
\<close>

lemma win_resolve_once_runs:
  assumes "win_resolve_once api n t d i w = Some (r, w')"
  obtains (refused) m where "r = Inl (ResolveFailed n m)"
      and "resolve_contexts w' = resolve_contexts w \<or>
        resolve_contexts w' = (resolve_contexts w)(next_addr w := None)"
  | (lost) "r = Inl (ResolveFailed n ''resolve completed without a result'')"
  | (fired) status inst where
      "r = once_result api status \<lparr>rc_name = n, rc_service_type = t, rc_domain = d\<rparr> inst"
      and "resolve_contexts w' = (resolve_contexts w)(next_addr w := None)"
proof (cases "u16cstring api (n @ ''.'' @ t @ ''.'' @ d)")
  case (Inl err)
  with assms show ?thesis by (intro refused [of err]) (simp_all add: win_resolve_once_def Let_def)
next
  case (Inr qw)
  define ifc where "ifc = (case i of Some i \<Rightarrow> i | None \<Rightarrow> 0)"
  define rc where "rc = \<lparr>rc_name = n, rc_service_type = t, rc_domain = d\<rparr>"
  define w1 where "w1 = w\<lparr>resolve_contexts := (resolve_contexts w)(next_addr w \<mapsto> rc),
    next_addr := Suc (next_addr w)\<rparr>"
  obtain res c e where call: "DnsServiceResolve api ifc qw (next_addr w) (win_env w) = ((res, c), e)"
    by (metis surj_pair)
  obtain ans e2 where ans: "await_resolve api (next_addr w) e = (ans, e2)" by fastforce
  have run: "(if res \<noteq> DNS_REQUEST_PENDING then
       map_option (\<lambda>(rc, w). (Inl (ResolveFailed (rc_name rc)
          (''DnsServiceResolve failed with status '' @ show_i32 res)), w))
         (reclaim_resolve (next_addr w) (w1\<lparr>win_env := e\<rparr>))
     else (case ans of None \<Rightarrow> None
       | Some None \<Rightarrow> Some (Inl (ResolveFailed n ''resolve completed without a result''), w1\<lparr>win_env := e2\<rparr>)
       | Some (Some (status, inst)) \<Rightarrow>
           resolve_once_callback api status (next_addr w) inst (w1\<lparr>win_env := e2\<rparr>))) = Some (r, w')"
    using assms Inr call ans
    by (simp add: win_resolve_once_def box_resolve_def Let_def ifc_def rc_def w1_def
        cong: if_cong option.case_cong)
  then consider "res \<noteq> DNS_REQUEST_PENDING" | "res = DNS_REQUEST_PENDING" "ans = Some None"
    | status inst where "res = DNS_REQUEST_PENDING" "ans = Some (Some (status, inst))"
    by (auto split: if_splits option.splits)
  then show ?thesis
  proof cases
    case 1
    with run show ?thesis by (intro refused) (auto simp: reclaim_resolve_def w1_def rc_def)
  next
    case 2
    with run show ?thesis by (intro lost) simp
  next
    case 3
    with run show ?thesis
      by (intro fired) (auto simp: w1_def rc_def dest!: resolve_once_callback_Some)
  qed
qed

text \<open>
  A one-shot resolve that succeeds asked the system for the full name of the instance, on the
  requested interface or on all; its callback came with status zero, and the service is built from
  the instance it was given. One that fails names the instance and says why: the name has no wide
  form, the system refused the request, the callback was lost, or it came with another status or
  without an instance.
\<close>

definition win_answers ::
  "'e win \<Rightarrow> bytes \<Rightarrow> bytes \<Rightarrow> bytes \<Rightarrow> u32 option \<Rightarrow> 'e win_state \<Rightarrow> resolve_result \<Rightarrow> 'e win_state \<Rightarrow> bool" where
  "win_answers api n t d index w r w' \<longleftrightarrow>
     (case u16cstring api (full_instance_name n t d) of
        Inl m \<Rightarrow> r = Inl (ResolveFailed n m) \<and> w' = w
      | Inr q \<Rightarrow>
          \<exists>res h e. DnsServiceResolve api (case index of Some i \<Rightarrow> i | None \<Rightarrow> 0) q (next_addr w) (win_env w) =
              ((res, h), e) \<and>
            (if res \<noteq> DNS_REQUEST_PENDING
             then r = Inl (ResolveFailed n (''DnsServiceResolve failed with status '' @ show_i32 res))
             else \<exists>ans. await_resolve api (next_addr w) e = (Some ans, win_env w') \<and>
               r = (case ans of
                      Some (status, Some inst) \<Rightarrow>
                        if status = 0 then Inr (build_service api inst n t d)
                        else Inl (ResolveFailed n (''resolve callback status '' @ show_u32 status))
                    | Some (status, None) \<Rightarrow>
                        Inl (ResolveFailed n (''resolve callback status '' @ show_u32 status))
                    | None \<Rightarrow> Inl (ResolveFailed n ''resolve completed without a result''))))"

lemma win_resolve_once_answers:
  assumes "win_resolve_once api n t d index w = Some (r, w')"
  shows "win_answers api n t d index w r w'"
proof (cases "u16cstring api (n @ ''.'' @ t @ ''.'' @ d)")
  case (Inl err)
  with assms show ?thesis by (auto simp: win_resolve_once_def win_answers_def full_instance_name_def Let_def)
next
  case (Inr q)
  define i where "i = (case index of Some i \<Rightarrow> i | None \<Rightarrow> 0)"
  define a where "a = next_addr w"
  obtain res h e where call: "DnsServiceResolve api i q a (win_env w) = ((res, h), e)" by (metis surj_pair)
  obtain ans e2 where ans: "await_resolve api a e = (ans, e2)" by fastforce
  show ?thesis
  proof (cases "res = DNS_REQUEST_PENDING")
    case False
    with assms Inr call show ?thesis
      by (auto simp: win_resolve_once_def win_answers_def full_instance_name_def box_resolve_def
          reclaim_resolve_def Let_def simp flip: i_def a_def)
  next
    case True
    have answered: "win_answers api n t d index w r w'"
      if "ans = Some x" "win_env w' = e2"
        "r = (case x of None \<Rightarrow> Inl (ResolveFailed n ''resolve completed without a result'')
           | Some (status, inst) \<Rightarrow> once_result api status \<lparr>rc_name = n, rc_service_type = t, rc_domain = d\<rparr> inst)"
      for x
      using that Inr call ans True
      by (cases x) (auto simp: win_answers_def full_instance_name_def once_result_def split: option.splits
          simp flip: i_def a_def)
    consider "ans = Some None" "win_env w' = e2" "r = Inl (ResolveFailed n ''resolve completed without a result'')"
      | status inst where "ans = Some (Some (status, inst))" "win_env w' = e2"
        "r = once_result api status \<lparr>rc_name = n, rc_service_type = t, rc_domain = d\<rparr> inst"
      using assms Inr call ans True
      by (auto simp: win_resolve_once_def box_resolve_def resolve_once_callback_def reclaim_resolve_def
          log_event_def Let_def split: option.splits prod.splits simp flip: i_def a_def)
    then show ?thesis
    proof cases
      case 1
      with answered [of None] show ?thesis by simp
    next
      case (2 status inst)
      with answered [of "Some (status, inst)"] show ?thesis by simp
    qed
  qed
qed

interpretation win_backend: resolve_backend "win_resolve_once api" "win_answers api" for api
  by unfold_locales (rule win_resolve_once_answers)

text \<open>A one-shot resolve leaves no context behind once its callback fired or could not fire.\<close>

lemma win_resolve_once_reclaims:
  assumes "resolve_contexts w (next_addr w) = None"
    and "win_resolve_once api n t d i w = Some (r, w')"
    and "r \<noteq> Inl (ResolveFailed n ''resolve completed without a result'')"
  shows "resolve_contexts w' = resolve_contexts w"
proof -
  have "(resolve_contexts w)(next_addr w := None) = resolve_contexts w"
    using assms(1) by (simp add: fun_upd_idem)
  from assms(2) this assms(3) show ?thesis
    by (cases rule: win_resolve_once_runs) auto
qed

subsection \<open>Browsing all types\<close>

text \<open>The requested domain has no part in the query for all types.\<close>

lemma win_browse_all_query:
  "fst (win_browse_start api None dmn i e) = fst (win_browse_start api None None i e) \<and>
   win_env (snd (win_browse_start api None dmn i e)) = win_env (snd (win_browse_start api None None i e)) \<and>
   registry (snd (win_browse_start api None dmn i e)) = registry (snd (win_browse_start api None None i e))"
  by (auto simp: win_browse_start_def start_browse_def call_browse_def log_event_def box_context_def win_state_new_def Let_def
      free_context_def release_registry_def split: sum.splits prod.splits option.splits)

lemma win_browse_start_inv:
  assumes "win_browse_start api ty dmn i e = (r, w)"
  shows "win_inv w \<and> (case r of Inl err \<Rightarrow> registry w = [] \<and> (\<exists>m. err = BrowseFailed m)
    | Inr _ \<Rightarrow> strong w = 1)"
proof -
  obtain q t d m where st: "win_browse_start api ty dmn i e =
      (case start_browse api q t d (case i of Some i \<Rightarrow> i | None \<Rightarrow> 0) m (win_state_new e) of
         (Inl err, w) \<Rightarrow> (Inl (BrowseFailed err), release_registry api w)
       | (Inr _, w) \<Rightarrow> (Inr (), w))"
    by (cases ty) (simp_all add: win_browse_start_def Let_def)
  obtain r0 w0 where b: "start_browse api q t d (case i of Some i \<Rightarrow> i | None \<Rightarrow> 0) m (win_state_new e) = (r0, w0)"
    by fastforce
  have inv: "win_inv w0" and "strong w0 = 1"
    using start_browse_inv [OF win_inv_new b] by (simp_all add: browse_frame_def win_state_new_def)
  then show ?thesis
    using assms release_registry_inv [OF inv, of api] release_registry_last(1) [of w0 api]
    by (auto simp: st b split: sum.splits)
qed

end
