(* ===== verification/Windows_Properties.thy ===== *)
theory Windows_Properties
  imports Windows_Resolve
begin

text \<open>
  The properties of the Windows back-end, and a concrete platform to run it on: wide strings are
  ASCII, every request is accepted, and handles count the requests.
\<close>

subsection \<open>A sample platform\<close>

definition widen :: "bytes \<Rightarrow> wide" where
  "widen s = map (\<lambda>b. word_of_nat (byte_val b)) s"

definition narrow :: "wide \<Rightarrow> bytes" where
  "narrow w = map (\<lambda>c. char_of (unat c)) w"

definition sample_instance :: service_instance where
  "sample_instance =
     \<lparr>si_ip4 = Some 0x0100A8C0, si_ip6 = None, si_host = Some (widen ''host.local.''), si_port = 80,
      si_interface = 4, si_property_count = 2,
      si_keys = Some [Some (widen ''path''), Some (widen ''flag'')],
      si_values = Some [Some (widen ''/''), None]\<rparr>"

definition sample_win :: "nat win" where
  "sample_win =
     \<lparr>u16cstring = \<lambda>s. Inr (widen s),
      pwstr_text = \<lambda>w. (if utf8_valid (narrow w) then Some (narrow w) else None),
      DnsServiceBrowse = \<lambda>i q a e. ((9506, e), e + 1),
      DnsServiceResolve = \<lambda>i q a e. ((9506, e), e + 1),
      DnsServiceBrowseCancel = \<lambda>h e. e,
      await_resolve = \<lambda>a e. (Some (Some (0, Some sample_instance)), e)\<rparr>"

lemma narrow_widen: "narrow (widen s) = s"
proof -
  have "char_of (unat (word_of_nat (byte_val b) :: 16 word)) = b" for b
  proof -
    have less: "byte_val b < 65536" using byte_val_less [of b] by linarith
    have "unat (word_of_nat (byte_val b) :: 16 word) = byte_val b"
      using less
      by (simp add: unsigned_of_nat take_bit_nat_eq_self_iff)
    then show ?thesis by simp
  qed
  then show ?thesis by (simp add: narrow_def widen_def o_def)
qed

lemma sample_text: "utf8_valid s \<Longrightarrow> pwstr_to_string sample_win (Some (widen s)) = s"
  by (simp add: pwstr_to_string_def sample_win_def narrow_widen)

text \<open>The state after a browse of all types started, and a record list that names a type twice.\<close>

definition sample_started :: "nat win_state" where
  "sample_started = snd (win_browse_start sample_win None None None 0)"

definition sample_record :: "bytes \<Rightarrow> dns_record" where
  "sample_record s = \<lparr>dr_type = DNS_TYPE_PTR, dr_name_host = Some (widen s)\<rparr>"

lemma sample_started_eq:
  "sample_started =
   \<lparr>win_env = 1,
    browse_contexts = [0 \<mapsto> \<lparr>bc_is_meta = True, bc_interface = 0,
      bc_service_type = WIN_META_QUERY_TYPE, bc_domain = ''local'', bc_seen = {}\<rparr>],
    resolve_contexts = Map.empty, next_addr = 1,
    registry = [\<lparr>be_cancel = 0, be_context = 0\<rparr>], strong = 1, win_sent = [], win_traced = [],
    win_log = [BrowseCalled 0 (widen WIN_META_QUERY_TYPE) 0 DNS_REQUEST_PENDING 0]\<rparr>"
  by (simp add: sample_started_def win_browse_start_def start_browse_def call_browse_def sample_win_def
      box_context_def win_state_new_def log_event_def DNS_REQUEST_PENDING_def DEFAULT_DOMAIN_def Let_def)

lemma sample_started_inv: "win_inv sample_started" "strong sample_started = 1"
  using win_browse_start_inv [of sample_win None None None 0 "Inr ()" sample_started]
  by (simp_all add: sample_started_def win_browse_start_def start_browse_def call_browse_def sample_win_def
      box_context_def DNS_REQUEST_PENDING_def Let_def)

lemma sample_targets:
  "record_targets sample_win [sample_record ''_http._tcp.local.'', sample_record ''_http._tcp.local''] =
   [''_http._tcp.local'', ''_http._tcp.local'']"
  by (simp add: record_targets_def sample_record_def sample_text trim_dot_def trim_end_matches_def)

lemma sample_wide [simp]: "u16cstring sample_win s = Inr (widen s)"
  by (simp add: sample_win_def)

lemma sample_once:
  "win_resolve_once sample_win ''Printer'' ''_http._tcp'' ''local'' None (win_state_new 0) =
   Some (Inr (build_service sample_win sample_instance ''Printer'' ''_http._tcp'' ''local''),
     \<lparr>win_env = 1, browse_contexts = Map.empty, resolve_contexts = Map.empty, next_addr = 1,
      registry = [], strong = 1, win_sent = [], win_traced = [],
      win_log = [ResolveContextFreed 0, InstanceFreed]\<rparr>)"
  by (simp add: win_resolve_once_def sample_win_def box_resolve_def win_state_new_def
      DNS_REQUEST_PENDING_def resolve_once_callback_def reclaim_resolve_def once_result_def
      build_service_def read_txt_def log_event_def pwstr_to_string_def Let_def)

subsection \<open>Properties\<close>

text \<open>
  While the guard is alive a callback of an active browse never touches a freed context: it
  returns, every context that was there still is, and the rules for handles and contexts are kept.
\<close>

theorem win_callback_keeps_contexts:
  assumes "win_inv w" and "0 < strong w" and "a \<in> dom (browse_contexts w)"
  shows "\<exists>w'. win_browse_callback api status a rs w = Some w' \<and> win_inv w' \<and> strong w' = strong w \<and>
    dom (browse_contexts w) \<subseteq> dom (browse_contexts w')"
  using assms by (rule win_browse_callback_inv)

theorem win_callback_keeps_contexts_witness:
  "\<exists>w'. win_browse_callback sample_win 0 0 [sample_record ''_http._tcp.local.''] sample_started = Some w' \<and>
    win_inv w' \<and> strong w' = strong sample_started \<and>
    dom (browse_contexts sample_started) \<subseteq> dom (browse_contexts w')"
  by (rule win_callback_keeps_contexts [OF sample_started_inv(1)])
     (simp_all add: sample_started_inv sample_started_eq)

text \<open>
  Dropping the guard while no callback holds the registry cancels every browse, each exactly
  once and before its context is freed, and leaves no context behind.
\<close>

theorem win_guard_drop_frees_all:
  assumes "win_inv w" and "strong w = 1"
  shows "registry (guard_drop api w) = [] \<and> browse_contexts (guard_drop api w) = Map.empty \<and>
    browse_events (win_log (guard_drop api w)) ([], None) = Some ([], None)"
  using assms by (rule guard_drop_releases)

theorem win_guard_drop_frees_all_witness:
  "registry (guard_drop sample_win sample_started) = [] \<and>
   browse_contexts (guard_drop sample_win sample_started) = Map.empty \<and>
   browse_events (win_log (guard_drop sample_win sample_started)) ([], None) = Some ([], None)"
  by (rule win_guard_drop_frees_all [OF sample_started_inv])

text \<open>
  C28: The meta-query browses each type once: handling a list of records calls \<open>DnsServiceBrowse\<close>
  for the names it has not seen, each once, at its first mention and in order, on the interface of
  the meta-query (a name that has no wide form is only remembered). The browses the system accepted
  are registered, each with a context for the type and domain its name splits into; a refused one
  is not reported. All the names are remembered.
\<close>

theorem win_types_browsed_once:
  assumes "win_inv w" and "0 < strong w" and "browse_contexts w a = Some ctx" and "bc_is_meta ctx"
  shows "\<exists>w' es. handle_records api a rs w = Some w' \<and> win_inv w' \<and>
     browse_queries (win_log w') = browse_queries (win_log w) @
       queries_for api (bc_interface ctx) (fresh (bc_seen ctx) (record_targets api rs)) \<and>
     registry w' = registry w @ es \<and>
     list_all (\<lambda>en. browse_contexts w' (be_context en) \<in>
       (\<lambda>t. Some \<lparr>bc_is_meta = False, bc_interface = bc_interface ctx,
           bc_service_type = fst (split_target ctx t), bc_domain = snd (split_target ctx t),
           bc_seen = {}\<rparr>) ` set (fresh (bc_seen ctx) (record_targets api rs))) es \<and>
     win_sent w' = win_sent w \<and>
     browse_contexts w' a = Some (ctx\<lparr>bc_seen := bc_seen ctx \<union> set (record_targets api rs)\<rparr>) \<and>
     win_traced w' = win_traced w @ map (split_target ctx) (fresh (bc_seen ctx) (record_targets api rs))"
proof -
  from handle_records_meta [OF assms] obtain w' where w': "handle_records api a rs w = Some w'"
    and names: "browses_names api a ctx (record_targets api rs) w w'" by blast
  from names obtain es where "registry w' = registry w @ es"
    and "list_all (\<lambda>en. browse_contexts w' (be_context en) \<in>
      (\<lambda>t. Some (child_context ctx t)) ` set (fresh (bc_seen ctx) (record_targets api rs))) es"
    by (auto simp: browses_names_def)
  with w' names show ?thesis
    by (intro exI [of _ w'] exI [of _ es]) (simp add: browses_names_def child_context_def)
qed

theorem win_types_browsed_once_witness:
  "\<exists>w'. handle_records sample_win 0
      [sample_record ''_http._tcp.local.'', sample_record ''_http._tcp.local''] sample_started = Some w' \<and>
    browse_queries (win_log w') =
      [(0, widen WIN_META_QUERY_TYPE), (0, widen ''_http._tcp.local'')] \<and>
    win_traced w' = [(''_http._tcp'', ''local'')]"
proof -
  let ?rs = "[sample_record ''_http._tcp.local.'', sample_record ''_http._tcp.local'']"
  let ?ctx = "\<lparr>bc_is_meta = True, bc_interface = 0, bc_service_type = WIN_META_QUERY_TYPE,
    bc_domain = ''local'', bc_seen = {}\<rparr>"
  have split: "split_target ?ctx ''_http._tcp.local'' = (''_http._tcp'', ''local'')"
    using split_target_last_label [of "''local''" ?ctx "''_http._tcp''"] by simp
  have ctx: "browse_contexts sample_started 0 = Some ?ctx" by (simp add: sample_started_eq)
  have "0 < strong sample_started" "bc_is_meta ?ctx" by (simp_all add: sample_started_inv)
  from win_types_browsed_once [OF sample_started_inv(1) this(1) ctx this(2), of sample_win ?rs]
  show ?thesis
    by (auto simp: sample_targets split sample_started_eq browse_queries_def queries_for_def)
qed

text \<open>
  C27: A completed resolve is reported once, and truthfully: exactly when the status is zero and there
  is an instance, the message is the service found, under the label, type and domain the resolve was
  started for, with the host, port, addresses, TXT records and interface of the instance; otherwise it
  is the failure of that label with its status. The context is given back, the instance is freed
  exactly when there is one, and nothing else changes.
\<close>

theorem win_resolve_reports_once:
  assumes "resolve_contexts w a = Some rc"
  shows "\<exists>w'. win_resolve_callback api status a inst w = Some w' \<and>
    win_sent w' = win_sent w @ [
      case inst of
        Some i \<Rightarrow>
          if status = 0 then Inr (Found
            \<lparr>ds_name = rc_name rc, ds_service_type = rc_service_type rc, ds_domain = rc_domain rc,
             ds_host_name = trim_dot (pwstr_to_string api (si_host i)), ds_port = si_port i,
             ds_addresses = (case si_ip4 i of Some raw \<Rightarrow> [V4 (u32_from_be raw)] | None \<Rightarrow> []) @
               (case si_ip6 i of Some octets \<Rightarrow> [ipv6_from_octets octets] | None \<Rightarrow> []),
             ds_txt_records = read_txt api i, ds_interface_index = NonZeroU32_new (si_interface i)\<rparr>)
          else Inl (ResolveFailed (rc_name rc) (''resolve callback status '' @ show_u32 status))
      | None \<Rightarrow> Inl (ResolveFailed (rc_name rc) (''resolve callback status '' @ show_u32 status))] \<and>
    resolve_contexts w' = (resolve_contexts w)(a := None) \<and>
    browse_contexts w' = browse_contexts w \<and> registry w' = registry w \<and> strong w' = strong w \<and>
    win_env w' = win_env w \<and>
    win_log w' = win_log w @ ResolveContextFreed a # (if inst = None then [] else [InstanceFreed])"
  using win_resolve_callback_outcome [OF assms, of api status inst]
  by (auto simp: build_service_def split: option.splits)

theorem win_resolve_reports_once_witness:
  "\<exists>w'. win_resolve_callback sample_win 5 7 (Some sample_instance)
      (sample_started\<lparr>resolve_contexts := [7 \<mapsto> \<lparr>rc_name = ''Printer'',
         rc_service_type = ''_http._tcp'', rc_domain = ''local''\<rparr>]\<rparr>) = Some w' \<and>
    win_sent w' = [Inl (ResolveFailed ''Printer'' (''resolve callback status '' @ show_u32 5))] \<and>
    resolve_contexts w' 7 = None"
  using win_resolve_reports_once [of "sample_started\<lparr>resolve_contexts := [7 \<mapsto> \<lparr>rc_name = ''Printer'',
      rc_service_type = ''_http._tcp'', rc_domain = ''local''\<rparr>]\<rparr>" 7
      "\<lparr>rc_name = ''Printer'', rc_service_type = ''_http._tcp'', rc_domain = ''local''\<rparr>"
      sample_win 5 "Some sample_instance"]
  by (auto simp: sample_started_eq)

text \<open>
  C30: The label of an instance is recovered from its fully qualified name, dots in the label
  included, for every domain written without a trailing dot.
\<close>

theorem win_label_recovered:
  assumes "d \<noteq> []" and "last d \<noteq> CHR ''.''"
  shows "instance_label (trim_dot (full_instance_name l t d @ ''.'')) t d = l"
  using assms by (rule instance_label_of_target)

theorem win_label_recovered_witness:
  "instance_label (trim_dot (full_instance_name ''host.example'' ''_http._tcp'' ''local'' @ ''.''))
     ''_http._tcp'' ''local'' = ''host.example''"
  by (rule win_label_recovered) simp_all



text \<open>
  C34: A one-shot resolve leaves no context behind: when it returns, other than for a callback that
  was lost, the context it handed to the system has been taken back.
\<close>

theorem win_resolve_once_frees:
  assumes "resolve_contexts w (next_addr w) = None"
    and "win_resolve_once api n t d i w = Some (r, w')"
    and "r \<noteq> Inl (ResolveFailed n ''resolve completed without a result'')"
  shows "resolve_contexts w' = resolve_contexts w"
  using assms by (rule win_resolve_once_reclaims)

theorem win_resolve_once_frees_witness:
  "resolve_contexts \<lparr>win_env = 1 :: nat, browse_contexts = Map.empty, resolve_contexts = Map.empty, next_addr = 1,
      registry = [], strong = 1, win_sent = [], win_traced = [],
      win_log = [ResolveContextFreed 0, InstanceFreed]\<rparr> = resolve_contexts (win_state_new (0 :: nat))"
  by (rule win_resolve_once_frees [OF _ sample_once]) (simp_all add: win_state_new_def)

end
