(* ===== verification/Windows_System.thy ===== *)
theory Windows_System
  imports Windows_Properties
begin

text \<open>
  The Windows back-end as a system of threads: the callbacks of the active browses, run by the
  operating system on threads of its own, the completion callbacks of resolves, and the thread that
  owns the guard. A browse callback is cut where it takes or gives back a reference to the
  registry, since that is where other threads show.
\<close>

subsection \<open>A callback in pieces\<close>

text \<open>
  \<open>handle_ptr\<close> up to the point where it gives the registry back: whether it holds it, and the state
  by then.
\<close>

definition browse_child_begin :: "'e win \<Rightarrow> BrowseContext \<Rightarrow> bytes \<Rightarrow> 'e win_state \<Rightarrow> bool \<times> 'e win_state" where
  "browse_child_begin api ctx target w =
     (case split_target ctx target of (service_type, domain) \<Rightarrow>
        (let w = w\<lparr>win_traced := win_traced w @ [(service_type, domain)]\<rparr>
         in case upgrade_registry w of
              None \<Rightarrow> (False, w)
            | Some w \<Rightarrow>
                (True, snd (start_browse api target service_type domain (bc_interface ctx) False w))))"

definition handle_record_begin ::
  "'e win \<Rightarrow> heap_addr \<Rightarrow> dns_record \<Rightarrow> 'e win_state \<Rightarrow> (bool \<times> 'e win_state) option" where
  "handle_record_begin api a r w =
     (if dr_type r = DNS_TYPE_PTR then
        (let target = trim_dot (pwstr_to_string api (dr_name_host r)) in
         Option.bind (insert_seen a target w) (\<lambda>(new, ctx, w).
           if \<not> new then Some (False, w)
           else if bc_is_meta ctx then Some (browse_child_begin api ctx target w)
           else map_option (Pair False) (start_resolve api ctx target
                  (instance_label target (bc_service_type ctx) (bc_domain ctx)) w)))
      else Some (False, w))"

text \<open>The pieces are the whole: without another thread in between, they are \<open>handle_record\<close>.\<close>

lemma handle_record_pieces:
  "handle_record api a r w =
   map_option (\<lambda>(holding, w). if holding then release_registry api w else w)
     (handle_record_begin api a r w)"
proof -
  have child: "browse_child api ctx t w =
      (case browse_child_begin api ctx t w of (h, w) \<Rightarrow> if h then release_registry api w else w)"
    for ctx t and w :: "'a win_state"
    by (auto simp: browse_child_def browse_child_begin_def Let_def split: prod.splits option.splits)
  show ?thesis
  proof (cases "insert_seen a (trim_dot (pwstr_to_string api (dr_name_host r))) w")
    case None
    then show ?thesis by (simp add: handle_record_def handle_record_begin_def handle_ptr_def)
  next
    case (Some x)
    then show ?thesis
      by (cases x)
         (simp add: handle_record_def handle_record_begin_def handle_ptr_def child option.map_comp
          o_def option.map_ident Let_def split: prod.split)
  qed
qed

subsection \<open>The system\<close>

text \<open>
  A running browse callback: its context, whether it was given a list of records (a null pointer is
  no list), the records it has still to look at, and whether it holds a reference to the registry.
  What a step is about: a callback of an active browse enters, running callback \<open>i\<close> looks at its
  next record, gives the registry back or returns, a pending resolve completes, the guard is dropped.
\<close>

record win_frame =
  fr_context :: heap_addr
  fr_listed :: bool
  fr_records :: "dns_record list"
  fr_holds :: bool

record 'e win_system =
  ws_state :: "'e win_state"
  ws_guard :: bool
  ws_frames :: "win_frame list"

datatype win_action =
    CallbackEnters heap_addr u32 "dns_record list"
  | LooksAtRecord nat
  | ReleasesRegistry nat
  | CallbackReturns nat
  | ResolveCompletes heap_addr u32 "service_instance option"
  | GuardDropped

text \<open>
  The system calls back a browse whenever it has been accepted and has not been cancelled, and a
  resolve until it has completed: whether the context it was given is still there is not asked.
\<close>

inductive win_step :: "'e win \<Rightarrow> 'e win_system \<Rightarrow> win_action \<Rightarrow> 'e win_system \<Rightarrow> bool" for api where
  enter: "\<lbrakk> a \<in> snd ` set (active_browses (win_log (ws_state s)));
     w = (if status \<noteq> 0
          then win_send (Inl (BrowseFailed (''browse callback status '' @ show_u32 status))) (ws_state s)
          else ws_state s) \<rbrakk> \<Longrightarrow>
   win_step api s (CallbackEnters a status rs)
     (s\<lparr>ws_state := w,
        ws_frames := ws_frames s @
          [\<lparr>fr_context = a, fr_listed = (rs \<noteq> []), fr_records = rs, fr_holds = False\<rparr>]\<rparr>)"
| look: "\<lbrakk> i < length (ws_frames s); ws_frames s ! i = fr; \<not> fr_holds fr; fr_records fr = r # rs;
     handle_record_begin api (fr_context fr) r (ws_state s) = Some (holds, w) \<rbrakk> \<Longrightarrow>
   win_step api s (LooksAtRecord i)
     (s\<lparr>ws_state := w, ws_frames := (ws_frames s)[i := fr\<lparr>fr_records := rs, fr_holds := holds\<rparr>]\<rparr>)"
| release: "\<lbrakk> i < length (ws_frames s); ws_frames s ! i = fr; fr_holds fr \<rbrakk> \<Longrightarrow>
   win_step api s (ReleasesRegistry i)
     (s\<lparr>ws_state := release_registry api (ws_state s),
        ws_frames := (ws_frames s)[i := fr\<lparr>fr_holds := False\<rparr>]\<rparr>)"
| return: "\<lbrakk> i < length (ws_frames s); ws_frames s ! i = fr; \<not> fr_holds fr; fr_records fr = [] \<rbrakk> \<Longrightarrow>
   win_step api s (CallbackReturns i)
     (s\<lparr>ws_state := (if fr_listed fr then log_event RecordListFreed (ws_state s) else ws_state s),
        ws_frames := take i (ws_frames s) @ drop (Suc i) (ws_frames s)\<rparr>)"
| complete: "\<lbrakk> a \<in> dom (resolve_contexts (ws_state s));
     win_resolve_callback api status a inst (ws_state s) = Some w \<rbrakk> \<Longrightarrow>
   win_step api s (ResolveCompletes a status inst) (s\<lparr>ws_state := w\<rparr>)"
| drop_guard: "ws_guard s \<Longrightarrow>
   win_step api s GuardDropped
     (s\<lparr>ws_state := guard_drop api (ws_state s), ws_guard := False\<rparr>)"

text \<open>The system starts with a browse that started; the caller's strings are UTF-8.\<close>

definition win_init :: "'e win \<Rightarrow> 'e win_system \<Rightarrow> bool" where
  "win_init api s \<longleftrightarrow>
     (\<exists>ty dmn i e. win_browse_start api ty dmn i e = (Inr (), ws_state s) \<and>
        (\<forall>x \<in> set_option ty \<union> set_option dmn. utf8_valid x)) \<and>
     ws_guard s \<and> ws_frames s = []"

text \<open>A running callback is about to use its context, which is no longer there.\<close>

definition use_after_free :: "'e win_system \<Rightarrow> bool" where
  "use_after_free s \<longleftrightarrow>
     (\<exists>fr \<in> set (ws_frames s). \<not> fr_holds fr \<and>
        (\<exists>r rs. fr_records fr = r # rs \<and> dr_type r = DNS_TYPE_PTR) \<and>
        fr_context fr \<notin> dom (browse_contexts (ws_state s)))"

text \<open>The interleavings in which no callback runs while the guard is dropped.\<close>

definition quiet_drop :: "'e win_system \<Rightarrow> win_action \<Rightarrow> bool" where
  "quiet_drop s x \<longleftrightarrow> x = GuardDropped \<longrightarrow> ws_frames s = []"

text \<open>
  The interleavings in which cancelling a browse waits for its callbacks on other threads: the last
  reference is dropped by the guard only when no callback runs, and by a callback only when no other
  one does.
\<close>

definition cancel_waits :: "'e win_system \<Rightarrow> win_action \<Rightarrow> bool" where
  "cancel_waits s x \<longleftrightarrow>
     (case x of
        GuardDropped \<Rightarrow> strong (ws_state s) = 1 \<longrightarrow> ws_frames s = []
      | ReleasesRegistry i \<Rightarrow> strong (ws_state s) = 1 \<longrightarrow> length (ws_frames s) = 1
      | _ \<Rightarrow> True)"

subsection \<open>Safety\<close>

text \<open>
  The references to the registry are the guard's and those of the callbacks that hold it; while
  there is one, every running callback has its context; after the last, no browse is left.
\<close>

definition holders :: "'e win_system \<Rightarrow> nat" where
  "holders s = length (filter fr_holds (ws_frames s))"

definition win_system_inv :: "'e win_system \<Rightarrow> bool" where
  "win_system_inv s \<longleftrightarrow>
     win_inv (ws_state s) \<and> strong (ws_state s) = (if ws_guard s then 1 else 0) + holders s \<and>
     (\<forall>fr \<in> set (ws_frames s). fr_context fr \<in> dom (browse_contexts (ws_state s)) \<and> ws_guard s) \<and>
     (\<not> ws_guard s \<longrightarrow> registry (ws_state s) = [])"

lemma browse_child_begin_inv:
  assumes "win_inv w" and "0 < strong w" and "browse_child_begin api ctx t w = (holds, w')"
  shows "win_inv w' \<and> strong w' = strong w + (if holds then 1 else 0) \<and>
    dom (browse_contexts w) \<subseteq> dom (browse_contexts w')"
proof -
  obtain ty d where sp: "split_target ctx t = (ty, d)" by fastforce
  define w1 where "w1 = w\<lparr>win_traced := win_traced w @ [(ty, d)], strong := Suc (strong w)\<rparr>"
  obtain r w2 where sb: "start_browse api t ty d (bc_interface ctx) False w1 = (r, w2)" by fastforce
  have w2: "win_inv w2 \<and> browse_frame w1 w2"
    using assms(1) sb by (intro start_browse_inv) (simp_all add: w1_def)
  have "holds" and "w' = w2"
    using assms(2,3) sb by (simp_all add: browse_child_begin_def sp upgrade_registry_def flip: w1_def)
  moreover have "dom (browse_contexts w1) \<subseteq> dom (browse_contexts w2)"
    using w2 by (auto simp: browse_frame_def dest: map_le_implies_dom_le)
  ultimately show ?thesis using w2 by (simp add: browse_frame_def w1_def)
qed

lemma handle_record_begin_inv:
  assumes "win_inv w" and "0 < strong w" and "a \<in> dom (browse_contexts w)"
  shows "\<exists>holds w'. handle_record_begin api a r w = Some (holds, w') \<and> win_inv w' \<and>
    strong w' = strong w + (if holds then 1 else 0) \<and> dom (browse_contexts w) \<subseteq> dom (browse_contexts w')"
proof (cases "dr_type r = DNS_TYPE_PTR")
  case True
  define t where "t = trim_dot (pwstr_to_string api (dr_name_host r))"
  obtain new ctx w1 where ins: "insert_seen a t w = Some (new, ctx, w1)"
    using assms(3) by (auto simp: insert_seen_def Let_def)
  note w1 = insert_seen_inv [OF assms(1) ins]
  have first: "handle_record_begin api a r w =
      (if \<not> new then Some (False, w1)
       else if bc_is_meta ctx then Some (browse_child_begin api ctx t w1)
       else map_option (Pair False)
         (start_resolve api ctx t (instance_label t (bc_service_type ctx) (bc_domain ctx)) w1))"
    by (simp add: handle_record_begin_def True ins Let_def flip: t_def)
  obtain holds w2 where ch: "browse_child_begin api ctx t w1 = (holds, w2)" by fastforce
  obtain w3 where "start_resolve api ctx t (instance_label t (bc_service_type ctx) (bc_domain ctx)) w1 = Some w3"
      "win_inv w3" "resolve_frame w1 w3"
    using start_resolve_inv [OF w1(1)] by blast
  moreover have "0 < strong w1" using w1(2) assms(2) by simp
  note browse_child_begin_inv [OF w1(1) this ch]
  ultimately show ?thesis using w1 by (auto simp: first ch resolve_frame_def)
next
  case False
  with assms show ?thesis by (auto simp: handle_record_begin_def)
qed

lemma win_resolve_callback_frame:
  "win_resolve_callback api status a inst w = Some w' \<Longrightarrow>
   strong w' = strong w \<and> browse_contexts w' = browse_contexts w \<and> registry w' = registry w"
proof -
  assume run: "win_resolve_callback api status a inst w = Some w'"
  then obtain rc where rc: "resolve_contexts w a = Some rc"
    by (auto simp: win_resolve_callback_def reclaim_resolve_def)
  from run show ?thesis
    by (cases rule: win_resolve_callback_effect [OF rc, of status inst api])
       (auto split: if_splits)
qed

lemma win_init_inv: "win_init api s \<Longrightarrow> win_system_inv s"
  by (auto simp: win_init_def win_system_inv_def holders_def dest: win_browse_start_inv)

text \<open>A frame that is updated keeps its context.\<close>

lemma frame_contexts:
  assumes "i < length fs" and "fr_context fr' = fr_context (fs ! i)"
  shows "fr_context ` set (fs[i := fr']) \<subseteq> fr_context ` set fs"
proof
  fix a
  assume "a \<in> fr_context ` set (fs[i := fr'])"
  then obtain f where "f \<in> insert fr' (set fs)" "a = fr_context f"
    by (auto dest!: set_update_subset_insert [THEN subsetD])
  with assms nth_mem [OF assms(1)] show "a \<in> fr_context ` set fs" by (auto intro: image_eqI)
qed

lemma win_system_inv_frames:
  "win_system_inv s \<longleftrightarrow>
     win_inv (ws_state s) \<and> strong (ws_state s) = (if ws_guard s then 1 else 0) + holders s \<and>
     fr_context ` set (ws_frames s) \<subseteq> dom (browse_contexts (ws_state s)) \<and>
     (ws_frames s \<noteq> [] \<longrightarrow> ws_guard s) \<and> (\<not> ws_guard s \<longrightarrow> registry (ws_state s) = [])"
proof -
  have "(\<forall>fr \<in> set (ws_frames s). fr_context fr \<in> D \<and> ws_guard s) \<longleftrightarrow>
      fr_context ` set (ws_frames s) \<subseteq> D \<and> (ws_frames s \<noteq> [] \<longrightarrow> ws_guard s)" for D
    by (cases "ws_guard s"; cases "ws_frames s"; auto)
  then show ?thesis unfolding win_system_inv_def by simp
qed

lemma win_look_inv:
  assumes inv: "win_system_inv s" and i: "i < length (ws_frames s)" and holds: "\<not> fr_holds (ws_frames s ! i)"
    and run: "handle_record_begin api (fr_context (ws_frames s ! i)) r (ws_state s) = Some (h, w)"
  shows "win_system_inv (s\<lparr>ws_state := w,
    ws_frames := (ws_frames s)[i := (ws_frames s ! i)\<lparr>fr_records := rs, fr_holds := h\<rparr>]\<rparr>)"
    (is "win_system_inv ?s'")
proof -
  have ctx: "fr_context ` set (ws_frames s) \<subseteq> dom (browse_contexts (ws_state s))" and g: "ws_guard s"
    using inv i by (auto simp: win_system_inv_frames)
  then have a: "fr_context (ws_frames s ! i) \<in> dom (browse_contexts (ws_state s))" using nth_mem [OF i] by blast
  have "0 < strong (ws_state s)" using inv g by (simp add: win_system_inv_def)
  from handle_record_begin_inv [OF _ this a, of api r] inv run
  have w: "win_inv w" "strong w = strong (ws_state s) + (if h then 1 else 0)"
    "dom (browse_contexts (ws_state s)) \<subseteq> dom (browse_contexts w)"
    by (auto simp: win_system_inv_def)
  have "holders ?s' = holders s + (if h then 1 else 0)"
    using i holds by (simp add: holders_def count_update_gain)
  moreover have "fr_context ` set (ws_frames ?s') \<subseteq> dom (browse_contexts w)"
    using frame_contexts [OF i, of "(ws_frames s ! i)\<lparr>fr_records := rs, fr_holds := h\<rparr>"] ctx w(3)
    by simp
  ultimately show ?thesis using w(1,2) inv g by (simp add: win_system_inv_frames)
qed

lemma win_release_inv:
  assumes inv: "win_system_inv s" and i: "i < length (ws_frames s)" and holds: "fr_holds (ws_frames s ! i)"
  shows "win_system_inv (s\<lparr>ws_state := release_registry api (ws_state s),
    ws_frames := (ws_frames s)[i := (ws_frames s ! i)\<lparr>fr_holds := False\<rparr>]\<rparr>)"
    (is "win_system_inv ?s'")
proof -
  have ctx: "fr_context ` set (ws_frames s) \<subseteq> dom (browse_contexts (ws_state s))" and g: "ws_guard s"
    using inv i by (auto simp: win_system_inv_frames)
  have h: "Suc (holders ?s') = holders s" using i holds by (simp add: holders_def count_update_lose)
  then have "1 < strong (ws_state s)" using inv g by (simp add: win_system_inv_def)
  moreover have "fr_context ` set (ws_frames ?s') \<subseteq> dom (browse_contexts (ws_state s))"
    using frame_contexts [OF i, of "(ws_frames s ! i)\<lparr>fr_holds := False\<rparr>"] ctx by simp
  ultimately show ?thesis using h inv g by (simp add: win_system_inv_frames release_registry_shared)
qed

lemma win_step_inv:
  assumes inv: "win_system_inv s" and "quiet_drop s x" and step: "win_step api s x s'"
  shows "win_system_inv s'"
  using step
proof (cases rule: win_step.cases)
  case (enter a w status rs)
  have a: "a \<in> dom (browse_contexts (ws_state s))"
    using enter(3) inv active_contexts [of "ws_state s"] by (simp add: win_system_inv_def)
  then have "ws_guard s" using inv by (auto simp: win_system_inv_def win_inv_def)
  with enter inv a show ?thesis
    by (auto simp: win_system_inv_def holders_def simp del: win_send_def)
next
  case (look i fr r rs h w)
  with win_look_inv [OF inv, of i api r h w rs] show ?thesis by simp
next
  case (release i fr)
  with win_release_inv [OF inv, of i api] show ?thesis by simp
next
  case (return i fr)
  have "holders s' = holders s"
    using return(2-5) count_remove [of i "ws_frames s" fr_holds] by (simp add: holders_def)
  then show ?thesis
    using inv return(2)
    by (auto simp: win_system_inv_def win_inv_neutral dest: in_set_takeD in_set_dropD)
next
  case (complete a status inst w)
  then show ?thesis
    using inv win_resolve_callback_frame [OF complete(4)] win_resolve_callback_inv [OF _ complete(4)]
    by (simp add: win_system_inv_def holders_def)
next
  case drop_guard
  then have frames: "ws_frames s = []" using assms(2) by (simp add: quiet_drop_def)
  then have one: "strong (ws_state s) = 1"
    using inv drop_guard(3) by (simp add: win_system_inv_def holders_def)
  then show ?thesis
    using drop_guard(2) frames inv release_registry_inv [of "ws_state s" api]
      release_registry_last [OF one, of api]
    by (simp add: win_system_inv_def holders_def guard_drop_def)
qed

interpretation win_threads: transition_system "win_init api" "win_step api" quiet_drop win_system_inv for api
  by unfold_locales (fact win_init_inv, fact win_step_inv)

lemma win_inv_safe:
  assumes "win_system_inv s"
  shows "\<not> use_after_free s"
    and "list_all (\<lambda>b. snd b \<in> dom (browse_contexts (ws_state s))) (active_browses (win_log (ws_state s)))"
    and "list_all (\<lambda>fr. fr_context fr \<in> dom (browse_contexts (ws_state s))) (ws_frames s)"
proof -
  have "win_inv (ws_state s)" using assms by (simp add: win_system_inv_def)
  from active_contexts [OF this]
  show "list_all (\<lambda>b. snd b \<in> dom (browse_contexts (ws_state s))) (active_browses (win_log (ws_state s)))"
    unfolding list_all_iff by (metis image_eqI)
  show "list_all (\<lambda>fr. fr_context fr \<in> dom (browse_contexts (ws_state s))) (ws_frames s)"
    using assms by (simp add: win_system_inv_def list_all_iff)
  show "\<not> use_after_free s" using assms by (auto simp: win_system_inv_def use_after_free_def)
qed

lemma win_inv_progress:
  assumes "win_system_inv s" and "i < length (ws_frames s)" and "\<not> fr_holds (ws_frames s ! i)"
    and "fr_records (ws_frames s ! i) = r # rs"
  shows "\<exists>s'. win_step api s (LooksAtRecord i) s'"
proof -
  have fr: "ws_frames s ! i \<in> set (ws_frames s)" using assms(2) by simp
  with assms(1) have "win_inv (ws_state s)" "0 < strong (ws_state s)"
    "fr_context (ws_frames s ! i) \<in> dom (browse_contexts (ws_state s))"
    by (auto simp: win_system_inv_def)
  from handle_record_begin_inv [OF this] obtain holds w where
    "handle_record_begin api (fr_context (ws_frames s ! i)) r (ws_state s) = Some (holds, w)" by blast
  with assms show ?thesis by (blast intro: win_step.look)
qed

lemma win_inv_stopped:
  assumes "win_system_inv s" and "\<not> ws_guard s"
  shows "browse_contexts (ws_state s) = Map.empty \<and>
    browse_events (win_log (ws_state s)) ([], None) = Some ([], None)"
  using assms by (auto simp: win_system_inv_def win_inv_def)
subsection \<open>Properties\<close>

text \<open>
  C4: No callback ever reaches a freed context, over all interleavings of callbacks, resolves and
  the guard in which the guard is not dropped while a browse callback runs: the system may enter the
  callback of any browse it accepted and that was not cancelled, and the context of each of these is
  there, as is the one of each running callback; and each running callback can always look at its
  next record.
\<close>

theorem win_threads_memory_safe:
  assumes "reachable (win_init api) (win_step api) quiet_drop s"
  shows "\<not> use_after_free s \<and>
    list_all (\<lambda>b. snd b \<in> dom (browse_contexts (ws_state s))) (active_browses (win_log (ws_state s))) \<and>
    list_all (\<lambda>fr. fr_context fr \<in> dom (browse_contexts (ws_state s))) (ws_frames s) \<and>
    list_all (\<lambda>i. fr_holds (ws_frames s ! i) \<or> fr_records (ws_frames s ! i) = [] \<or>
        (\<exists>s'. win_step api s (LooksAtRecord i) s')) [0..<length (ws_frames s)]"
proof -
  have inv: "win_system_inv s" using assms by (rule win_threads.reachable_invar)
  have "fr_holds (ws_frames s ! i) \<or> fr_records (ws_frames s ! i) = [] \<or>
      (\<exists>s'. win_step api s (LooksAtRecord i) s')" if "i < length (ws_frames s)" for i
    using win_inv_progress [OF inv that] by (meson list.exhaust)
  with win_inv_safe [OF inv] show ?thesis by (simp add: list_all_iff)
qed

definition sample_init :: "nat win_system" where
  "sample_init = \<lparr>ws_state = sample_started, ws_guard = True, ws_frames = []\<rparr>"

definition sample_records :: "dns_record list" where
  "sample_records = [sample_record ''_http._tcp.local.'', sample_record ''_ipp._tcp.local.'']"

lemma sample_init: "win_init sample_win sample_init"
proof -
  have "win_browse_start sample_win None None None 0 = (Inr (), sample_started)"
    by (simp add: sample_started_def win_browse_start_def start_browse_def call_browse_def sample_win_def
        box_context_def DNS_REQUEST_PENDING_def Let_def)
  moreover have "\<forall>x \<in> set_option None \<union> set_option None. utf8_valid x" by simp
  ultimately show ?thesis unfolding win_init_def sample_init_def win_system.select_convs by blast
qed

text \<open>A callback of the meta-query has entered, and after it has looked at its first record.\<close>

definition sample_entered :: "nat win_system" where
  "sample_entered = sample_init
     \<lparr>ws_frames := [\<lparr>fr_context = 0, fr_listed = True, fr_records = sample_records, fr_holds = False\<rparr>]\<rparr>"

definition sample_looked :: "nat win_system" where
  "sample_looked =
     \<lparr>ws_state = snd (the (handle_record_begin sample_win 0 (sample_record ''_http._tcp.local.'') sample_started)),
      ws_guard = True,
      ws_frames = [\<lparr>fr_context = 0, fr_listed = True, fr_records = [sample_record ''_ipp._tcp.local.''], fr_holds = True\<rparr>]\<rparr>"

lemma sample_enters: "win_step sample_win sample_init (CallbackEnters 0 0 sample_records) sample_entered"
proof -
  have "win_step sample_win sample_init (CallbackEnters 0 0 sample_records)
    (sample_init\<lparr>ws_state := ws_state sample_init,
       ws_frames := ws_frames sample_init @ [\<lparr>fr_context = 0, fr_listed = True, fr_records = sample_records, fr_holds = False\<rparr>]\<rparr>)"
    using win_step.enter [of 0 sample_init "ws_state sample_init" 0 sample_win sample_records]
    by (simp add: sample_init_def sample_started_eq active_browses_def sample_records_def)
  then show ?thesis by (simp add: sample_entered_def sample_init_def)
qed

lemma sample_begin:
  "handle_record_begin sample_win 0 (sample_record ''_http._tcp.local.'') sample_started =
   Some (True, ws_state sample_looked)"
  "strong (ws_state sample_looked) = 2" "win_inv (ws_state sample_looked)"
proof -
  obtain holds w where run: "handle_record_begin sample_win 0 (sample_record ''_http._tcp.local.'')
      sample_started = Some (holds, w)" "strong w = 1 + (if holds then 1 else 0)" "win_inv w"
    using handle_record_begin_inv [OF sample_started_inv(1), of 0 sample_win "sample_record ''_http._tcp.local.''"]
    by (auto simp: sample_started_eq)
  moreover have "holds"
    using run(1)
    by (auto simp: handle_record_begin_def sample_record_def insert_seen_def sample_started_eq
        browse_child_begin_def upgrade_registry_def Let_def split: prod.splits)
  ultimately show "handle_record_begin sample_win 0 (sample_record ''_http._tcp.local.'') sample_started =
      Some (True, ws_state sample_looked)" "strong (ws_state sample_looked) = 2"
      "win_inv (ws_state sample_looked)"
    by (simp_all add: sample_looked_def)
qed

lemma sample_looks: "win_step sample_win sample_entered (LooksAtRecord 0) sample_looked"
proof -
  let ?fr = "\<lparr>fr_context = 0, fr_listed = True, fr_records = sample_records, fr_holds = False\<rparr>"
  have "win_step sample_win sample_entered (LooksAtRecord 0)
    (sample_entered\<lparr>ws_state := ws_state sample_looked,
       ws_frames := (ws_frames sample_entered)[0 := ?fr\<lparr>fr_records := [sample_record ''_ipp._tcp.local.''],
         fr_holds := True\<rparr>]\<rparr>)"
    by (rule win_step.look [where r = "sample_record ''_http._tcp.local.''"])
       (simp_all add: sample_entered_def sample_init_def sample_records_def sample_begin)
  then show ?thesis by (simp add: sample_entered_def sample_init_def sample_looked_def)
qed

lemma sample_reaches:
  assumes "\<And>s a x r. allowed s (CallbackEnters a x r)" and "\<And>s i. allowed s (LooksAtRecord i)"
  shows "reachable (win_init sample_win) (win_step sample_win) allowed sample_looked"
proof -
  have "reachable (win_init sample_win) (win_step sample_win) allowed sample_init"
    by (rule reachable.start) (rule sample_init)
  from this assms(1) sample_enters
  have "reachable (win_init sample_win) (win_step sample_win) allowed sample_entered"
    by (rule reachable.move)
  from this assms(2) sample_looks show ?thesis by (rule reachable.move)
qed

lemma sample_reached: "reachable (win_init sample_win) (win_step sample_win) quiet_drop sample_looked"
  and sample_waits: "reachable (win_init sample_win) (win_step sample_win) cancel_waits sample_looked"
  by (rule sample_reaches; simp add: quiet_drop_def cancel_waits_def)+

theorem win_threads_memory_safe_witness:
  "\<not> use_after_free sample_looked \<and> fr_context (hd (ws_frames sample_looked)) \<in>
     dom (browse_contexts (ws_state sample_looked))"
  using win_threads_memory_safe [OF sample_reached] by (simp add: sample_looked_def)

text \<open>
  C9: Once the guard has been dropped, with no callback running, nothing is left: every browse that
  was started, by the caller or by a callback, has been cancelled exactly once and before its
  context was freed, whatever happened before the drop and whatever completes after it.
\<close>

theorem win_threads_stop_clean:
  assumes "reachable (win_init api) (win_step api) quiet_drop s" and "\<not> ws_guard s"
  shows "browse_contexts (ws_state s) = Map.empty \<and> registry (ws_state s) = [] \<and> ws_frames s = [] \<and>
    browse_events (win_log (ws_state s)) ([], None) = Some ([], None)"
proof -
  have inv: "win_system_inv s" using assms(1) by (rule win_threads.reachable_invar)
  with assms(2) have "ws_frames s = []" "registry (ws_state s) = []"
    by (auto simp: win_system_inv_def list.set_intros intro: ccontr dest: hd_in_set)
  with win_inv_stopped [OF inv assms(2)] show ?thesis by simp
qed

theorem win_threads_stop_clean_witness:
  "browse_contexts (guard_drop sample_win sample_started) = Map.empty \<and>
   registry (guard_drop sample_win sample_started) = []"
proof -
  have "win_step sample_win sample_init GuardDropped
      (sample_init\<lparr>ws_state := guard_drop sample_win (ws_state sample_init), ws_guard := False\<rparr>)"
    by (rule win_step.drop_guard) (simp_all add: sample_init_def)
  moreover have "reachable (win_init sample_win) (win_step sample_win) quiet_drop sample_init"
    by (rule reachable.start) (rule sample_init)
  ultimately have "reachable (win_init sample_win) (win_step sample_win) quiet_drop
      (sample_init\<lparr>ws_state := guard_drop sample_win (ws_state sample_init), ws_guard := False\<rparr>)"
    by (rule reachable.move [rotated 2]) (simp add: quiet_drop_def sample_init_def)
  from win_threads_stop_clean [OF this] show ?thesis by (simp add: sample_init_def)
qed

text \<open>
  C10: Without that restriction the rule is broken, even where cancelling a browse waits for its
  callbacks on other threads: when the guard is dropped while a callback of the meta-query holds the
  registry to start a child browse, that callback drops the last reference, frees its own context
  and goes on to its next record with it.
\<close>

theorem win_guard_drop_race:
  "\<exists>s fr r rs. reachable (win_init sample_win) (win_step sample_win) cancel_waits s \<and>
     use_after_free s \<and> ws_frames s = [fr] \<and> fr_records fr = r # rs \<and>
     handle_record sample_win (fr_context fr) r (ws_state s) = None"
proof -
  define w1 where "w1 = (ws_state sample_looked)\<lparr>strong := 1\<rparr>"
  define w2 where "w2 = release_registry sample_win w1"
  define fr where "fr = \<lparr>fr_context = 0, fr_listed = True, fr_records = [sample_record ''_ipp._tcp.local.''], fr_holds = True\<rparr>"
  have s0: "ws_guard sample_looked" "ws_frames sample_looked = [fr]"
    by (simp_all add: sample_looked_def fr_def)
  have w1: "guard_drop sample_win (ws_state sample_looked) = w1"
    using sample_begin(2) by (simp add: w1_def guard_drop_def release_registry_shared)
  have "win_inv w2" "registry w2 = []"
    using release_registry_inv [of w1 sample_win] release_registry_last [of w1 sample_win] sample_begin(3)
    by (simp_all add: w1_def w2_def)
  then have gone: "browse_contexts w2 = Map.empty" by (simp add: win_inv_def)
  have dropped: "win_step sample_win sample_looked GuardDropped
      (sample_looked\<lparr>ws_state := w1, ws_guard := False\<rparr>)"
    unfolding w1 [symmetric] by (rule win_step.drop_guard) (simp_all add: s0 sample_begin(2))
  let ?s1 = "sample_looked\<lparr>ws_state := w1, ws_guard := False\<rparr>"
  have released: "win_step sample_win ?s1 (ReleasesRegistry 0)
      (?s1\<lparr>ws_state := release_registry sample_win (ws_state ?s1),
         ws_frames := (ws_frames ?s1)[0 := fr\<lparr>fr_holds := False\<rparr>]\<rparr>)"
    by (rule win_step.release) (simp_all add: s0 fr_def)
  let ?s2 = "?s1\<lparr>ws_state := w2, ws_frames := [fr\<lparr>fr_holds := False\<rparr>]\<rparr>"
  from reachable.move [OF sample_waits _ dropped]
  have "reachable (win_init sample_win) (win_step sample_win) cancel_waits ?s1"
    by (simp add: cancel_waits_def sample_begin(2) eval_nat_numeral)
  from reachable.move [OF this _ released]
  have "reachable (win_init sample_win) (win_step sample_win) cancel_waits ?s2"
    by (simp add: s0 w2_def cancel_waits_def)
  moreover have "use_after_free ?s2"
    by (simp add: use_after_free_def gone fr_def sample_record_def)
  moreover have "handle_record sample_win 0 (sample_record ''_ipp._tcp.local.'') w2 = None"
    by (simp add: handle_record_def handle_ptr_def insert_seen_def gone sample_record_def)
  ultimately show ?thesis
    by (intro exI [of _ ?s2] exI [of _ "fr\<lparr>fr_holds := False\<rparr>"]
        exI [of _ "sample_record ''_ipp._tcp.local.''"] exI [of _ "[]"] conjI)
       (simp_all add: fr_def)
qed

end
