(* ===== verification/Windows_Events.thy ===== *)
theory Windows_Events
  imports Windows_System
begin

text \<open>
  What the callbacks of the Windows back-end send, in every interleaving: found services and errors,
  never a removal.
\<close>

subsection \<open>What a step sends\<close>

text \<open>Nothing is taken back from the channel, and no service is ever reported as removed.\<close>

definition is_removal :: "event_result \<Rightarrow> bool" where
  "is_removal m \<longleftrightarrow> (case m of Inr (Removed r) \<Rightarrow> True | _ \<Rightarrow> False)"

definition only_adds :: "'e win_state \<Rightarrow> 'e win_state \<Rightarrow> bool" where
  "only_adds w w' \<longleftrightarrow> (\<exists>ms. win_sent w' = win_sent w @ ms \<and> \<not> list_ex is_removal ms)"

lemma only_adds_same: "win_sent w' = win_sent w \<Longrightarrow> only_adds w w'"
  by (simp add: only_adds_def)

lemma only_adds_one: "win_sent w' = win_sent w @ [m] \<Longrightarrow> \<not> is_removal m \<Longrightarrow> only_adds w w'"
  by (auto simp: only_adds_def)

lemma start_browse_sent: "start_browse api q t d i m w = (r, w') \<Longrightarrow> win_sent w' = win_sent w"
  by (auto simp: start_browse_def call_browse_def box_context_def free_context_def split: sum.splits prod.splits if_splits)

lemma release_sent: "win_sent (release_registry api w) = win_sent w"
proof -
  have "win_sent (fold (drop_entry api) es w) = win_sent w" for es and w :: "'a win_state"
    by (induction es arbitrary: w) (simp_all add: drop_entry_def free_context_def)
  then show ?thesis by (simp add: release_registry_def Let_def)
qed

lemma start_resolve_adds: "start_resolve api ctx full l w = Some w' \<Longrightarrow> only_adds w w'"
  by (auto simp: start_resolve_def box_resolve_def reclaim_resolve_def is_removal_def
      intro: only_adds_same only_adds_one split: sum.splits prod.splits if_splits)

lemma callback_adds: "win_resolve_callback api status a inst w = Some w' \<Longrightarrow> only_adds w w'"
proof -
  assume run: "win_resolve_callback api status a inst w = Some w'"
  then obtain rc where rc: "resolve_contexts w a = Some rc"
    by (auto simp: win_resolve_callback_def reclaim_resolve_def)
  from run show "only_adds w w'"
    by (cases rule: win_resolve_callback_effect [OF rc, of status inst api])
       (auto simp: is_removal_def intro!: only_adds_one)
qed

lemma child_begin_sent: "browse_child_begin api ctx t w = (h, w') \<Longrightarrow> win_sent w' = win_sent w"
proof -
  assume run: "browse_child_begin api ctx t w = (h, w')"
  obtain ty d where sp: "split_target ctx t = (ty, d)" by fastforce
  define w1 where "w1 = w\<lparr>win_traced := win_traced w @ [(ty, d)], strong := Suc (strong w)\<rparr>"
  obtain r w2 where sb: "start_browse api t ty d (bc_interface ctx) False w1 = (r, w2)" by fastforce
  have "w' = w\<lparr>win_traced := win_traced w @ [(ty, d)]\<rparr> \<or> w' = w2"
    using run sb by (cases "strong w = 0") (simp_all add: browse_child_begin_def sp upgrade_registry_def flip: w1_def)
  then show "win_sent w' = win_sent w" using start_browse_sent [OF sb] by (auto simp: w1_def)
qed

lemma record_begin_adds:
  assumes "handle_record_begin api a r w = Some (h, w')"
  shows "only_adds w w'"
proof (cases "dr_type r = DNS_TYPE_PTR")
  case True
  define t where "t = trim_dot (pwstr_to_string api (dr_name_host r))"
  from assms True obtain new ctx w1 where ins: "insert_seen a t w = Some (new, ctx, w1)"
    by (cases "insert_seen a t w") (auto simp: handle_record_begin_def Let_def simp flip: t_def)
  then have same: "win_sent w1 = win_sent w" by (auto simp: insert_seen_def Let_def)
  consider "w' = w1" | "browse_child_begin api ctx t w1 = (h, w')"
    | "start_resolve api ctx t (instance_label t (bc_service_type ctx) (bc_domain ctx)) w1 = Some w'"
    using assms True
    by (auto simp: handle_record_begin_def ins Let_def simp flip: t_def split: if_splits)
  then show ?thesis
  proof cases
    case 1
    with same show ?thesis by (simp add: only_adds_same)
  next
    case 2
    from child_begin_sent [OF 2] same show ?thesis by (simp add: only_adds_same)
  next
    case 3
    from start_resolve_adds [OF 3] same show ?thesis by (simp add: only_adds_def)
  qed
next
  case False
  with assms show ?thesis by (simp add: handle_record_begin_def only_adds_same)
qed

lemma win_step_adds: "win_step api s x s' \<Longrightarrow> only_adds (ws_state s) (ws_state s')"
  by (erule win_step.cases)
     (auto simp: guard_drop_def release_sent is_removal_def intro: only_adds_same only_adds_one
      record_begin_adds callback_adds)

text \<open>A browse that starts has sent nothing.\<close>

lemma win_browse_start_run:
  assumes "win_browse_start api ty dmn i e = (r, w)"
  obtains q j r1 w1 where
    "start_browse api q (case ty of Some t \<Rightarrow> t | None \<Rightarrow> WIN_META_QUERY_TYPE)
       (case dmn of Some d \<Rightarrow> d | None \<Rightarrow> DEFAULT_DOMAIN) j (ty = None) (win_state_new e) = (r1, w1)"
    "w = (case r1 of Inl err \<Rightarrow> release_registry api w1 | Inr x \<Rightarrow> w1)"
proof -
  define d where "d = (case dmn of Some d \<Rightarrow> d | None \<Rightarrow> DEFAULT_DOMAIN)"
  define t where "t = (case ty of Some t \<Rightarrow> t | None \<Rightarrow> WIN_META_QUERY_TYPE)"
  define q where "q = (case ty of Some t \<Rightarrow> t @ ''.'' @ d | None \<Rightarrow> WIN_META_QUERY_TYPE)"
  define j where "j = (case i of Some i \<Rightarrow> i | None \<Rightarrow> 0)"
  obtain r1 w1 where sb: "start_browse api q t d j (ty = None) (win_state_new e) = (r1, w1)" by fastforce
  moreover have "w = (case r1 of Inl err \<Rightarrow> release_registry api w1 | Inr x \<Rightarrow> w1)"
    using assms sb
    by (cases ty) (auto simp: win_browse_start_def q_def t_def d_def j_def Let_def split: sum.splits)
  ultimately show ?thesis using that unfolding t_def d_def by blast
qed

lemma win_init_sent:
  assumes "win_init api s"
  shows "win_sent (ws_state s) = []"
proof -
  from assms obtain ty dmn i e where "win_browse_start api ty dmn i e = (Inr (), ws_state s)"
    unfolding win_init_def by blast
  then show ?thesis
    by (rule win_browse_start_run) (auto simp: release_sent win_state_new_def dest!: start_browse_sent split: sum.split)
qed

interpretation win_arrivals: transition_system "win_init api" "win_step api" "\<lambda>_ _. True"
  "\<lambda>s. \<not> list_ex is_removal (win_sent (ws_state s))" for api
  by unfold_locales (auto simp: win_init_sent only_adds_def dest!: win_step_adds)

subsection \<open>Properties\<close>

text \<open>
  C18: On Windows no service is ever reported as removed, as the README says: in every interleaving of
  callbacks, completions and the guard, what is sent are found services and errors.
\<close>

theorem win_never_removes:
  assumes "reachable (win_init api) (win_step api) (\<lambda>_ _. True) s"
  shows "\<not> list_ex (\<lambda>m. case m of Inr (Removed r) \<Rightarrow> True | _ \<Rightarrow> False) (win_sent (ws_state s))"
  using win_arrivals.reachable_invar [OF assms] by (simp add: is_removal_def [abs_def])

text \<open>A browse callback is entered with an error status, and another one after it.\<close>

definition sample_failing :: "nat \<Rightarrow> nat win_system" where
  "sample_failing n = ((\<lambda>s. s
     \<lparr>ws_state := win_send (Inl (BrowseFailed (''browse callback status '' @ show_u32 5))) (ws_state s),
       ws_frames := ws_frames s @ [\<lparr>fr_context = 0, fr_listed = False, fr_records = [], fr_holds = False\<rparr>]\<rparr>) ^^ n) sample_init"

lemma sample_failing_0: "sample_failing 0 = sample_init"
  by (simp add: sample_failing_def)

lemma sample_failing_state:
  "browse_contexts (ws_state (sample_failing n)) = browse_contexts sample_started"
  "win_sent (ws_state (sample_failing n)) =
     replicate n (Inl (BrowseFailed (''browse callback status '' @ show_u32 5)))"
  "win_log (ws_state (sample_failing n)) = win_log sample_started"
  by (induction n) (simp_all add: sample_failing_def sample_init_def sample_started_eq win_send_def replicate_append_same)

lemma sample_fails: "win_step sample_win (sample_failing n) (CallbackEnters 0 5 []) (sample_failing (Suc n))"
proof -
  have "win_step sample_win (sample_failing n) (CallbackEnters 0 5 [])
    (sample_failing n\<lparr>ws_state := win_send (Inl (BrowseFailed (''browse callback status '' @ show_u32 5)))
        (ws_state (sample_failing n)),
      ws_frames := ws_frames (sample_failing n) @ [\<lparr>fr_context = 0, fr_listed = False, fr_records = [], fr_holds = False\<rparr>]\<rparr>)"
    using win_step.enter [of 0 "sample_failing n" "win_send (Inl (BrowseFailed (''browse callback status '' @ show_u32 5)))
        (ws_state (sample_failing n))" 5 sample_win "[]"]
    by (simp add: sample_failing_state sample_started_eq active_browses_def)
  then show ?thesis by (simp add: sample_failing_def)
qed

lemma sample_failing_from:
  "init (sample_failing n) \<Longrightarrow> reachable init (win_step sample_win) (\<lambda>_ _. True) (sample_failing (n + k))"
proof (induction k)
  case (Suc k)
  then have "reachable init (win_step sample_win) (\<lambda>_ _. True) (sample_failing (n + k))" by simp
  from this TrueI sample_fails show ?case unfolding add_Suc_right by (rule reachable.move)
qed (simp add: reachable.start)

theorem win_never_removes_witness:
  "\<not> list_ex (\<lambda>m. case m of Inr (Removed r) \<Rightarrow> True | _ \<Rightarrow> False) (win_sent (ws_state (sample_failing 2)))"
  by (rule win_never_removes [OF sample_failing_from [of "win_init sample_win" 0 2, unfolded add_0 sample_failing_0,
        OF sample_init]])

end
