(* ===== verification/Unit_Tests.thy ===== *)
theory Unit_Tests
  imports Mac_Names Linux Windows
begin

text \<open>
  The unit tests of the crate, read over the model: one predicate per \<open>#[test]\<close> function, the
  conjunction of its assertions. They tie the definitions to what the repository itself expects of
  the code.
\<close>

text \<open>\<open>Debug\<close> of an ASCII string, which needs no table of printable characters.\<close>

definition hex_digit :: "nat \<Rightarrow> byte" where
  "hex_digit n = char_of (if n < 10 then 48 + n else 87 + n)"

definition debug_char :: "byte \<Rightarrow> bytes" where
  "debug_char c =
     (let n = byte_val c in
      if n = 0 then [CHR 0x5C, CHR ''0'']
      else if n = 9 then [CHR 0x5C, CHR ''t'']
      else if n = 10 then [CHR 0x5C, CHR ''n'']
      else if n = 13 then [CHR 0x5C, CHR ''r'']
      else if n = 34 \<or> n = 92 then [CHR 0x5C, c]
      else if n < 32 \<or> n = 127 then
        [CHR 0x5C, CHR ''u'', CHR 0x7B] @ (if n < 16 then [hex_digit n] else [hex_digit (n div 16), hex_digit (n mod 16)]) @ [CHR 0x7D]
      else [c])"

definition debug_ascii :: "bytes \<Rightarrow> bytes" where
  "debug_ascii s = CHR 0x22 # concat (map debug_char s) @ [CHR 0x22]"

subsection \<open>The public API\<close>

definition tests_service :: DiscoveredService where
  "tests_service =
     \<lparr>ds_name = ''My Web Server'', ds_service_type = ''_http._tcp'', ds_domain = ''local'',
      ds_host_name = ''macbook.local'', ds_port = 8080, ds_addresses = [V4 0xC0A8010A, V6 1],
      ds_txt_records =
        [\<lparr>txt_key = ''path'', txt_value = Some ''/index.html''\<rparr>,
         \<lparr>txt_key = ''empty'', txt_value = Some []\<rparr>, \<lparr>txt_key = ''flag'', txt_value = None\<rparr>],
      ds_interface_index = NonZeroU32_new 3\<rparr>"

definition test_builder_defaults_to_browsing_all_types :: bool where
  "test_builder_defaults_to_browsing_all_types \<longleftrightarrow>
     (let builder = ServiceBrowserBuilder_new
      in sb_service_type builder = None \<and> sb_domain builder = None \<and> sb_interface_index builder = None)"

definition test_builder_default_matches_new :: bool where
  "test_builder_default_matches_new \<longleftrightarrow>
     (let from_default = ServiceBrowserBuilder_default; from_new = ServiceBrowserBuilder_new
      in sb_service_type from_default = sb_service_type from_new \<and> sb_domain from_default = sb_domain from_new \<and>
         sb_interface_index from_default = sb_interface_index from_new)"

definition test_builder_setters_record_values_and_chain :: bool where
  "test_builder_setters_record_values_and_chain \<longleftrightarrow>
     (let builder = set_interface_index 7 (set_domain ''local'' (set_service_type ''_http._tcp''
           ServiceBrowserBuilder_new))
      in sb_service_type builder = Some ''_http._tcp'' \<and> sb_domain builder = Some ''local'' \<and>
         sb_interface_index builder = NonZeroU32_new 7)"

definition test_builder_setters_accept_string_and_overwrite :: bool where
  "test_builder_setters_accept_string_and_overwrite \<longleftrightarrow>
     (let builder = set_service_type ''_ipp._tcp'' (set_service_type ''_ftp._tcp'' ServiceBrowserBuilder_new)
      in sb_service_type builder = Some ''_ipp._tcp'')"

definition test_socket_addrs_pairs_each_address_with_port :: bool where
  "test_socket_addrs_pairs_each_address_with_port \<longleftrightarrow>
     socket_addrs tests_service = [SocketAddrV4 0xC0A8010A 8080, SocketAddrV6 1 8080 0 0]"

definition test_socket_addrs_is_empty_without_addresses :: bool where
  "test_socket_addrs_is_empty_without_addresses \<longleftrightarrow>
     length (socket_addrs (tests_service\<lparr>ds_addresses := []\<rparr>)) = 0"

definition test_txt_returns_value_for_present_key :: bool where
  "test_txt_returns_value_for_present_key \<longleftrightarrow>
     txt_lookup tests_service ''path'' = Some ''/index.html''"

definition test_txt_returns_empty_slice_for_present_empty_value :: bool where
  "test_txt_returns_empty_slice_for_present_empty_value \<longleftrightarrow>
     txt_lookup tests_service ''empty'' = Some []"

definition test_txt_returns_none_for_key_only_entry :: bool where
  "test_txt_returns_none_for_key_only_entry \<longleftrightarrow>
     txt_lookup tests_service ''flag'' = None"

definition test_txt_returns_none_for_absent_key :: bool where
  "test_txt_returns_none_for_absent_key \<longleftrightarrow>
     txt_lookup tests_service ''missing'' = None"

definition test_txt_returns_first_match_for_duplicate_keys :: bool where
  "test_txt_returns_first_match_for_duplicate_keys \<longleftrightarrow>
     (let service = tests_service\<lparr>ds_txt_records := ds_txt_records tests_service @
           [\<lparr>txt_key = ''path'', txt_value = Some ''/second''\<rparr>]\<rparr>
      in txt_lookup service ''path'' = Some ''/index.html'')"

definition test_error_messages_render_expected_text :: bool where
  "test_error_messages_render_expected_text \<longleftrightarrow>
     error_display debug_ascii (DnsSdUnavailable ''no avahi'') =
       ''DNS-SD not available on system: no avahi'' \<and>
     error_display debug_ascii (ParameterContainsInteriorNulByte [CHR ''a'', CHR 0x00, CHR ''b''] 1) =
       ''parameter '' @ [CHR 0x22, CHR ''a'', CHR 0x5C, CHR ''0'', CHR ''b'', CHR 0x22] @
       '' contains interior nul byte at position 1'' \<and>
     error_display debug_ascii (InvalidInterfaceIndex 42) = ''interface index 42 is invalid'' \<and>
     error_display debug_ascii (BrowseFailed ''boom'') = ''browse operation failed: boom'' \<and>
     error_display debug_ascii (ResolveFailed ''svc'' ''timeout'') =
       ''failed to resolve service '' @ [CHR 0x22] @ ''svc'' @ [CHR 0x22] @ '': timeout''"

definition test_parse_txt_entry_splits_key_and_value :: bool where
  "test_parse_txt_entry_splits_key_and_value \<longleftrightarrow>
     (let record = parse_txt_entry ''path=/index.html''
      in txt_key record = ''path'' \<and> txt_value record = Some ''/index.html'')"

definition test_parse_txt_entry_empty_value_after_equals :: bool where
  "test_parse_txt_entry_empty_value_after_equals \<longleftrightarrow>
     (let record = parse_txt_entry ''key='' in txt_key record = ''key'' \<and> txt_value record = Some [])"

definition test_parse_txt_entry_key_only_has_no_value :: bool where
  "test_parse_txt_entry_key_only_has_no_value \<longleftrightarrow>
     (let record = parse_txt_entry ''flag'' in txt_key record = ''flag'' \<and> txt_value record = None)"

definition test_parse_txt_entry_splits_on_first_equals_only :: bool where
  "test_parse_txt_entry_splits_on_first_equals_only \<longleftrightarrow>
     (let record = parse_txt_entry ''k=a=b'' in txt_key record = ''k'' \<and> txt_value record = Some ''a=b'')"

definition test_parse_txt_entry_preserves_binary_value :: bool where
  "test_parse_txt_entry_preserves_binary_value \<longleftrightarrow>
     (let record = parse_txt_entry (''bin='' @ [CHR 0x00, CHR 0xFF, CHR 0x01])
      in txt_key record = ''bin'' \<and> txt_value record = Some [CHR 0x00, CHR 0xFF, CHR 0x01])"

definition test_parse_txt_entry_lossily_decodes_invalid_utf8_key :: bool where
  "test_parse_txt_entry_lossily_decodes_invalid_utf8_key \<longleftrightarrow>
     (let record = parse_txt_entry ([CHR 0xFF, CHR 0xFF] @ ''key'')
      in sublist [CHR 0xEF, CHR 0xBF, CHR 0xBD] (txt_key record) \<and> txt_value record = None)"

definition test_parse_txt_buffer_reads_length_prefixed_entries :: bool where
  "test_parse_txt_buffer_reads_length_prefixed_entries \<longleftrightarrow>
     (case parse_txt_buffer (CHR 0x03 # ''a=1'' @ CHR 0x04 # ''flag'') of
        None \<Rightarrow> False
      | Some records \<Rightarrow>
          length records = 2 \<and> txt_key (records ! 0) = ''a'' \<and> txt_value (records ! 0) = Some ''1'' \<and>
          txt_key (records ! 1) = ''flag'' \<and> txt_value (records ! 1) = None)"

definition test_parse_txt_buffer_skips_empty_entries :: bool where
  "test_parse_txt_buffer_skips_empty_entries \<longleftrightarrow>
     (case parse_txt_buffer (CHR 0x00 # CHR 0x03 # ''a=1'') of
        None \<Rightarrow> False
      | Some records \<Rightarrow> length records = 1 \<and> txt_key (records ! 0) = ''a'')"

definition test_parse_txt_buffer_stops_on_truncated_entry :: bool where
  "test_parse_txt_buffer_stops_on_truncated_entry \<longleftrightarrow>
     parse_txt_buffer (CHR 0x05 # ''ab'') = Some []"

definition test_parse_txt_buffer_empty_input_yields_no_records :: bool where
  "test_parse_txt_buffer_empty_input_yields_no_records \<longleftrightarrow>
     parse_txt_buffer [] = Some []"

definition test_trim_dot_strips_trailing_dots :: bool where
  "test_trim_dot_strips_trailing_dots \<longleftrightarrow>
     trim_dot ''host.local.'' = ''host.local'' \<and> trim_dot ''host.local'' = ''host.local''"

definition test_trim_dot_strips_multiple_trailing_dots :: bool where
  "test_trim_dot_strips_multiple_trailing_dots \<longleftrightarrow>
     trim_dot ''host.local..'' = ''host.local''"

definition test_trim_dot_preserves_interior_dots :: bool where
  "test_trim_dot_preserves_interior_dots \<longleftrightarrow>
     trim_dot ''a.b.c.'' = ''a.b.c''"

subsection \<open>The macOS names\<close>

definition test_meta_reply_recovers_local_domain_from_regtype :: bool where
  "test_meta_reply_recovers_local_domain_from_regtype \<longleftrightarrow>
     meta_reply_to_type_and_domain ''_http'' ''_tcp.local.'' ''.'' = (''_http._tcp'', ''local'')"

definition test_meta_reply_never_yields_a_root_domain :: bool where
  "test_meta_reply_never_yields_a_root_domain \<longleftrightarrow>
     list_all (\<lambda>reply_domain.
       snd (meta_reply_to_type_and_domain ''_ipp'' ''_tcp.local.'' reply_domain) = ''local'')
       [''.'', [], ''..'']"

definition test_meta_reply_handles_udp_types :: bool where
  "test_meta_reply_handles_udp_types \<longleftrightarrow>
     meta_reply_to_type_and_domain ''_sleep-proxy'' ''_udp.local.'' ''.'' = (''_sleep-proxy._udp'', ''local'')"

definition test_meta_reply_rejoins_a_multi_label_domain :: bool where
  "test_meta_reply_rejoins_a_multi_label_domain \<longleftrightarrow>
     meta_reply_to_type_and_domain ''_http'' ''_tcp.example.'' ''com.'' = (''_http._tcp'', ''example.com'')"

definition test_meta_reply_without_a_domain_falls_back_to_the_defaults :: bool where
  "test_meta_reply_without_a_domain_falls_back_to_the_defaults \<longleftrightarrow>
     meta_reply_to_type_and_domain ''_http'' ''_tcp.'' ''.'' = (''_http._tcp'', [])"

definition test_meta_reply_output_is_usable_as_a_browse_type :: bool where
  "test_meta_reply_output_is_usable_as_a_browse_type \<longleftrightarrow>
     (case meta_reply_to_type_and_domain ''_ssh'' ''_tcp.local.'' ''.'' of (service_type, domain) \<Rightarrow>
        cstring service_type = Inr ''_ssh._tcp'' \<and> cstring domain = Inr ''local'')"

definition test_cstring_round_trips_plain_ascii :: bool where
  "test_cstring_round_trips_plain_ascii \<longleftrightarrow>
     cstring ''_http._tcp'' = Inr ''_http._tcp''"

definition test_cstring_rejects_interior_nul :: bool where
  "test_cstring_rejects_interior_nul \<longleftrightarrow>
     cstring [CHR ''a'', CHR 0x00, CHR ''b''] =
       Inl (ParameterContainsInteriorNulByte [CHR ''a'', CHR 0x00, CHR ''b''] 1)"

definition test_cstr_to_string_null_pointer_is_empty :: bool where
  "test_cstr_to_string_null_pointer_is_empty \<longleftrightarrow>
     cstr_to_string None = []"

definition test_cstr_to_string_reads_c_string :: bool where
  "test_cstr_to_string_reads_c_string \<longleftrightarrow>
     cstr_to_string (Some (''macbook.local'' @ [NUL])) = ''macbook.local''"

subsection \<open>The Linux back-end\<close>

definition test_interface_to_avahi_none_is_unspecified :: bool where
  "test_interface_to_avahi_none_is_unspecified \<longleftrightarrow>
     interface_to_avahi None = Inr AVAHI_IF_UNSPEC"

definition test_interface_to_avahi_passes_valid_index_through :: bool where
  "test_interface_to_avahi_passes_valid_index_through \<longleftrightarrow>
     interface_to_avahi (Some 5) = Inr 5"

definition test_interface_to_avahi_accepts_i32_max :: bool where
  "test_interface_to_avahi_accepts_i32_max \<longleftrightarrow>
     interface_to_avahi (Some 0x7FFFFFFF) = Inr 0x7FFFFFFF"

definition test_interface_to_avahi_rejects_index_above_i32_max :: bool where
  "test_interface_to_avahi_rejects_index_above_i32_max \<longleftrightarrow>
     interface_to_avahi (Some (0x7FFFFFFF + 1)) = Inl (InvalidInterfaceIndex (0x7FFFFFFF + 1))"

definition test_avahi_interface_to_index_maps_positive_to_some :: bool where
  "test_avahi_interface_to_index_maps_positive_to_some \<longleftrightarrow>
     avahi_interface_to_index 2 = NonZeroU32_new 2"

definition test_avahi_interface_to_index_zero_and_negative_are_none :: bool where
  "test_avahi_interface_to_index_zero_and_negative_are_none \<longleftrightarrow>
     avahi_interface_to_index 0 = None \<and> avahi_interface_to_index (-1) = None \<and>
     avahi_interface_to_index AVAHI_IF_UNSPEC = None"

definition test_interface_round_trips_through_avahi_mapping :: bool where
  "test_interface_round_trips_through_avahi_mapping \<longleftrightarrow>
     (case interface_to_avahi (Some 9) of
        Inl _ \<Rightarrow> False
      | Inr avahi \<Rightarrow> avahi_interface_to_index avahi = Some 9)"

definition test_resolved_to_service_maps_all_fields :: bool where
  "test_resolved_to_service_maps_all_fields \<longleftrightarrow>
     (let service = resolved_to_service (3, AVAHI_PROTO_UNSPEC, ''My Web Server'', ''_http._tcp'', ''local'',
           ''macbook.local'', AVAHI_PROTO_UNSPEC, ''192.168.1.10'', 8080, [''path=/index.html'', ''flag''], 0)
      in ds_name service = ''My Web Server'' \<and> ds_service_type service = ''_http._tcp'' \<and>
         ds_domain service = ''local'' \<and> ds_host_name service = ''macbook.local'' \<and> ds_port service = 8080 \<and>
         map Some (ds_addresses service) = [ip_from_str ''192.168.1.10''] \<and>
         txt_lookup service ''path'' = Some ''/index.html'' \<and> txt_lookup service ''flag'' = None \<and>
         ds_interface_index service = NonZeroU32_new 3)"

definition test_resolved_to_service_unparsable_address_yields_no_addresses :: bool where
  "test_resolved_to_service_unparsable_address_yields_no_addresses \<longleftrightarrow>
     (let service = resolved_to_service (0, AVAHI_PROTO_UNSPEC, ''svc'', ''_http._tcp'', ''local'', ''host.local'',
           AVAHI_PROTO_UNSPEC, [], 80, [], 0)
      in ds_addresses service = [] \<and> ds_interface_index service = None)"

subsection \<open>The Windows back-end\<close>

definition test_instance_label_strips_type_and_domain_suffix :: bool where
  "test_instance_label_strips_type_and_domain_suffix \<longleftrightarrow>
     instance_label ''My Printer._ipp._tcp.local'' ''_ipp._tcp'' ''local'' = ''My Printer''"

definition test_instance_label_handles_dotted_instance_name :: bool where
  "test_instance_label_handles_dotted_instance_name \<longleftrightarrow>
     instance_label ''host.example._http._tcp.local'' ''_http._tcp'' ''local'' = ''host.example''"

definition test_instance_label_returns_full_when_suffix_absent :: bool where
  "test_instance_label_returns_full_when_suffix_absent \<longleftrightarrow>
     (let full = ''Something._other._tcp.local'' in instance_label full ''_http._tcp'' ''local'' = full)"

subsection \<open>They pass\<close>

lemma ip_from_str_Nil: "ip_from_str [] = None"
proof -
  have "read_number r m z b [] = None" for r m z b by (simp add: read_number_def)
  then have "read_ipv4_addr [] = None" "read_groups (Suc k) 0 [] = ([], False, [])" for k
    by (simp_all add: read_ipv4_addr_def read_octet_def read_separator_def)
  from this(1) this(2) [of 7] show ?thesis
    by (simp add: ip_from_str_def read_ipv6_addr_def eval_nat_numeral)
qed

lemma ip_from_str_sample: "ip_from_str ''192.168.1.10'' = Some (V4 0xC0A8010A)"
proof -
  have "read_ipv4_addr ''192.168.1.10'' = Some ((192, 168, 1, 10), [])" by code_simp
  then show ?thesis by (simp add: ip_from_str_def ipv4_of_def)
qed

lemma browse_tests_pass:
  "test_builder_defaults_to_browsing_all_types"
  "test_builder_default_matches_new"
  "test_builder_setters_record_values_and_chain"
  "test_builder_setters_accept_string_and_overwrite"
  "test_socket_addrs_pairs_each_address_with_port"
  "test_socket_addrs_is_empty_without_addresses"
  "test_txt_returns_value_for_present_key"
  "test_txt_returns_empty_slice_for_present_empty_value"
  "test_txt_returns_none_for_key_only_entry"
  "test_txt_returns_none_for_absent_key"
  "test_txt_returns_first_match_for_duplicate_keys"
  "test_error_messages_render_expected_text"
  "test_parse_txt_entry_splits_key_and_value"
  "test_parse_txt_entry_empty_value_after_equals"
  "test_parse_txt_entry_key_only_has_no_value"
  "test_parse_txt_entry_splits_on_first_equals_only"
  "test_parse_txt_entry_preserves_binary_value"
  "test_parse_txt_entry_lossily_decodes_invalid_utf8_key"
  "test_parse_txt_buffer_reads_length_prefixed_entries"
  "test_parse_txt_buffer_skips_empty_entries"
  "test_parse_txt_buffer_stops_on_truncated_entry"
  "test_parse_txt_buffer_empty_input_yields_no_records"
  "test_trim_dot_strips_trailing_dots"
  "test_trim_dot_strips_multiple_trailing_dots"
  "test_trim_dot_preserves_interior_dots"
  by code_simp+

lemma macos_tests_pass:
  "test_meta_reply_recovers_local_domain_from_regtype"
  "test_meta_reply_never_yields_a_root_domain"
  "test_meta_reply_handles_udp_types"
  "test_meta_reply_rejoins_a_multi_label_domain"
  "test_meta_reply_without_a_domain_falls_back_to_the_defaults"
  "test_meta_reply_output_is_usable_as_a_browse_type"
  "test_cstring_round_trips_plain_ascii"
  "test_cstring_rejects_interior_nul"
  "test_cstr_to_string_null_pointer_is_empty"
  "test_cstr_to_string_reads_c_string"
  by code_simp+

lemma linux_tests_pass:
  "test_interface_to_avahi_none_is_unspecified"
  "test_interface_to_avahi_passes_valid_index_through"
  "test_interface_to_avahi_accepts_i32_max"
  "test_interface_to_avahi_rejects_index_above_i32_max"
  "test_avahi_interface_to_index_maps_positive_to_some"
  "test_avahi_interface_to_index_zero_and_negative_are_none"
  "test_interface_round_trips_through_avahi_mapping"
  by code_simp+

lemma windows_tests_pass:
  "test_instance_label_strips_type_and_domain_suffix"
  "test_instance_label_handles_dotted_instance_name"
  "test_instance_label_returns_full_when_suffix_absent"
  by code_simp+

lemma resolved_tests_pass:
  "test_resolved_to_service_maps_all_fields"
  "test_resolved_to_service_unparsable_address_yields_no_addresses"
proof -
  have "parse_txt_entry ''path=/index.html'' = \<lparr>txt_key = ''path'', txt_value = Some ''/index.html''\<rparr>"
    "parse_txt_entry ''flag'' = \<lparr>txt_key = ''flag'', txt_value = None\<rparr>"
    by code_simp+
  then show "test_resolved_to_service_maps_all_fields"
    by (simp add: test_resolved_to_service_maps_all_fields_def resolved_to_service_def Let_def
        ip_from_str_sample txt_lookup_def avahi_interface_to_index_def NonZeroU32_new_def)
  show "test_resolved_to_service_unparsable_address_yields_no_addresses"
    by (simp add: test_resolved_to_service_unparsable_address_yields_no_addresses_def
        resolved_to_service_def ip_from_str_Nil Let_def avahi_interface_to_index_def)
qed

end
