(* ===== verification/Integration_Tests.thy ===== *)
theory Integration_Tests
  imports Linux_System
begin

text \<open>
  The integration tests of the Linux back-end (\<open>tests/linux_avahi_mock.rs\<close>), run on the model: the
  mock daemon as one more bus, and one predicate per test. What the bus turns an error of the mock
  into (\<open>render\<close>) and what reading a body of another type says (\<open>mismatch\<close>) are arguments.
\<close>

subsection \<open>The mock daemon\<close>

definition mock_signal :: "bytes \<Rightarrow> bytes \<Rightarrow> type_item option \<Rightarrow> instance_item option \<Rightarrow> bytes option \<Rightarrow> stream_item" where
  "mock_signal mismatch member type_body instance_body string_body =
     \<lparr>it_message = Inr \<lparr>msg_member = Some member,
        body_type_item = case_option (Inl mismatch) Inr type_body,
        body_instance_item = case_option (Inl mismatch) Inr instance_body,
        body_string = case_option (Inl mismatch) Inr string_body\<rparr>,
      it_open = True, it_finished = \<lambda>_. False\<rparr>"

text \<open>The signals each method of the mock emits, and its reply.\<close>

definition mock_type_browser_new ::
  "(bytes \<Rightarrow> bytes) \<Rightarrow> bytes \<Rightarrow> i32 \<Rightarrow> bytes \<Rightarrow> stream_item list \<times> (bytes + bytes)" where
  "mock_type_browser_new render mismatch interface domain =
     (if domain = ''type-new-fails'' then ([], Inl (render ''mock rejects type browser''))
      else if domain = ''type-failure'' then
        ([mock_signal mismatch ''Failure'' None None (Some ''type boom'')], Inr ''/mock/type_browser'')
      else
        (replicate 2 (mock_signal mismatch ''ItemNew'' (Some (interface, -1, ''_mock._tcp'', domain, 0)) None None) @
         [mock_signal mismatch ''ItemNew'' None None None, mock_signal mismatch ''AllForNow'' None None None],
         Inr ''/mock/type_browser''))"

definition mock_service_browser_new ::
  "(bytes \<Rightarrow> bytes) \<Rightarrow> bytes \<Rightarrow> i32 \<Rightarrow> bytes \<Rightarrow> bytes \<Rightarrow> stream_item list \<times> (bytes + bytes)" where
  "mock_service_browser_new render mismatch interface service_type domain =
     (if service_type = ''_new-fails._tcp'' then ([], Inl (render ''mock rejects service browser''))
      else if service_type = ''_failure._tcp'' then
        ([mock_signal mismatch ''Failure'' None None (Some ''browse boom'')], Inr ''/mock/service_browser'')
      else
        (let iface = (if sint interface < 0 then 7 else interface) in
         ([mock_signal mismatch ''ItemNew'' None (Some (iface, -1, ''Mock Service'', service_type, domain, 0)) None,
           mock_signal mismatch ''ItemNew'' None None None,
           mock_signal mismatch ''AllForNow'' None None None,
           mock_signal mismatch ''ItemRemove'' None (Some (iface, -1, ''Gone Service'', service_type, domain, 0)) None,
           mock_signal mismatch ''ItemRemove'' None None None],
          Inr ''/mock/service_browser'')))"

text \<open>Of the instance that never answers the mock only says something after its minute's sleep.\<close>

definition mock_resolve_service ::
  "(bytes \<Rightarrow> bytes) \<Rightarrow> i32 \<Rightarrow> bytes \<Rightarrow> bytes \<Rightarrow> bytes \<Rightarrow> bytes + resolved_tuple" where
  "mock_resolve_service render interface name service_type domain =
     (if name = ''hang-forever'' then Inl (render ''should have timed out'')
      else if name = ''missing'' then Inl (render ''no such service'')
      else Inr (interface, -1, name, service_type, domain, ''mock-host.local'', -1,
        ''192.168.7.42'', 8080, [''path=/mock'', ''flag''], 0))"

text \<open>
  The mock on its bus, whose environment is the number of connections made and the milliseconds
  that have passed. A subscription comes before the call that makes the mock emit, and each has a
  connection of its own: \<open>plan\<close> says for each connection what will be asked on it, and the tests
  check that it was.
\<close>

datatype mock_request = AsksTypes i32 bytes | AsksInstances i32 bytes bytes | AsksNothing

definition mock_items :: "(bytes \<Rightarrow> bytes) \<Rightarrow> bytes \<Rightarrow> mock_request \<Rightarrow> bytes \<Rightarrow> stream_item list" where
  "mock_items render mismatch req interface_name =
     (case req of
        AsksTypes i d \<Rightarrow>
          if interface_name = SERVICE_TYPE_BROWSER_INTERFACE
          then fst (mock_type_browser_new render mismatch i d) else []
      | AsksInstances i t d \<Rightarrow>
          if interface_name = SERVICE_BROWSER_INTERFACE
          then fst (mock_service_browser_new render mismatch i t d) else []
      | AsksNothing \<Rightarrow> [])"

type_synonym mock_env = "nat \<times> nat"

definition mock_avahi :: "(bytes \<Rightarrow> bytes) \<Rightarrow> bytes \<Rightarrow> mock_request list \<Rightarrow> mock_env dbus" where
  "mock_avahi render mismatch plan =
     \<lparr>system_bus = \<lambda>(c, ms). (Inr c, (Suc c, ms)), avahi_new = \<lambda>c e. (Inr (), e),
      build_rule = \<lambda>s i. Inr (s, i),
      for_match_rule = \<lambda>r c e. (Inr (mock_items render mismatch (plan ! c) (snd r)), e),
      service_type_browser_new = \<lambda>c i p d f e. (snd (mock_type_browser_new render mismatch i d), e),
      service_browser_new = \<lambda>c i p t d f e. (snd (mock_service_browser_new render mismatch i t d), e),
      server_resolve = \<lambda>c i p n t d a f (m, ms).
        (mock_resolve_service render i n t d, (m, if n = ''hang-forever'' then ms + 60000 else ms)),
      browser_free = \<lambda>c p e. (Inr (), e)\<rparr>"

definition as_planned :: "mock_request list \<Rightarrow> bus_call list \<Rightarrow> bool" where
  "as_planned plan cs =
     list_all (\<lambda>c. case c of
         ServiceTypeBrowserNew conn i p d f \<Rightarrow> plan ! conn = AsksTypes i d
       | ServiceBrowserNew conn i p t d f \<Rightarrow> plan ! conn = AsksInstances i t d
       | _ \<Rightarrow> True) cs"

text \<open>The bus that is not there: no connection.\<close>

definition no_bus :: "bytes \<Rightarrow> mock_env dbus" where
  "no_bus err = (mock_avahi id [] [])\<lparr>system_bus := \<lambda>e. (Inl err, e)\<rparr>"

subsection \<open>The executor\<close>

text \<open>
  The executor polls tasks in any order, and a task again and again. It polls those that are ready:
  the mock keeps its connection, so a task that has read all of its stream waits. A schedule is fair
  for \<open>n\<close> rounds when it visits each of the three tasks a test can have in each round.
\<close>

definition waits :: "linux_stage \<Rightarrow> bool" where
  "waits stage \<longleftrightarrow>
     (case stage of TypesLoop _ _ _ [] _ \<Rightarrow> True | InstancesLoop _ _ _ [] _ \<Rightarrow> True | _ \<Rightarrow> False)"

definition ready :: "linux_task list \<Rightarrow> nat \<Rightarrow> bool" where
  "ready ts t \<longleftrightarrow> live ts t \<and> \<not> waits (tk_stage (ts ! t))"

definition poll_ready :: "'e dbus \<Rightarrow> nat \<Rightarrow> 'e linux_system \<Rightarrow> 'e linux_system" where
  "poll_ready api t s = (if ready (ls_tasks s) t then poll api t s else s)"

definition run_schedule :: "'e dbus \<Rightarrow> nat list list \<Rightarrow> 'e linux_system \<Rightarrow> 'e linux_system" where
  "run_schedule api rounds s = fold (poll_ready api) (concat rounds) s"

definition fair :: "nat \<Rightarrow> nat list list \<Rightarrow> bool" where
  "fair n rounds \<longleftrightarrow> n \<le> length rounds \<and> list_all (\<lambda>r. {0, 1, 2} \<subseteq> set r) rounds"

text \<open>It only takes steps of the system.\<close>

lemma run_schedule_reachable:
  "reachable init (linux_step api) (\<lambda>_ _. True) s \<Longrightarrow>
   reachable init (linux_step api) (\<lambda>_ _. True) (run_schedule api rounds s)"
proof -
  have "reachable init (linux_step api) (\<lambda>_ _. True) s \<Longrightarrow>
      reachable init (linux_step api) (\<lambda>_ _. True) (fold (poll_ready api) ts s)" for ts s
    by (induction ts arbitrary: s)
       (auto simp: poll_ready_def ready_def intro: reachable_any linux_step.poll)
  then show "reachable init (linux_step api) (\<lambda>_ _. True) s \<Longrightarrow> ?thesis"
    by (simp add: run_schedule_def)
qed

subsection \<open>The tests\<close>

text \<open>A browser over the mock, after the executor ran its tasks on a schedule.\<close>

definition mock_browse ::
  "nat list list \<Rightarrow> mock_env dbus \<Rightarrow> ServiceBrowserBuilder \<Rightarrow> ServiceBrowseError + (mock_env linux_system, unit) ServiceBrowser" where
  "mock_browse rounds api b =
     fst (browse (\<lambda>t d i. try_then (linux_browse_start api t d i)
            (\<lambda>root os. (Inr (run_schedule api rounds (linux_started root os), ()), os)))
          b \<lparr>bus_env = (0, 0), bus_calls = []\<rparr>)"

text \<open>What \<open>next_event\<close> returns: the events in turn, then the end if no task is left to send.\<close>

definition events :: "(mock_env linux_system, unit) ServiceBrowser \<Rightarrow> event_result list" where
  "events b = ls_sent (browser_rx b)"

definition stream_ends :: "(mock_env linux_system, unit) ServiceBrowser \<Rightarrow> bool" where
  "stream_ends b \<longleftrightarrow> list_all (\<lambda>t. \<not> live (ls_tasks (browser_rx b)) t) [0..<length (ls_tasks (browser_rx b))]"

definition asked :: "mock_request list \<Rightarrow> (mock_env linux_system, unit) ServiceBrowser \<Rightarrow> bool" where
  "asked plan b \<longleftrightarrow> as_planned plan (bus_calls (ls_bus (browser_rx b)))"

fun collect_found_and_removed ::
  "DiscoveredService option \<Rightarrow> RemovedService option \<Rightarrow> event_result list \<Rightarrow>
   (DiscoveredService \<times> RemovedService) option" where
  "collect_found_and_removed (Some f) (Some r) evs = Some (f, r)"
| "collect_found_and_removed f r [] = None"
| "collect_found_and_removed f r (Inl err # evs) = None"
| "collect_found_and_removed f r (Inr (Found svc) # evs) = collect_found_and_removed (Some svc) r evs"
| "collect_found_and_removed f r (Inr (Removed svc) # evs) = collect_found_and_removed f (Some svc) evs"

definition test_browse_all_types_emits_found_and_removed ::
  "nat list list \<Rightarrow> (bytes \<Rightarrow> bytes) \<Rightarrow> bytes \<Rightarrow> bool" where
  "test_browse_all_types_emits_found_and_removed rounds render mismatch \<longleftrightarrow>
     (let plan = [AsksNothing, AsksTypes (-1) [], AsksInstances (-1) ''_mock._tcp'' []]
      in case mock_browse rounds (mock_avahi render mismatch plan) ServiceBrowserBuilder_new of
           Inl err \<Rightarrow> False
         | Inr browser \<Rightarrow> asked plan browser \<and>
             (case collect_found_and_removed None None (events browser) of
                None \<Rightarrow> False
              | Some (found, removed) \<Rightarrow>
                  ds_name found = ''Mock Service'' \<and> ds_service_type found = ''_mock._tcp'' \<and>
                  ds_host_name found = ''mock-host.local'' \<and> ds_port found = 8080 \<and>
                  ds_addresses found = [the (ip_from_str ''192.168.7.42'')] \<and>
                  txt_lookup found ''path'' = Some ''/mock'' \<and> txt_lookup found ''flag'' = None \<and>
                  ds_interface_index found = NonZeroU32_new 7 \<and>
                  rs_name removed = ''Gone Service'' \<and> rs_service_type removed = ''_mock._tcp'' \<and>
                  rs_interface_index removed = NonZeroU32_new 7))"

definition test_browse_single_type_uses_requested_type_and_interface ::
  "nat list list \<Rightarrow> (bytes \<Rightarrow> bytes) \<Rightarrow> bytes \<Rightarrow> bool" where
  "test_browse_single_type_uses_requested_type_and_interface rounds render mismatch \<longleftrightarrow>
     (let plan = [AsksNothing, AsksInstances 2 ''_printer._tcp'' ''local'']
      in case mock_browse rounds (mock_avahi render mismatch plan) (set_interface_index 2 (set_domain ''local''
             (set_service_type ''_printer._tcp'' ServiceBrowserBuilder_new))) of
           Inl err \<Rightarrow> False
         | Inr browser \<Rightarrow> asked plan browser \<and>
             (case collect_found_and_removed None None (events browser) of
                None \<Rightarrow> False
              | Some (found, removed) \<Rightarrow>
                  ds_service_type found = ''_printer._tcp'' \<and> ds_domain found = ''local'' \<and>
                  ds_interface_index found = NonZeroU32_new 2 \<and>
                  rs_service_type removed = ''_printer._tcp'' \<and> rs_interface_index removed = NonZeroU32_new 2))"

text \<open>The next event is an error that contains a text.\<close>

definition next_failed :: "bytes \<Rightarrow> event_result list \<Rightarrow> bool" where
  "next_failed part evs \<longleftrightarrow> (case evs of Inl (BrowseFailed msg) # _ \<Rightarrow> sublist part msg | _ \<Rightarrow> False)"

definition test_browse_surfaces_browser_failure_signal ::
  "nat list list \<Rightarrow> (bytes \<Rightarrow> bytes) \<Rightarrow> bytes \<Rightarrow> bool" where
  "test_browse_surfaces_browser_failure_signal rounds render mismatch \<longleftrightarrow>
     (let plan = [AsksNothing, AsksInstances (-1) ''_failure._tcp'' []]
      in case mock_browse rounds (mock_avahi render mismatch plan)
             (set_service_type ''_failure._tcp'' ServiceBrowserBuilder_new) of
           Inl err \<Rightarrow> False
         | Inr browser \<Rightarrow> asked plan browser \<and> next_failed ''browse boom'' (events browser))"

definition test_browse_surfaces_browser_creation_error_and_ends_stream ::
  "nat list list \<Rightarrow> (bytes \<Rightarrow> bytes) \<Rightarrow> bytes \<Rightarrow> bool" where
  "test_browse_surfaces_browser_creation_error_and_ends_stream rounds render mismatch \<longleftrightarrow>
     (let plan = [AsksNothing, AsksInstances (-1) ''_new-fails._tcp'' []]
      in case mock_browse rounds (mock_avahi render mismatch plan)
             (set_service_type ''_new-fails._tcp'' ServiceBrowserBuilder_new) of
           Inl err \<Rightarrow> False
         | Inr browser \<Rightarrow> asked plan browser \<and> next_failed ''ServiceBrowserNew failed'' (events browser) \<and>
             length (events browser) = 1 \<and> stream_ends browser)"

definition test_browse_all_surfaces_type_browser_failure_signal ::
  "nat list list \<Rightarrow> (bytes \<Rightarrow> bytes) \<Rightarrow> bytes \<Rightarrow> bool" where
  "test_browse_all_surfaces_type_browser_failure_signal rounds render mismatch \<longleftrightarrow>
     (let plan = [AsksNothing, AsksTypes (-1) ''type-failure'']
      in case mock_browse rounds (mock_avahi render mismatch plan) (set_domain ''type-failure'' ServiceBrowserBuilder_new) of
           Inl err \<Rightarrow> False
         | Inr browser \<Rightarrow> asked plan browser \<and> next_failed ''type boom'' (events browser))"

definition test_browse_all_surfaces_type_browser_creation_error_and_ends_stream ::
  "nat list list \<Rightarrow> (bytes \<Rightarrow> bytes) \<Rightarrow> bytes \<Rightarrow> bool" where
  "test_browse_all_surfaces_type_browser_creation_error_and_ends_stream rounds render mismatch \<longleftrightarrow>
     (let plan = [AsksNothing, AsksTypes (-1) ''type-new-fails'']
      in case mock_browse rounds (mock_avahi render mismatch plan) (set_domain ''type-new-fails'' ServiceBrowserBuilder_new) of
           Inl err \<Rightarrow> False
         | Inr browser \<Rightarrow> asked plan browser \<and> next_failed ''ServiceTypeBrowserNew failed'' (events browser) \<and>
             length (events browser) = 1 \<and> stream_ends browser)"

subsection \<open>Resolving\<close>

text \<open>
  tokio's \<open>timeout\<close> over the mock's clock: the future's answer, unless it takes the given time or
  longer.
\<close>

definition mock_timeout :: "(mock_env bus) tokio_timeout" where
  "mock_timeout d fut os =
     (let deadline = snd (bus_env os) + secs d * 1000 + nanos d div 1000000 in
      case fut os of
        Some (r, os') \<Rightarrow>
          if snd (bus_env os') < deadline then (Some r, os')
          else (None, os\<lparr>bus_env := (fst (bus_env os), deadline)\<rparr>)
      | None \<Rightarrow> (None, os\<lparr>bus_env := (fst (bus_env os), deadline)\<rparr>))"

lemma mock_timeout_faithful: "timeout_faithful mock_timeout"
  by (auto simp: timeout_faithful_def mock_timeout_def Let_def split: option.splits prod.splits if_splits)

definition mock_resolve :: "mock_env dbus \<Rightarrow> ServiceResolverBuilder \<Rightarrow> resolve_result option" where
  "mock_resolve api b =
     map_option fst (resolve mock_timeout (linux_resolve_once api) b \<lparr>bus_env = (0, 0), bus_calls = []\<rparr>)"

definition test_resolver_resolves_live_instance :: "(bytes \<Rightarrow> bytes) \<Rightarrow> bytes \<Rightarrow> bool" where
  "test_resolver_resolves_live_instance render mismatch \<longleftrightarrow>
     (case mock_resolve (mock_avahi render mismatch [])
             (ServiceResolverBuilder_new ''My Service'' ''_mock._tcp'' ''local'') of
        Some (Inr service) \<Rightarrow>
          ds_name service = ''My Service'' \<and> ds_service_type service = ''_mock._tcp'' \<and>
          ds_domain service = ''local'' \<and> ds_host_name service = ''mock-host.local'' \<and>
          ds_port service = 8080 \<and> ds_interface_index service = None
      | _ \<Rightarrow> False)"

definition test_resolver_with_timeout_and_interface_resolves :: "(bytes \<Rightarrow> bytes) \<Rightarrow> bytes \<Rightarrow> bool" where
  "test_resolver_with_timeout_and_interface_resolves render mismatch \<longleftrightarrow>
     (case mock_resolve (mock_avahi render mismatch [])
             (set_timeout \<lparr>secs = 5, nanos = 0\<rparr> (set_resolver_interface_index 4
                (ServiceResolverBuilder_new ''My Service'' ''_mock._tcp'' ''local''))) of
        Some (Inr service) \<Rightarrow> ds_interface_index service = NonZeroU32_new 4
      | _ \<Rightarrow> False)"

definition resolve_failed :: "bytes \<Rightarrow> bytes \<Rightarrow> resolve_result option \<Rightarrow> bool" where
  "resolve_failed n part r \<longleftrightarrow>
     (case r of Some (Inl (ResolveFailed m reason)) \<Rightarrow> m = n \<and> sublist part reason | _ \<Rightarrow> False)"

definition test_resolver_reports_gone_instance :: "(bytes \<Rightarrow> bytes) \<Rightarrow> bytes \<Rightarrow> bool" where
  "test_resolver_reports_gone_instance render mismatch \<longleftrightarrow>
     resolve_failed ''missing'' ''no such service''
       (mock_resolve (mock_avahi render mismatch []) (ServiceResolverBuilder_new ''missing'' ''_mock._tcp'' ''local''))"

definition test_resolver_times_out_on_unresponsive_instance :: "(bytes \<Rightarrow> bytes) \<Rightarrow> bytes \<Rightarrow> bool" where
  "test_resolver_times_out_on_unresponsive_instance render mismatch \<longleftrightarrow>
     resolve_failed ''hang-forever'' ''timed out after''
       (mock_resolve (mock_avahi render mismatch []) (set_timeout \<lparr>secs = 0, nanos = 200000000\<rparr>
          (ServiceResolverBuilder_new ''hang-forever'' ''_mock._tcp'' ''local'')))"

definition test_browse_and_resolve_fail_without_system_bus :: "bytes \<Rightarrow> bool" where
  "test_browse_and_resolve_fail_without_system_bus err \<longleftrightarrow>
     (case mock_browse [] (no_bus err) ServiceBrowserBuilder_new of
        Inl (DnsSdUnavailable msg) \<Rightarrow> sublist ''system D-Bus'' msg
      | _ \<Rightarrow> False) \<and>
     (case mock_resolve (no_bus err) (ServiceResolverBuilder_new ''x'' ''_x._tcp'' ''local'') of
        Some (Inl (DnsSdUnavailable msg)) \<Rightarrow> sublist ''system D-Bus'' msg
      | _ \<Rightarrow> False)"

end
