(* ===== verification/Integration_Properties.thy ===== *)
theory Integration_Properties
  imports Integration_Tests "HOL-Library.Multiset"
begin

text \<open>
  The integration tests pass on the model: polls of the tasks as steps between explicit states of
  the system, then the runs of the tests.
\<close>

subsection \<open>They pass\<close>

lemmas bus_simps = linux_browse_start_def linux_resolve_once_def open_types_def open_instances_def
  connect_and_subscribe_def connect_system_def connect_avahi_def try_then_def map_err_def invoke_def
  return_ok_def pure_result_def interface_to_avahi_def AVAHI_IF_UNSPEC_def

lemmas mock_simps = mock_avahi_def mock_type_browser_new_def mock_service_browser_new_def
  mock_resolve_service_def

lemma resolver_tests_pass:
  "test_resolver_resolves_live_instance render mismatch"
  "test_resolver_with_timeout_and_interface_resolves render mismatch"
  "test_resolver_times_out_on_unresponsive_instance render mismatch"
  "sublist ''no such service'' (render ''no such service'') \<Longrightarrow> test_resolver_reports_gone_instance render mismatch"
  "test_browse_and_resolve_fail_without_system_bus err"
  by (simp_all add: test_resolver_resolves_live_instance_def test_resolver_with_timeout_and_interface_resolves_def
      test_resolver_times_out_on_unresponsive_instance_def test_resolver_reports_gone_instance_def
      test_browse_and_resolve_fail_without_system_bus_def no_bus_def mock_browse_def browse_def
      ServiceBrowserBuilder_new_def resolve_failed_def
      mock_resolve_def resolve_def ServiceResolverBuilder_new_def set_timeout_def set_resolver_interface_index_def
      mock_timeout_def timed_out_def bus_simps mock_simps resolved_to_service_def avahi_interface_to_index_def
      NonZeroU32_new_def Let_def sublist_Cons_right)

subsection \<open>Fair schedules\<close>

text \<open>What the tasks have still to do: an item of a stream can spawn a task.\<close>

fun stage_work :: "linux_stage \<Rightarrow> nat" where
  "stage_work (StartTypes i d) = 49"
| "stage_work (TypesLoop i c p its st) = 12 * length its"
| "stage_work (StartInstances i t d) = 11"
| "stage_work (InstancesLoop t c p its st) = 2 * length its"
| "stage_work (Resolving c j) = 1"
| "stage_work Ended = 0"

definition work :: "linux_task list \<Rightarrow> nat" where
  "work ts = sum_list (map (stage_work \<circ> tk_stage) ts)"

lemma work_update:
  assumes "t < length ts"
  shows "work (ts[t := tk]) + stage_work (tk_stage (ts ! t)) = work ts + stage_work (tk_stage tk)"
proof -
  have "stage_work (tk_stage (ts ! t)) \<le> work ts"
    using assms unfolding work_def by (intro member_le_sum_list) auto
  with assms show ?thesis by (simp add: work_def map_update sum_list_update)
qed

lemma work_advance:
  "t < length ts \<Longrightarrow> work (advance t stage new ts) + stage_work (tk_stage (ts ! t)) =
   work ts + stage_work stage + sum_list (map stage_work new)"
  using work_update [of t ts] by (simp add: advance_def work_def new_task_def o_def)

text \<open>
  A schedule that is fair for as many rounds as there is work leaves nothing to do, when every poll
  of a task that is ready takes some of it.
\<close>

locale executor =
  fixes api :: "'e dbus" and invar :: "'e linux_system \<Rightarrow> bool"
  assumes few_tasks: "invar s \<Longrightarrow> length (ls_tasks s) \<le> 3"
    and ready_poll: "invar s \<Longrightarrow> ready (ls_tasks s) t \<Longrightarrow>
      invar (poll api t s) \<and> work (ls_tasks (poll api t s)) < work (ls_tasks s)"
begin

lemma polls:
  "invar s \<Longrightarrow> invar (fold (poll_ready api) r s) \<and>
    (work (ls_tasks (fold (poll_ready api) r s)) < work (ls_tasks s) \<or>
     fold (poll_ready api) r s = s \<and> list_all (\<lambda>t. \<not> ready (ls_tasks s) t) r)"
proof (induction r arbitrary: s)
  case (Cons t r)
  show ?case
  proof (cases "ready (ls_tasks s) t")
    case True
    from ready_poll [OF Cons.prems True] Cons.IH [of "poll api t s"] True
    show ?thesis by (auto simp: poll_ready_def)
  next
    case False
    with Cons show ?thesis by (auto simp: poll_ready_def)
  qed
qed simp

lemma quiet_round:
  assumes "invar s" and "{0, 1, 2} \<subseteq> set r" and "list_all (\<lambda>t. \<not> ready (ls_tasks s) t) r"
  shows "\<not> ready (ls_tasks s) t"
proof
  assume t: "ready (ls_tasks s) t"
  then have "t < 3" using few_tasks [OF assms(1)] by (simp add: ready_def live_def)
  then have "t \<in> set r" using assms(2) by (auto simp: numeral_eq_Suc less_Suc_eq)
  with assms(3) t show False by (simp add: list_all_iff)
qed

lemma quiet_stays: "(\<And>t. \<not> ready (ls_tasks s) t) \<Longrightarrow> fold (poll_ready api) r s = s"
  by (induction r) (simp_all add: poll_ready_def)

lemma runs_out:
  assumes "invar s" and "fair n rounds" and "work (ls_tasks s) \<le> n"
  shows "invar (run_schedule api rounds s) \<and> \<not> ready (ls_tasks (run_schedule api rounds s)) t"
proof -
  have "invar s \<Longrightarrow> work (ls_tasks s) \<le> length rs \<Longrightarrow> list_all (\<lambda>r. {0, 1, 2} \<subseteq> set r) rs \<Longrightarrow>
      invar (run_schedule api rs s) \<and> (\<forall>t. \<not> ready (ls_tasks (run_schedule api rs s)) t)" for rs
  proof (induction rs arbitrary: s)
    case Nil
    then show ?case using ready_poll [of s] by (fastforce simp: run_schedule_def)
  next
    case (Cons r rs)
    let ?s = "fold (poll_ready api) r s"
    have step: "run_schedule api (r # rs) s = run_schedule api rs ?s" by (simp add: run_schedule_def)
    from polls [OF Cons.prems(1), of r] consider "invar ?s" "work (ls_tasks ?s) < work (ls_tasks s)"
      | "?s = s" "list_all (\<lambda>t. \<not> ready (ls_tasks s) t) r" by blast
    then show ?case
    proof cases
      case 1
      with Cons.prems(2,3) Cons.IH [of ?s] show ?thesis by (simp add: step)
    next
      case 2
      then have quiet: "\<not> ready (ls_tasks s) t" for t using quiet_round [OF Cons.prems(1) _ 2(2)] Cons.prems(3) by simp
      then have "run_schedule api rs s = s" unfolding run_schedule_def by (rule quiet_stays)
      with quiet Cons.prems(1) 2(1) show ?thesis by (simp add: step)
    qed
  qed
  with assms show ?thesis by (simp add: fair_def)
qed

end

subsection \<open>Polls as steps between states\<close>

definition mock_state ::
  "linux_task list \<Rightarrow> nat \<Rightarrow> bus_call list \<Rightarrow> event_result list \<Rightarrow> mock_env linux_system" where
  "mock_state ts c cs ms =
     \<lparr>ls_tasks = ts, ls_guard = True, ls_open = True, ls_bus = \<lparr>bus_env = (c, 0), bus_calls = cs\<rparr>, ls_sent = ms\<rparr>"

lemma mock_state_sel [simp]:
  "ls_tasks (mock_state ts c cs ms) = ts" "ls_open (mock_state ts c cs ms)"
  "ls_sent (mock_state ts c cs ms) = ms" "bus_calls (ls_bus (mock_state ts c cs ms)) = cs"
  by (simp_all add: mock_state_def)

definition mock_service :: "i32 \<Rightarrow> bytes \<Rightarrow> bytes \<Rightarrow> DiscoveredService" where
  "mock_service interface t d =
     resolved_to_service (interface, -1, ''Mock Service'', t, d, ''mock-host.local'', -1,
       ''192.168.7.42'', 8080, [''path=/mock'', ''flag''], 0)"

definition gone_service :: "i32 \<Rightarrow> bytes \<Rightarrow> bytes \<Rightarrow> RemovedService" where
  "gone_service interface t d =
     \<lparr>rs_name = ''Gone Service'', rs_service_type = t, rs_domain = d,
      rs_interface_index = avahi_interface_to_index interface\<rparr>"

text \<open>The interface the mock announces, when it is asked for any.\<close>

definition mock_iface :: "i32 \<Rightarrow> i32" where
  "mock_iface i = (if sint i < 0 then 7 else i)"

definition mock_instance_items :: "bytes \<Rightarrow> i32 \<Rightarrow> bytes \<Rightarrow> bytes \<Rightarrow> stream_item list" where
  "mock_instance_items mismatch i t d =
     [mock_signal mismatch ''ItemNew'' None (Some (i, -1, ''Mock Service'', t, d, 0)) None,
      mock_signal mismatch ''ItemNew'' None None None,
      mock_signal mismatch ''AllForNow'' None None None,
      mock_signal mismatch ''ItemRemove'' None (Some (i, -1, ''Gone Service'', t, d, 0)) None,
      mock_signal mismatch ''ItemRemove'' None None None]"

definition served :: "bytes \<Rightarrow> bool" where
  "served t \<longleftrightarrow> t \<noteq> ''_new-fails._tcp'' \<and> t \<noteq> ''_failure._tcp''"

definition mock_job :: "i32 \<Rightarrow> bytes \<Rightarrow> bytes \<Rightarrow> linux_job" where
  "mock_job i t d = (i, -1, ''Mock Service'', t, d)"

lemma mock_resolving:
  assumes "t < length ts" and "tk_stage (ts ! t) = Resolving c (mock_job i ty d)"
  shows "\<exists>cs'. poll (mock_avahi render mismatch plan) t (mock_state ts n cs ms) =
      mock_state (end_task t ts) n (cs @ cs') (ms @ [Inr (Found (mock_service i ty d))]) \<and>
    as_planned plan cs'"
  using assms
  by (simp add: poll_def resolve_and_emit_def invoke_def mock_avahi_def mock_resolve_service_def mock_job_def
      mock_service_def mock_state_def emit_def as_planned_def)

lemma mock_instances_start:
  assumes "t < length ts" and "tk_stage (ts ! t) = StartInstances i ty d" and "served ty"
    and "plan ! n = AsksInstances i ty d" and "j = mock_iface i"
  shows "\<exists>cs'. poll (mock_avahi render mismatch plan) t (mock_state ts n cs ms) =
      mock_state (advance t (InstancesLoop ty n ''/mock/service_browser'' (mock_instance_items mismatch j ty d)
        InstanceBrowse_new) [] ts) (Suc n) (cs @ cs') ms \<and> as_planned plan cs'"
  using assms
  by (simp add: poll_def poll_start_def bus_simps mock_avahi_def mock_items_def mock_service_browser_new_def
      SERVICE_BROWSER_INTERFACE_def SERVICE_TYPE_BROWSER_INTERFACE_def served_def
      mock_instance_items_def mock_state_def as_planned_def mock_iface_def Let_def)

text \<open>The instance browse after \<open>k\<close> of its five signals.\<close>

definition mock_locals :: "bytes \<Rightarrow> i32 \<Rightarrow> bytes \<Rightarrow> bytes \<Rightarrow> nat \<Rightarrow> InstanceBrowse" where
  "mock_locals mismatch i t d k =
     \<lparr>ib_spawned = (if 0 < k then [mock_job i t d] else []), resolvers = (if 0 < k then [0] else []),
      aborted = [], ib_sent = (if 3 < k then [Inr (Removed (gone_service i t d))] else []),
      ib_warned = (if 1 < k then [''malformed ItemNew: '' @ mismatch] else []) @
        (if 4 < k then [''malformed ItemRemove: '' @ mismatch] else [])\<rparr>"

definition at_signal :: "bytes \<Rightarrow> i32 \<Rightarrow> bytes \<Rightarrow> bytes \<Rightarrow> bus_conn \<Rightarrow> nat \<Rightarrow> linux_stage" where
  "at_signal mismatch i t d c k =
     InstancesLoop t c ''/mock/service_browser'' (drop k (mock_instance_items mismatch i t d))
       (mock_locals mismatch i t d k)"

lemma mock_instances_signal:
  assumes "t < length ts" and "tk_stage (ts ! t) = at_signal mismatch i ty d c k" and "k < 5"
  shows "poll api t (mock_state ts n cs ms) =
    mock_state (advance t (at_signal mismatch i ty d c (Suc k))
        (if k = 0 then [Resolving c (mock_job i ty d)] else []) ts)
      n cs (ms @ (if k = 3 then [Inr (Removed (gone_service i ty d))] else []))"
proof -
  from assms(3) consider "k = 0" | "k = 1" | "k = 2" | "k = 3" | "k = 4" by linarith
  then show ?thesis
    by cases
       (use assms(1,2) in \<open>simp_all add: poll_def at_signal_def mock_instance_items_def mock_locals_def
          instance_step_def observe_def mock_signal_def spawn_resolver_def ib_send_def ib_warn_def
          gone_service_def mock_job_def poll_item_def emit_def mock_state_def\<close>)
qed

lemma start_ready [simp]: "\<not> waits (StartTypes i d)" "\<not> waits (StartInstances i t d)" "\<not> waits (Resolving c j)"
  by (simp_all add: waits_def)

lemma at_signal_start:
  "InstancesLoop t c ''/mock/service_browser'' (mock_instance_items mismatch i t d) InstanceBrowse_new =
   at_signal mismatch i t d c 0"
  by (simp add: at_signal_def mock_locals_def InstanceBrowse_new_def)

lemma at_signal_simps [simp]:
  "at_signal mismatch i t d c k \<noteq> Ended" "waits (at_signal mismatch i t d c k) \<longleftrightarrow> 5 \<le> k"
  "stage_work (at_signal mismatch i t d c k) = 2 * (5 - k)"
proof -
  have l: "length (mock_instance_items mismatch i t d) = 5" by (simp add: mock_instance_items_def)
  show "at_signal mismatch i t d c k \<noteq> Ended" by (simp add: at_signal_def)
  show "stage_work (at_signal mismatch i t d c k) = 2 * (5 - k)" using l by (simp add: at_signal_def)
  have "waits (InstancesLoop t c p its st) \<longleftrightarrow> its = []" for p its st
    by (simp add: waits_def split: list.split)
  then show "waits (at_signal mismatch i t d c k) \<longleftrightarrow> 5 \<le> k" using l by (simp add: at_signal_def)
qed

lemma end_resolving:
  "tk_stage (ts ! t) = Resolving c j \<Longrightarrow> end_task t ts = ts[t := (ts ! t)\<lparr>tk_stage := Ended\<rparr>]"
  by (simp add: end_task_def owned_def abort_tasks_def map_nth)

subsection \<open>An instance browse and its resolver\<close>

text \<open>
  The instance browse is task \<open>base\<close>, on connection \<open>Suc base\<close>, and its resolver the task after it.
  It opens its stream, then has read \<open>k\<close> signals; the resolver is done or not. By then the found
  instance and the one that is gone have been sent, in either order.
\<close>

datatype child_phase = Opening | Reading nat bool

definition child_ok ::
  "bytes \<Rightarrow> i32 \<Rightarrow> bytes \<Rightarrow> bytes \<Rightarrow> nat \<Rightarrow> child_phase \<Rightarrow> linux_task list \<Rightarrow> nat \<Rightarrow> event_result list \<Rightarrow> bool" where
  "child_ok mismatch i t d base ph ts n ms \<longleftrightarrow>
     (case ph of
        Opening \<Rightarrow> length ts = Suc base \<and> tk_stage (ts ! base) = StartInstances i t d \<and> n = Suc base \<and> ms = []
      | Reading k finished \<Rightarrow>
          k \<le> 5 \<and> (finished \<longrightarrow> 0 < k) \<and> n = Suc (Suc base) \<and>
          tk_stage (ts ! base) = at_signal mismatch (mock_iface i) t d (Suc base) k \<and>
          length ts = (if k = 0 then Suc base else Suc (Suc base)) \<and>
          (0 < k \<longrightarrow> tk_stage (ts ! Suc base) =
             (if finished then Ended else Resolving (Suc base) (mock_job (mock_iface i) t d))) \<and>
          mset ms = (if finished then {#Inr (Found (mock_service (mock_iface i) t d))#} else {#}) +
            (if 3 < k then {#Inr (Removed (gone_service (mock_iface i) t d))#} else {#}))"

lemma child_opens:
  assumes "child_ok mismatch i t d base Opening ts n ms" and "served t" and "plan ! Suc base = AsksInstances i t d"
  shows "\<exists>ts' cs'. poll (mock_avahi render mismatch plan) base (mock_state ts n cs ms) =
      mock_state ts' (Suc n) (cs @ cs') ms \<and> as_planned plan cs' \<and>
    child_ok mismatch i t d base (Reading 0 False) ts' (Suc n) ms \<and> take base ts' = take base ts \<and> work ts' < work ts"
proof -
  define ts' where "ts' = advance base (at_signal mismatch (mock_iface i) t d (Suc base) 0) [] ts"
  from assms(1) have ts: "length ts = Suc base" "tk_stage (ts ! base) = StartInstances i t d" "n = Suc base" "ms = []"
    by (simp_all add: child_ok_def)
  from mock_instances_start [of base ts i t d plan n "mock_iface i" render mismatch cs ms] ts assms(2,3)
  obtain cs' where "poll (mock_avahi render mismatch plan) base (mock_state ts n cs ms) =
      mock_state ts' (Suc n) (cs @ cs') ms" "as_planned plan cs'"
    by (auto simp: at_signal_start ts'_def)
  moreover have "child_ok mismatch i t d base (Reading 0 False) ts' (Suc n) ms" "take base ts' = take base ts"
    using ts by (simp_all add: child_ok_def ts'_def advance_def)
  moreover have "work ts' < work ts"
    using work_advance [of base ts "at_signal mismatch (mock_iface i) t d (Suc base) 0" "[]"] ts by (simp add: ts'_def)
  ultimately show ?thesis by blast
qed

lemma child_reads:
  assumes "child_ok mismatch i t d base (Reading k finished) ts n ms" and "k < 5"
  shows "\<exists>ts' ms'. poll api base (mock_state ts n cs ms) = mock_state ts' n cs ms' \<and>
    child_ok mismatch i t d base (Reading (Suc k) finished) ts' n ms' \<and> take base ts' = take base ts \<and> work ts' < work ts"
proof -
  define new where "new = (if k = 0 then [Resolving (Suc base) (mock_job (mock_iface i) t d)] else [])"
  define ts' where "ts' = advance base (at_signal mismatch (mock_iface i) t d (Suc base) (Suc k)) new ts"
  define ms' where "ms' = ms @ (if k = 3 then [Inr (Removed (gone_service (mock_iface i) t d))] else [])"
  have base: "base < length ts" "tk_stage (ts ! base) = at_signal mismatch (mock_iface i) t d (Suc base) k"
    using assms(1) by (simp_all add: child_ok_def split: if_splits)
  have "poll api base (mock_state ts n cs ms) = mock_state ts' n cs ms'"
    using mock_instances_signal [OF base assms(2)] by (simp add: ts'_def ms'_def new_def)
  moreover have "child_ok mismatch i t d base (Reading (Suc k) finished) ts' n ms'"
    using assms base by (auto simp: child_ok_def ts'_def ms'_def new_def advance_def new_task_def nth_append split: if_splits)
  moreover have "take base ts' = take base ts" using base(1) by (simp add: ts'_def advance_def)
  moreover have "work ts' < work ts"
    using work_advance [OF base(1), of "at_signal mismatch (mock_iface i) t d (Suc base) (Suc k)" new] base assms(2)
    by (simp add: ts'_def new_def split: if_splits)
  ultimately show ?thesis by blast
qed

lemma child_resolves:
  assumes "child_ok mismatch i t d base (Reading k False) ts n ms" and "0 < k"
  shows "\<exists>ts' cs' ms'. poll (mock_avahi render mismatch plan) (Suc base) (mock_state ts n cs ms) =
      mock_state ts' n (cs @ cs') ms' \<and> as_planned plan cs' \<and>
    child_ok mismatch i t d base (Reading k True) ts' n ms' \<and> take base ts' = take base ts \<and> work ts' < work ts"
proof -
  define ts' where "ts' = ts[Suc base := (ts ! Suc base)\<lparr>tk_stage := Ended\<rparr>]"
  define ms' where "ms' = ms @ [Inr (Found (mock_service (mock_iface i) t d))]"
  have res: "Suc base < length ts" "tk_stage (ts ! Suc base) = Resolving (Suc base) (mock_job (mock_iface i) t d)"
    using assms by (simp_all add: child_ok_def)
  from mock_resolving [OF res, of render mismatch plan n cs ms] obtain cs' where
    "poll (mock_avahi render mismatch plan) (Suc base) (mock_state ts n cs ms) = mock_state ts' n (cs @ cs') ms'"
    "as_planned plan cs'"
    by (auto simp: end_resolving [OF res(2)] ts'_def ms'_def)
  moreover have "child_ok mismatch i t d base (Reading k True) ts' n ms'"
    using assms res by (simp add: child_ok_def ts'_def ms'_def)
  moreover have "take base ts' = take base ts" by (simp add: ts'_def)
  moreover have "work ts' < work ts"
    using work_update [OF res(1), of "(ts ! Suc base)\<lparr>tk_stage := Ended\<rparr>"] res(2) by (simp add: ts'_def)
  ultimately show ?thesis by blast
qed

lemma as_planned_simps [simp]:
  "as_planned plan []" "as_planned plan (cs @ cs') \<longleftrightarrow> as_planned plan cs \<and> as_planned plan cs'"
  by (simp_all add: as_planned_def)

lemma child_poll:
  assumes child: "child_ok mismatch i t d base ph ts n ms" and "base \<le> j" and ready: "ready ts j"
    and "served t" and "plan ! Suc base = AsksInstances i t d"
  shows "\<exists>ph' ts' n' cs' ms'. poll (mock_avahi render mismatch plan) j (mock_state ts n cs ms) =
      mock_state ts' n' (cs @ cs') ms' \<and> as_planned plan cs' \<and>
    child_ok mismatch i t d base ph' ts' n' ms' \<and> take base ts' = take base ts \<and> work ts' < work ts"
proof (cases ph)
  case Opening
  then have "j = base" using child ready assms(2) by (simp add: child_ok_def ready_def live_def)
  with child_opens [OF child [unfolded Opening] assms(4,5), of render cs] show ?thesis by blast
next
  case (Reading k finished)
  have "j = base \<or> j = Suc base"
    using child ready assms(2) by (auto simp: Reading child_ok_def ready_def live_def split: if_splits)
  then show ?thesis
  proof
    assume j: "j = base"
    then have "k < 5" using child ready by (simp add: Reading child_ok_def ready_def)
    from child_reads [OF child [unfolded Reading] this, of "mock_avahi render mismatch plan" cs]
    obtain ts' ms' where "poll (mock_avahi render mismatch plan) base (mock_state ts n cs ms) =
        mock_state ts' n (cs @ []) ms'" "child_ok mismatch i t d base (Reading (Suc k) finished) ts' n ms'"
        "take base ts' = take base ts" "work ts' < work ts"
      by auto
    then show ?thesis unfolding j using as_planned_simps(1) by blast
  next
    assume j: "j = Suc base"
    then have k: "0 < k" and finished: "finished = False"
      using child ready by (auto simp: Reading child_ok_def ready_def live_def is_finished_def split: if_splits)
    from child_resolves [OF child [unfolded Reading finished] k, of render plan cs] show ?thesis
      unfolding j by blast
  qed
qed

lemma child_few: "child_ok mismatch i t d base ph ts n ms \<Longrightarrow> base < length ts \<and> length ts \<le> base + 2"
  by (cases ph) (simp_all add: child_ok_def)

lemma child_quiet:
  assumes "child_ok mismatch i t d base ph ts n ms" and "\<And>j. \<not> ready ts j"
  shows "mset ms = {#Inr (Found (mock_service (mock_iface i) t d)), Inr (Removed (gone_service (mock_iface i) t d))#}"
proof (cases ph)
  case Opening
  then show ?thesis using assms(1) assms(2) [of base]
    by (simp add: child_ok_def ready_def live_def is_finished_def waits_def)
next
  case (Reading k finished)
  then have "k = 5"
    using assms(1) assms(2) [of base] by (auto simp: child_ok_def ready_def live_def is_finished_def split: if_splits)
  moreover have finished
    using assms(1) assms(2) [of "Suc base"] Reading \<open>k = 5\<close>
    by (auto simp: child_ok_def ready_def live_def is_finished_def waits_def split: if_splits)
  ultimately show ?thesis using assms(1) Reading by (simp add: child_ok_def)
qed

subsection \<open>Browsing one type\<close>

definition single_inv :: "bytes \<Rightarrow> i32 \<Rightarrow> bytes \<Rightarrow> bytes \<Rightarrow> mock_env linux_system \<Rightarrow> bool" where
  "single_inv mismatch i t d s \<longleftrightarrow> served t \<and>
     (\<exists>ph ts n cs ms. s = mock_state ts n cs ms \<and> as_planned [AsksNothing, AsksInstances i t d] cs \<and>
        child_ok mismatch i t d 0 ph ts n ms)"

interpretation single_run: executor "mock_avahi render mismatch [AsksNothing, AsksInstances i t d]"
  "single_inv mismatch i t d" for render mismatch i t d
proof unfold_locales
  fix s
  assume "single_inv mismatch i t d s"
  then show "length (ls_tasks s) \<le> 3" unfolding single_inv_def using child_few by fastforce
next
  fix s j
  assume inv: "single_inv mismatch i t d s" and ready: "ready (ls_tasks s) j"
  then obtain ph ts n cs ms where s: "s = mock_state ts n cs ms"
    and plan: "as_planned [AsksNothing, AsksInstances i t d] cs"
    and child: "child_ok mismatch i t d 0 ph ts n ms" and served: "served t"
    unfolding single_inv_def by blast
  have "ready ts j" using ready by (simp add: s)
  from child_poll [OF child _ this served, of "[AsksNothing, AsksInstances i t d]" render cs]
  obtain ph' ts' n' cs' ms' where
    run: "poll (mock_avahi render mismatch [AsksNothing, AsksInstances i t d]) j s = mock_state ts' n' (cs @ cs') ms'"
    and cs': "as_planned [AsksNothing, AsksInstances i t d] cs'"
    and child': "child_ok mismatch i t d 0 ph' ts' n' ms'" and less: "work ts' < work ts"
    unfolding s by auto
  have "as_planned [AsksNothing, AsksInstances i t d] (cs @ cs')" using plan cs' by simp
  with served child' have "single_inv mismatch i t d (mock_state ts' n' (cs @ cs') ms')"
    unfolding single_inv_def by blast
  with less show "single_inv mismatch i t d (poll (mock_avahi render mismatch [AsksNothing, AsksInstances i t d]) j s) \<and>
      work (ls_tasks (poll (mock_avahi render mismatch [AsksNothing, AsksInstances i t d]) j s)) < work (ls_tasks s)"
    unfolding run by (simp add: s)
qed

text \<open>The browse starts with its root task, and the first connection made.\<close>

lemma mock_browse_starts:
  assumes "interface_to_avahi (sb_interface_index b) = Inr i"
  shows "mock_browse rounds (mock_avahi render mismatch plan) b =
    Inr \<lparr>browser_rx = run_schedule (mock_avahi render mismatch plan) rounds
        (mock_state [new_task 0 (case sb_service_type b of
             Some t \<Rightarrow> StartInstances i t (case sb_domain b of Some d \<Rightarrow> d | None \<Rightarrow> [])
           | None \<Rightarrow> StartTypes i (case sb_domain b of Some d \<Rightarrow> d | None \<Rightarrow> []))] 1 [SystemBus, AvahiServer 0] []),
      browser_guard = ()\<rparr>"
  using assms
  by (simp add: mock_browse_def browse_def linux_browse_start_def connect_system_def connect_avahi_def try_then_def
      map_err_def invoke_def pure_result_def return_ok_def mock_avahi_def linux_started_def root_stage_def mock_state_def
      Let_def split: option.split)

lemma found_and_removed_collected:
  assumes "mset ms = {#Inr (Found f), Inr (Removed r)#}"
  shows "collect_found_and_removed None None ms = Some (f, r)"
proof -
  have "size (mset ms) = 2" unfolding assms by simp
  then obtain a b where ms: "ms = [a, b]" by (auto simp: numeral_2_eq_2 length_Suc_conv)
  with assms have "a = Inr (Found f) \<and> b = Inr (Removed r) \<or> a = Inr (Removed r) \<and> b = Inr (Found f)"
    by (auto simp: add_eq_conv_ex)
  with ms show ?thesis by auto
qed

lemma single_run_delivers:
  assumes "served t" and "fair 11 rounds"
    and s_def: "s = run_schedule (mock_avahi render mismatch [AsksNothing, AsksInstances i t d]) rounds
      (mock_state [new_task 0 (StartInstances i t d)] 1 [SystemBus, AvahiServer 0] [])"
  shows "as_planned [AsksNothing, AsksInstances i t d] (bus_calls (ls_bus s)) \<and>
    collect_found_and_removed None None (ls_sent s) =
      Some (mock_service (mock_iface i) t d, gone_service (mock_iface i) t d)"
proof -
  let ?s0 = "mock_state [new_task 0 (StartInstances i t d)] 1 [SystemBus, AvahiServer 0] []"
  have "child_ok mismatch i t d 0 Opening [new_task 0 (StartInstances i t d)] 1 []"
    by (simp add: child_ok_def new_task_def)
  moreover have "as_planned [AsksNothing, AsksInstances i t d] [SystemBus, AvahiServer 0]" by (simp add: as_planned_def)
  ultimately have "single_inv mismatch i t d ?s0" using assms(1) unfolding single_inv_def by blast
  from single_run.runs_out [OF this assms(2)]
  have "single_inv mismatch i t d s" and quiet: "\<not> ready (ls_tasks s) j" for j
    by (simp_all add: work_def new_task_def s_def)
  then obtain ph ts n cs ms where "s = mock_state ts n cs ms" "as_planned [AsksNothing, AsksInstances i t d] cs"
    "child_ok mismatch i t d 0 ph ts n ms"
    unfolding single_inv_def by blast
  with child_quiet [of mismatch i t d 0 ph ts n ms] quiet show ?thesis
    by (simp add: found_and_removed_collected)
qed

lemma single_type_test_passes:
  "fair 11 rounds \<Longrightarrow> test_browse_single_type_uses_requested_type_and_interface rounds render mismatch"
  using single_run_delivers [of "''_printer._tcp''" rounds _ render mismatch 2 "''local''", OF _ _ refl]
  by (simp add: test_browse_single_type_uses_requested_type_and_interface_def mock_browse_starts set_interface_index_def
      set_domain_def set_service_type_def ServiceBrowserBuilder_new_def interface_to_avahi_def served_def asked_def
      events_def mock_service_def gone_service_def resolved_to_service_def mock_iface_def avahi_interface_to_index_def
      NonZeroU32_new_def Let_def)

subsection \<open>Browsing all types\<close>

text \<open>The root reads the type twice, and spawns an instance browse once.\<close>

definition mock_type_items :: "bytes \<Rightarrow> i32 \<Rightarrow> bytes \<Rightarrow> stream_item list" where
  "mock_type_items mismatch i d =
     [mock_signal mismatch ''ItemNew'' (Some (i, -1, ''_mock._tcp'', d, 0)) None None,
      mock_signal mismatch ''ItemNew'' (Some (i, -1, ''_mock._tcp'', d, 0)) None None,
      mock_signal mismatch ''ItemNew'' None None None, mock_signal mismatch ''AllForNow'' None None None]"

definition mock_type_locals :: "bytes \<Rightarrow> bytes \<Rightarrow> nat \<Rightarrow> TypeBrowse" where
  "mock_type_locals mismatch d k =
     \<lparr>tb_seen = (if 0 < k then {(''_mock._tcp'', d)} else {}),
      child_browsers = (if 0 < k then [(''_mock._tcp'', d)] else []), tb_sent = [],
      tb_warned = (if 2 < k then [''malformed service type ItemNew: '' @ mismatch] else [])\<rparr>"

definition at_type :: "bytes \<Rightarrow> i32 \<Rightarrow> bytes \<Rightarrow> nat \<Rightarrow> linux_stage" where
  "at_type mismatch i d k =
     TypesLoop i 1 ''/mock/type_browser'' (drop k (mock_type_items mismatch i d)) (mock_type_locals mismatch d k)"

lemma at_type_simps [simp]:
  "at_type mismatch i d k \<noteq> Ended" "waits (at_type mismatch i d k) \<longleftrightarrow> 4 \<le> k"
  "stage_work (at_type mismatch i d k) = 12 * (4 - k)"
proof -
  have l: "length (mock_type_items mismatch i d) = 4" by (simp add: mock_type_items_def)
  show "at_type mismatch i d k \<noteq> Ended" by (simp add: at_type_def)
  show "stage_work (at_type mismatch i d k) = 12 * (4 - k)" using l by (simp add: at_type_def)
  have "waits (TypesLoop i c p its st) \<longleftrightarrow> its = []" for c p its st
    by (simp add: waits_def split: list.split)
  then show "waits (at_type mismatch i d k) \<longleftrightarrow> 4 \<le> k" using l by (simp add: at_type_def)
qed

lemma mock_types_start:
  assumes "0 < length ts" and "tk_stage (ts ! 0) = StartTypes i d" and "d \<noteq> ''type-new-fails''"
    and "d \<noteq> ''type-failure''" and "plan ! 1 = AsksTypes i d"
  shows "\<exists>cs'. poll (mock_avahi render mismatch plan) 0 (mock_state ts 1 cs ms) =
      mock_state (advance 0 (at_type mismatch i d 0) [] ts) 2 (cs @ cs') ms \<and> as_planned plan cs'"
  using assms
  by (simp add: poll_def poll_start_def bus_simps mock_avahi_def mock_items_def mock_type_browser_new_def
      at_type_def mock_type_items_def mock_type_locals_def TypeBrowse_new_def mock_state_def as_planned_def
      numeral_2_eq_2)

lemma mock_types_signal:
  assumes "0 < length ts" and "tk_stage (ts ! 0) = at_type mismatch i d k" and "k < 4"
  shows "poll api 0 (mock_state ts n cs ms) =
    mock_state (advance 0 (at_type mismatch i d (Suc k))
      (if k = 0 then [StartInstances i ''_mock._tcp'' d] else []) ts) n cs ms"
proof -
  from assms(3) consider "k = 0" | "k = 1" | "k = 2" | "k = 3" by linarith
  then show ?thesis
    by cases
       (use assms(1,2) in \<open>simp_all add: poll_def at_type_def mock_type_items_def mock_type_locals_def
          type_step_def observe_def mock_signal_def spawn_browse_def tb_warn_def job_of_type_def
          poll_item_def emit_def mock_state_def\<close>)
qed

definition types_ok ::
  "bytes \<Rightarrow> i32 \<Rightarrow> bytes \<Rightarrow> linux_task list \<Rightarrow> nat \<Rightarrow> event_result list \<Rightarrow> bool" where
  "types_ok mismatch i d ts n ms \<longleftrightarrow>
     length ts = 1 \<and> tk_stage (ts ! 0) = StartTypes i d \<and> n = 1 \<and> ms = [] \<or>
     length ts = 1 \<and> tk_stage (ts ! 0) = at_type mismatch i d 0 \<and> n = 2 \<and> ms = [] \<or>
     (\<exists>k ph. 0 < k \<and> k \<le> 4 \<and> tk_stage (ts ! 0) = at_type mismatch i d k \<and>
        child_ok mismatch i ''_mock._tcp'' d 1 ph ts n ms)"

text \<open>The root moves on; its child does not notice.\<close>

lemma child_ok_root:
  assumes "child_ok mismatch i t d 1 ph ts n ms"
  shows "child_ok mismatch i t d 1 ph (advance 0 stage [] ts) n ms"
  using assms by (cases ph) (simp_all add: child_ok_def advance_def)

lemma root_poll:
  assumes ok: "types_ok mismatch i d ts n ms" and ready: "ready ts 0"
    and d: "d \<noteq> ''type-new-fails''" "d \<noteq> ''type-failure''" and plan: "plan ! 1 = AsksTypes i d"
  shows "\<exists>ts' n' cs'. poll (mock_avahi render mismatch plan) 0 (mock_state ts n cs ms) =
      mock_state ts' n' (cs @ cs') ms \<and> as_planned plan cs' \<and> types_ok mismatch i d ts' n' ms \<and> work ts' < work ts"
proof -
  from ready have ts: "0 < length ts" by (simp add: ready_def live_def)
  from ok consider (start) "length ts = 1" "tk_stage (ts ! 0) = StartTypes i d" "n = 1" "ms = []"
    | (first) "length ts = 1" "tk_stage (ts ! 0) = at_type mismatch i d 0" "n = 2" "ms = []"
    | (rest) k ph where "0 < k" "k \<le> 4" "tk_stage (ts ! 0) = at_type mismatch i d k"
        "child_ok mismatch i ''_mock._tcp'' d 1 ph ts n ms"
    unfolding types_ok_def by blast
  then show ?thesis
  proof cases
    case start
    let ?ts = "advance 0 (at_type mismatch i d 0) [] ts"
    have "types_ok mismatch i d ?ts 2 ms" using start by (simp add: types_ok_def advance_def)
    moreover have "work ?ts < work ts" using work_advance [OF ts, of "at_type mismatch i d 0" "[]"] start by simp
    ultimately show ?thesis
      using mock_types_start [OF ts start(2) d plan, of render mismatch cs ms] unfolding start(3) by blast
  next
    case first
    let ?ts = "advance 0 (at_type mismatch i d 1) [StartInstances i ''_mock._tcp'' d] ts"
    have "child_ok mismatch i ''_mock._tcp'' d 1 Opening ?ts n ms" "tk_stage (?ts ! 0) = at_type mismatch i d 1"
      using first by (simp_all add: child_ok_def advance_def new_task_def nth_append)
    then have "types_ok mismatch i d ?ts n ms" unfolding types_ok_def by (metis one_le_numeral zero_less_one)
    moreover have "work ?ts < work ts"
      using work_advance [OF ts, of "at_type mismatch i d 1" "[StartInstances i ''_mock._tcp'' d]"] first by simp
    moreover have "poll (mock_avahi render mismatch plan) 0 (mock_state ts n cs ms) = mock_state ?ts n (cs @ []) ms"
      using mock_types_signal [OF ts first(2)] by simp
    ultimately show ?thesis using as_planned_simps(1) by blast
  next
    case rest
    let ?ts = "advance 0 (at_type mismatch i d (Suc k)) [] ts"
    have k: "k < 4" using ready rest by (simp add: ready_def)
    have "tk_stage (?ts ! 0) = at_type mismatch i d (Suc k)" using ts by (simp add: advance_def)
    with child_ok_root [OF rest(4)] k have "types_ok mismatch i d ?ts n ms"
      unfolding types_ok_def by (metis Suc_leI zero_less_Suc)
    moreover have "work ?ts < work ts"
      using work_advance [OF ts, of "at_type mismatch i d (Suc k)" "[]"] rest k by simp
    moreover have "poll (mock_avahi render mismatch plan) 0 (mock_state ts n cs ms) = mock_state ?ts n (cs @ []) ms"
      using mock_types_signal [OF ts rest(3) k] rest(1) by simp
    ultimately show ?thesis using as_planned_simps(1) by blast
  qed
qed

definition all_plan :: "i32 \<Rightarrow> bytes \<Rightarrow> mock_request list" where
  "all_plan i d = [AsksNothing, AsksTypes i d, AsksInstances i ''_mock._tcp'' d]"

definition all_inv :: "bytes \<Rightarrow> i32 \<Rightarrow> bytes \<Rightarrow> mock_env linux_system \<Rightarrow> bool" where
  "all_inv mismatch i d s \<longleftrightarrow> d \<noteq> ''type-new-fails'' \<and> d \<noteq> ''type-failure'' \<and>
     (\<exists>ts n cs ms. s = mock_state ts n cs ms \<and> as_planned (all_plan i d) cs \<and> types_ok mismatch i d ts n ms)"

lemma all_poll:
  assumes ok: "types_ok mismatch i d ts n ms" and ready: "ready ts j"
    and d: "d \<noteq> ''type-new-fails''" "d \<noteq> ''type-failure''"
  shows "\<exists>ts' n' cs' ms'. poll (mock_avahi render mismatch (all_plan i d)) j (mock_state ts n cs ms) =
      mock_state ts' n' (cs @ cs') ms' \<and> as_planned (all_plan i d) cs' \<and> types_ok mismatch i d ts' n' ms' \<and>
    work ts' < work ts"
proof (cases "j = 0")
  case True
  with root_poll [OF ok _ d, of "all_plan i d" render cs] ready show ?thesis
    by (auto simp: all_plan_def)
next
  case False
  then have "length ts \<noteq> 1" using ready by (auto simp: ready_def live_def)
  with ok obtain k ph where k: "0 < k" "k \<le> 4" "tk_stage (ts ! 0) = at_type mismatch i d k"
    and child: "child_ok mismatch i ''_mock._tcp'' d 1 ph ts n ms"
    unfolding types_ok_def by blast
  have "served ''_mock._tcp''" "all_plan i d ! Suc 1 = AsksInstances i ''_mock._tcp'' d" "1 \<le> j"
    using False by (simp_all add: served_def all_plan_def)
  from child_poll [OF child this(3) ready this(1,2), of render cs] obtain ph' ts' n' cs' ms' where
    run: "poll (mock_avahi render mismatch (all_plan i d)) j (mock_state ts n cs ms) = mock_state ts' n' (cs @ cs') ms'"
      "as_planned (all_plan i d) cs'" "work ts' < work ts"
    and child': "child_ok mismatch i ''_mock._tcp'' d 1 ph' ts' n' ms'" and "take 1 ts' = take 1 ts"
    by blast
  then have "ts' ! 0 = ts ! 0" using child_few [OF child] child_few [OF child'] by (metis less_numeral_extra(1) nth_take)
  with k child' have "types_ok mismatch i d ts' n' ms'" unfolding types_ok_def by metis
  with run show ?thesis by blast
qed

interpretation all_run: executor "mock_avahi render mismatch (all_plan i d)" "all_inv mismatch i d"
  for render mismatch i d
proof unfold_locales
  fix s
  assume "all_inv mismatch i d s"
  then obtain ts n cs ms where "s = mock_state ts n cs ms" "types_ok mismatch i d ts n ms"
    unfolding all_inv_def by blast
  then show "length (ls_tasks s) \<le> 3" unfolding types_ok_def using child_few by fastforce
next
  fix s j
  assume "all_inv mismatch i d s" and ready: "ready (ls_tasks s) j"
  then obtain ts n cs ms where s: "s = mock_state ts n cs ms" and cs: "as_planned (all_plan i d) cs"
    and ok: "types_ok mismatch i d ts n ms" and d: "d \<noteq> ''type-new-fails''" "d \<noteq> ''type-failure''"
    unfolding all_inv_def by blast
  have "ready ts j" using ready by (simp add: s)
  from all_poll [OF ok this d, of render cs] obtain ts' n' cs' ms' where
    run: "poll (mock_avahi render mismatch (all_plan i d)) j s = mock_state ts' n' (cs @ cs') ms'"
    and cs': "as_planned (all_plan i d) cs'" and ok': "types_ok mismatch i d ts' n' ms'" and less: "work ts' < work ts"
    unfolding s by blast
  have "as_planned (all_plan i d) (cs @ cs')" using cs cs' by simp
  with d ok' have "all_inv mismatch i d (mock_state ts' n' (cs @ cs') ms')" unfolding all_inv_def by blast
  with less show "all_inv mismatch i d (poll (mock_avahi render mismatch (all_plan i d)) j s) \<and>
      work (ls_tasks (poll (mock_avahi render mismatch (all_plan i d)) j s)) < work (ls_tasks s)"
    unfolding run by (simp add: s)
qed

lemma all_run_delivers:
  assumes "d \<noteq> ''type-new-fails''" and "d \<noteq> ''type-failure''" and "fair 49 rounds"
    and s_def: "s = run_schedule (mock_avahi render mismatch (all_plan i d)) rounds
      (mock_state [new_task 0 (StartTypes i d)] 1 [SystemBus, AvahiServer 0] [])"
  shows "as_planned (all_plan i d) (bus_calls (ls_bus s)) \<and>
    collect_found_and_removed None None (ls_sent s) =
      Some (mock_service (mock_iface i) ''_mock._tcp'' d, gone_service (mock_iface i) ''_mock._tcp'' d)"
proof -
  let ?s0 = "mock_state [new_task 0 (StartTypes i d)] 1 [SystemBus, AvahiServer 0] []"
  have "types_ok mismatch i d [new_task 0 (StartTypes i d)] 1 []" by (simp add: types_ok_def new_task_def)
  moreover have "as_planned (all_plan i d) [SystemBus, AvahiServer 0]" by (simp add: as_planned_def)
  ultimately have "all_inv mismatch i d ?s0" using assms(1,2) unfolding all_inv_def by blast
  from all_run.runs_out [OF this assms(3)]
  have "all_inv mismatch i d s" and quiet: "\<not> ready (ls_tasks s) j" for j
    by (simp_all add: work_def new_task_def s_def)
  then obtain ts n cs ms where s: "s = mock_state ts n cs ms" "as_planned (all_plan i d) cs"
    "types_ok mismatch i d ts n ms"
    unfolding all_inv_def by blast
  have "\<not> (length ts = 1 \<and> (tk_stage (ts ! 0) = StartTypes i d \<or> tk_stage (ts ! 0) = at_type mismatch i d 0))"
    using quiet [of 0] by (auto simp: s(1) ready_def live_def is_finished_def)
  with s(3) obtain ph where "child_ok mismatch i ''_mock._tcp'' d 1 ph ts n ms"
    unfolding types_ok_def by blast
  with child_quiet [of mismatch i "''_mock._tcp''" d 1 ph ts n ms] quiet s(1,2) show ?thesis
    by (simp add: found_and_removed_collected)
qed

lemma mock_ip: "ip_from_str ''192.168.7.42'' = Some (V4 0xC0A8072A)"
proof -
  have "read_ipv4_addr ''192.168.7.42'' = Some ((192, 168, 7, 42), [])" by code_simp
  then show ?thesis by (simp add: ip_from_str_def ipv4_of_def)
qed

lemma mock_txt:
  "parse_txt_entry ''path=/mock'' = \<lparr>txt_key = ''path'', txt_value = Some ''/mock''\<rparr>"
  "parse_txt_entry ''flag'' = \<lparr>txt_key = ''flag'', txt_value = None\<rparr>"
  by code_simp+

lemma all_types_test_passes:
  "fair 49 rounds \<Longrightarrow> test_browse_all_types_emits_found_and_removed rounds render mismatch"
  using all_run_delivers [of "[]" rounds _ render mismatch "-1", OF _ _ _ refl]
  by (simp add: test_browse_all_types_emits_found_and_removed_def mock_browse_starts ServiceBrowserBuilder_new_def
      interface_to_avahi_def AVAHI_IF_UNSPEC_def asked_def events_def all_plan_def mock_service_def gone_service_def
      resolved_to_service_def mock_ip mock_txt txt_lookup_def mock_iface_def avahi_interface_to_index_def
      NonZeroU32_new_def Let_def)

subsection \<open>Browses that fail\<close>

text \<open>A root task that goes through its stages alone, and reports an error on the way to the last.\<close>

definition solo_state :: "linux_stage list \<Rightarrow> ServiceBrowseError \<Rightarrow> nat \<Rightarrow> nat \<Rightarrow> bus_call list \<Rightarrow> mock_env linux_system" where
  "solo_state stages err k n cs =
     mock_state [new_task 0 (stages ! k)] n cs (if Suc k = length stages then [Inl err] else [])"

definition solo_steps ::
  "mock_env dbus \<Rightarrow> mock_request list \<Rightarrow> linux_stage list \<Rightarrow> ServiceBrowseError \<Rightarrow> bool" where
  "solo_steps api plan stages err \<longleftrightarrow>
     (\<forall>k n cs. Suc k < length stages \<longrightarrow> (k = 0 \<longrightarrow> n = 1) \<longrightarrow>
        stage_work (stages ! Suc k) < stage_work (stages ! k) \<and>
        (\<exists>n' cs'. poll api 0 (solo_state stages err k n cs) = solo_state stages err (Suc k) n' (cs @ cs') \<and>
           as_planned plan cs'))"

definition solo_inv ::
  "mock_env dbus \<Rightarrow> mock_request list \<Rightarrow> linux_stage list \<Rightarrow> ServiceBrowseError \<Rightarrow> mock_env linux_system \<Rightarrow> bool" where
  "solo_inv api plan stages err s \<longleftrightarrow>
     solo_steps api plan stages err \<and> (last stages = Ended \<or> waits (last stages)) \<and>
     (\<exists>k n cs. k < length stages \<and> s = solo_state stages err k n cs \<and> (k = 0 \<longrightarrow> n = 1) \<and> as_planned plan cs)"

lemma ready_solo: "ready [new_task 0 stage] j \<longleftrightarrow> j = 0 \<and> stage \<noteq> Ended \<and> \<not> waits stage"
  by (auto simp: ready_def live_def is_finished_def new_task_def)

lemma solo_poll:
  assumes inv: "solo_inv api plan stages err s" and ready: "ready (ls_tasks s) j"
  shows "solo_inv api plan stages err (poll api j s) \<and> work (ls_tasks (poll api j s)) < work (ls_tasks s)"
proof -
  from inv obtain k n cs where k: "k < length stages" and s: "s = solo_state stages err k n cs"
    and n: "k = 0 \<longrightarrow> n = 1" and cs: "as_planned plan cs" and steps: "solo_steps api plan stages err"
    and last: "last stages = Ended \<or> waits (last stages)"
    unfolding solo_inv_def by blast
  have j: "j = 0" and "stages ! k \<noteq> Ended" "\<not> waits (stages ! k)"
    using ready by (simp_all add: s solo_state_def ready_solo)
  then have "Suc k \<noteq> length stages" using last by (metis diff_Suc_1 last_conv_nth length_0_conv nat.distinct(1))
  with k have k': "Suc k < length stages" by simp
  with steps n obtain n' cs' where run: "poll api 0 s = solo_state stages err (Suc k) n' (cs @ cs')"
    and cs': "as_planned plan cs'" and less: "stage_work (stages ! Suc k) < stage_work (stages ! k)"
    unfolding solo_steps_def s by blast
  have "as_planned plan (cs @ cs')" using cs cs' by simp
  with k' steps last have "solo_inv api plan stages err (poll api 0 s)" unfolding solo_inv_def run by blast
  moreover have "work (ls_tasks (poll api 0 s)) < work (ls_tasks s)"
    using less unfolding run by (simp add: s solo_state_def work_def new_task_def)
  ultimately show ?thesis unfolding j ..
qed

interpretation solo_run: executor api "solo_inv api plan stages err" for api plan stages err
proof unfold_locales
  fix s
  assume "solo_inv api plan stages err s"
  then show "length (ls_tasks s) \<le> 3" by (auto simp: solo_inv_def solo_state_def)
next
  fix s j
  assume "solo_inv api plan stages err s" and "ready (ls_tasks s) j"
  then show "solo_inv api plan stages err (poll api j s) \<and> work (ls_tasks (poll api j s)) < work (ls_tasks s)"
    by (rule solo_poll)
qed

lemma solo_delivers:
  assumes "solo_steps api plan stages err" and "last stages = Ended \<or> waits (last stages)" and "1 < length stages"
    and "fair (stage_work (hd stages)) rounds"
    and s_def: "s = run_schedule api rounds (mock_state [new_task 0 (hd stages)] 1 [SystemBus, AvahiServer 0] [])"
  shows "ls_tasks s = [new_task 0 (last stages)] \<and> ls_sent s = [Inl err] \<and> as_planned plan (bus_calls (ls_bus s))"
proof -
  let ?s0 = "mock_state [new_task 0 (hd stages)] 1 [SystemBus, AvahiServer 0] []"
  have ne: "stages \<noteq> []" using assms(3) by auto
  then have "?s0 = solo_state stages err 0 1 [SystemBus, AvahiServer 0]"
    using assms(3) by (simp add: solo_state_def hd_conv_nth)
  moreover have "as_planned plan [SystemBus, AvahiServer 0]" by (simp add: as_planned_def)
  moreover have "0 < length stages" using ne by simp
  ultimately have "solo_inv api plan stages err ?s0"
    using assms(1,2) unfolding solo_inv_def by blast
  from solo_run.runs_out [OF this assms(4)]
  have "solo_inv api plan stages err s" and quiet: "\<not> ready (ls_tasks s) j" for j
    by (simp_all add: work_def new_task_def s_def)
  then obtain k n cs where k: "k < length stages" and s: "s = solo_state stages err k n cs"
    and n: "k = 0 \<longrightarrow> n = 1" and cs: "as_planned plan cs"
    unfolding solo_inv_def by blast
  have "Suc k = length stages"
  proof (rule ccontr)
    assume "Suc k \<noteq> length stages"
    with k have "Suc k < length stages" by simp
    with assms(1) n obtain n' cs' where "poll api 0 s = solo_state stages err (Suc k) n' (cs @ cs')"
      and less: "stage_work (stages ! Suc k) < stage_work (stages ! k)"
      unfolding solo_steps_def s by blast
    have "stages ! k = Ended \<or> waits (stages ! k)"
      using quiet [of 0] by (auto simp: s solo_state_def ready_solo)
    then have "stage_work (stages ! k) = 0"
      by (auto simp: waits_def split: linux_stage.splits list.splits)
    with less show False by simp
  qed
  then have "k = length stages - 1" and "Suc k = length stages" by simp_all
  with ne s cs show ?thesis by (simp add: solo_state_def last_conv_nth)
qed

text \<open>The four tests.\<close>

lemma end_start [simp]:
  "end_task 0 [new_task 0 (StartTypes i d)] = [new_task 0 Ended]"
  "end_task 0 [new_task 0 (StartInstances i t d)] = [new_task 0 Ended]"
  by (simp_all add: end_task_def owned_def abort_tasks_def new_task_def)

lemma advance_solo [simp]: "advance 0 stage [] [new_task 0 stage'] = [new_task 0 stage]"
  by (simp add: advance_def new_task_def)

lemma new_task_stage [simp]: "tk_stage (new_task p stage) = stage"
  by (simp add: new_task_def)

definition failure_signal :: "bytes \<Rightarrow> bytes \<Rightarrow> stream_item" where
  "failure_signal mismatch boom = mock_signal mismatch ''Failure'' None None (Some boom)"

lemma types_rejected:
  "solo_steps (mock_avahi render mismatch [AsksNothing, AsksTypes (-1) ''type-new-fails''])
     [AsksNothing, AsksTypes (-1) ''type-new-fails''] [StartTypes (-1) ''type-new-fails'', Ended]
     (BrowseFailed (''ServiceTypeBrowserNew failed: '' @ render ''mock rejects type browser''))"
  by (simp add: solo_steps_def solo_state_def mock_state_def poll_def poll_start_def emit_def bus_simps mock_avahi_def
      mock_items_def mock_type_browser_new_def as_planned_def)

lemma instances_rejected:
  "solo_steps (mock_avahi render mismatch [AsksNothing, AsksInstances (-1) ''_new-fails._tcp'' []])
     [AsksNothing, AsksInstances (-1) ''_new-fails._tcp'' []] [StartInstances (-1) ''_new-fails._tcp'' [], Ended]
     (BrowseFailed (''ServiceBrowserNew failed for '' @ ''_new-fails._tcp'' @ '': '' @ render ''mock rejects service browser''))"
  by (simp add: solo_steps_def solo_state_def mock_state_def poll_def poll_start_def emit_def bus_simps mock_avahi_def
      mock_items_def mock_service_browser_new_def as_planned_def)

lemma types_fail:
  "solo_steps (mock_avahi render mismatch [AsksNothing, AsksTypes (-1) ''type-failure''])
     [AsksNothing, AsksTypes (-1) ''type-failure'']
     [StartTypes (-1) ''type-failure'',
      TypesLoop (-1) 1 ''/mock/type_browser'' [failure_signal mismatch ''type boom''] TypeBrowse_new,
      TypesLoop (-1) 1 ''/mock/type_browser'' []
        (TypeBrowse_new\<lparr>tb_sent := [Inl (BrowseFailed (''service type browser failure: '' @ ''type boom''))]\<rparr>)]
     (BrowseFailed (''service type browser failure: '' @ ''type boom''))"
  by (auto simp: solo_steps_def solo_state_def mock_state_def poll_def poll_start_def poll_item_def emit_def bus_simps
      mock_avahi_def mock_items_def mock_type_browser_new_def SERVICE_BROWSER_INTERFACE_def
      SERVICE_TYPE_BROWSER_INTERFACE_def failure_signal_def type_step_def observe_def mock_signal_def tb_send_def
      unwrap_or_default_def TypeBrowse_new_def as_planned_def less_Suc_eq numeral_eq_Suc)

lemma instances_fail:
  "solo_steps (mock_avahi render mismatch [AsksNothing, AsksInstances (-1) ''_failure._tcp'' []])
     [AsksNothing, AsksInstances (-1) ''_failure._tcp'' []]
     [StartInstances (-1) ''_failure._tcp'' [],
      InstancesLoop ''_failure._tcp'' 1 ''/mock/service_browser'' [failure_signal mismatch ''browse boom''] InstanceBrowse_new,
      InstancesLoop ''_failure._tcp'' 1 ''/mock/service_browser'' [] (InstanceBrowse_new\<lparr>ib_sent :=
        [Inl (BrowseFailed (''service browser failure for '' @ ''_failure._tcp'' @ '': '' @ ''browse boom''))]\<rparr>)]
     (BrowseFailed (''service browser failure for '' @ ''_failure._tcp'' @ '': '' @ ''browse boom''))"
  by (auto simp: solo_steps_def solo_state_def mock_state_def poll_def poll_start_def poll_item_def emit_def bus_simps
      mock_avahi_def mock_items_def mock_service_browser_new_def SERVICE_BROWSER_INTERFACE_def
      SERVICE_TYPE_BROWSER_INTERFACE_def failure_signal_def instance_step_def observe_def mock_signal_def ib_send_def
      unwrap_or_default_def InstanceBrowse_new_def as_planned_def less_Suc_eq numeral_eq_Suc)

lemma fair_less: "fair n rounds \<Longrightarrow> m \<le> n \<Longrightarrow> fair m rounds"
  by (simp add: fair_def)

lemma waits_loops [simp]: "waits (TypesLoop i c p [] st)" "waits (InstancesLoop t c p [] st')"
  by (simp_all add: waits_def)

lemmas builder_simps = ServiceBrowserBuilder_new_def set_service_type_def set_domain_def interface_to_avahi_def
  AVAHI_IF_UNSPEC_def mock_browse_starts asked_def events_def stream_ends_def next_failed_def Let_def

lemma rejected_tests_pass:
  assumes "fair 49 rounds"
  shows "test_browse_all_surfaces_type_browser_creation_error_and_ends_stream rounds render mismatch"
    and "test_browse_surfaces_browser_creation_error_and_ends_stream rounds render mismatch"
  using solo_delivers [OF types_rejected _ _ _ refl, of rounds render mismatch]
    solo_delivers [OF instances_rejected _ _ _ refl, of rounds render mismatch] fair_less [OF assms, of 11] assms
  by (simp_all add: test_browse_all_surfaces_type_browser_creation_error_and_ends_stream_def
      test_browse_surfaces_browser_creation_error_and_ends_stream_def builder_simps live_def is_finished_def
      sublist_Cons_right)

lemma failure_tests_pass:
  assumes "fair 49 rounds"
  shows "test_browse_all_surfaces_type_browser_failure_signal rounds render mismatch"
    and "test_browse_surfaces_browser_failure_signal rounds render mismatch"
  using solo_delivers [OF types_fail _ _ _ refl, of mismatch rounds render]
    solo_delivers [OF instances_fail _ _ _ refl, of mismatch rounds render] fair_less [OF assms, of 11] assms
  by (simp_all add: test_browse_all_surfaces_type_browser_failure_signal_def
      test_browse_surfaces_browser_failure_signal_def builder_simps sublist_Cons_right)

text \<open>
  C39: Every integration test of the Linux back-end passes on the model, whatever the order in which
  the executor polls the tasks, as long as it visits each of them in each of 49 rounds, and whatever
  the bus makes of an error of the mock, as long as it quotes its text.
\<close>

theorem integration_tests_pass:
  assumes "fair 49 rounds" and "sublist ''no such service'' (render ''no such service'')"
  shows "test_browse_all_types_emits_found_and_removed rounds render mismatch \<and>
    test_browse_single_type_uses_requested_type_and_interface rounds render mismatch \<and>
    test_browse_surfaces_browser_failure_signal rounds render mismatch \<and>
    test_browse_surfaces_browser_creation_error_and_ends_stream rounds render mismatch \<and>
    test_browse_all_surfaces_type_browser_failure_signal rounds render mismatch \<and>
    test_browse_all_surfaces_type_browser_creation_error_and_ends_stream rounds render mismatch \<and>
    test_resolver_resolves_live_instance render mismatch \<and>
    test_resolver_with_timeout_and_interface_resolves render mismatch \<and>
    test_resolver_reports_gone_instance render mismatch \<and>
    test_resolver_times_out_on_unresponsive_instance render mismatch \<and>
    test_browse_and_resolve_fail_without_system_bus err"
  using all_types_test_passes [OF assms(1)] single_type_test_passes [OF fair_less [OF assms(1)]]
    rejected_tests_pass [OF assms(1)] failure_tests_pass [OF assms(1)] resolver_tests_pass assms(2)
  by simp

theorem integration_tests_pass_witness:
  "test_browse_all_types_emits_found_and_removed (replicate 49 [2, 1, 0])
     (\<lambda>m. ''org.freedesktop.DBus.Error.Failed: '' @ m) ''signature mismatch''"
proof -
  have "fair 49 (replicate 49 [2, 1, 0])" by (simp add: fair_def list_all_iff)
  moreover have "sublist ''no such service'' (''org.freedesktop.DBus.Error.Failed: '' @ ''no such service'')"
    by (simp add: sublist_Cons_right)
  ultimately show ?thesis
    using integration_tests_pass [of "replicate 49 [2, 1, 0]" "\<lambda>m. ''org.freedesktop.DBus.Error.Failed: '' @ m"] by blast
qed

end
